theory Spec2Isabelle
  imports Complex_Main
begin

section \<open>Data model\<close>

text \<open>
  Python floats are idealised as reals, Python ints are \<open>int\<close>.  A dictionary with
  integer keys (a score table, a frequency table) is an association list in the
  dictionary's insertion order, because the order decides ties in \<open>sorted\<close> and \<open>max\<close>.
\<close>

datatype meta_value =
    MBool bool
  | MInt int
  | MReal real
  | MStr string
  | MInts "int list"
  | MStrs "string list"
  | MDict "(string \<times> meta_value) list"
  | MList "meta_value list"

type_synonym metadata_dict = "(string \<times> meta_value) list"

record PredictionResult =
  red_balls :: "int list"
  blue_ball :: int
  confidence :: real
  metadata :: "metadata_dict option"

text \<open>
  A historical draw is a dictionary; the engine reads four keys of it.  A key that is
  absent is \<open>None\<close>.
\<close>

record draw =
  key_red_balls :: "int list option"
  key_redBalls :: "int list option"
  key_blue_ball :: "int option"
  key_blueBall :: "int option"

section \<open>The random module\<close>

text \<open>
  The generator state of Python's \<open>random\<close> module is an explicit stream of naturals
  (a list; an exhausted stream keeps answering 0).  \<open>randint\<close>, \<open>sample\<close>, \<open>shuffle\<close>
  and \<open>choice\<close> consume it and return the rest.
\<close>

type_synonym rng = "nat list"

fun next_rand :: "rng \<Rightarrow> nat \<times> rng" where
  "next_rand [] = (0, [])"
| "next_rand (r # g) = (r, g)"

definition randint :: "int \<Rightarrow> int \<Rightarrow> rng \<Rightarrow> int \<times> rng" where
  "randint a b g = (let (r, g') = next_rand g in (a + int r mod (b - a + 1), g'))"

text \<open>\<open>random.sample(population, k)\<close>: selection without replacement. Every call of the
  source has \<open>k \<le> len(population)\<close>; past the population the model stops picking.\<close>

fun random_sample :: "'a list \<Rightarrow> nat \<Rightarrow> rng \<Rightarrow> 'a list \<times> rng" where
  "random_sample pop 0 g = ([], g)"
| "random_sample [] (Suc k) g = ([], g)"
| "random_sample (p # ps) (Suc k) g =
     (let (r, g1) = next_rand g;
          i = r mod length (p # ps);
          (picked, g2) = random_sample (take i (p # ps) @ drop (Suc i) (p # ps)) k g1
      in ((p # ps) ! i # picked, g2))"

definition shuffle :: "'a list \<Rightarrow> rng \<Rightarrow> 'a list \<times> rng" where
  "shuffle xs g = random_sample xs (length xs) g"

text \<open>\<open>random.choice\<close>; the source calls it on a non-empty list only.\<close>

definition random_choice :: "int list \<Rightarrow> rng \<Rightarrow> int \<times> rng" where
  "random_choice xs g = (let (r, g') = next_rand g in (xs ! (r mod length xs), g'))"

section \<open>base.py: the predictor contract\<close>

definition validate_prediction ::
  "real \<Rightarrow> PredictionResult \<Rightarrow> rng \<Rightarrow> PredictionResult \<times> rng" where
  "validate_prediction max_confidence result g =
     (let reds0 = sort (remdups (red_balls result));
          (reds, g1) =
            (if length reds0 < 6 then
               (let available_numbers = filter (\<lambda>n. n \<notin> set reds0) [1..33];
                    (shuffled, g') = shuffle available_numbers g
                in (sort (reds0 @ take (6 - length reds0) shuffled), g'))
             else if length reds0 > 6 then (take 6 reds0, g)
             else (reds0, g));
          (blue, g2) =
            (if blue_ball result < 1 \<or> blue_ball result > 16 then randint 1 16 g1
             else (blue_ball result, g1));
          conf = min (confidence result) max_confidence
      in (\<lparr>red_balls = reds, blue_ball = blue, confidence = conf,
            metadata = metadata result\<rparr>, g2))"

definition generate_random_fallback :: "rng \<Rightarrow> PredictionResult \<times> rng" where
  "generate_random_fallback g =
     (let (picked, g1) = random_sample [1..33] 6 g;
          (blue, g2) = randint 1 16 g1
      in (\<lparr>red_balls = sort picked, blue_ball = blue, confidence = 30,
            metadata = Some [(''fallback'', MBool True)]\<rparr>, g2))"

section \<open>Python and numpy primitives\<close>

text \<open>\<open>xs[:n]\<close> for an integer \<open>n\<close>: a negative \<open>n\<close> counts from the end.\<close>

definition py_take :: "int \<Rightarrow> 'a list \<Rightarrow> 'a list" where
  "py_take n xs = (if 0 \<le> n then take (nat n) xs else take (length xs - nat (- n)) xs)"

text \<open>\<open>xs[-n:]\<close> for a natural \<open>n\<close>; \<open>xs[-0:]\<close> is the whole list.\<close>

definition py_last_n :: "nat \<Rightarrow> 'a list \<Rightarrow> 'a list" where
  "py_last_n n xs = (if n = 0 then xs else drop (length xs - n) xs)"

text \<open>\<open>d.get(k, default)\<close>, \<open>d[k] = v\<close> and \<open>d[k] += v\<close> on a dictionary in
  insertion order: an existing key keeps its place, a new key goes last.\<close>

definition dict_get :: "('k \<times> 'v) list \<Rightarrow> 'k \<Rightarrow> 'v \<Rightarrow> 'v" where
  "dict_get d k dflt = (case map_of d k of Some v \<Rightarrow> v | None \<Rightarrow> dflt)"

fun dict_set :: "('k \<times> 'v) list \<Rightarrow> 'k \<Rightarrow> 'v \<Rightarrow> ('k \<times> 'v) list" where
  "dict_set [] k v = [(k, v)]"
| "dict_set (p # ps) k v = (if fst p = k then (k, v) # ps else p # dict_set ps k v)"

definition dict_add :: "(int \<times> real) list \<Rightarrow> int \<Rightarrow> real \<Rightarrow> (int \<times> real) list" where
  "dict_add d k v = dict_set d k (dict_get d k 0 + v)"

text \<open>\<open>sorted(d.items(), key=lambda x: x[1], reverse=True)\<close>: Python's sort is stable,
  also with \<open>reverse=True\<close>, so equal values keep the dictionary's order.\<close>

definition sorted_by_value_desc :: "('k \<times> 'v::{linorder,uminus}) list \<Rightarrow> ('k \<times> 'v) list" where
  "sorted_by_value_desc items = sort_key (\<lambda>x. - snd x) items"

text \<open>\<open>max(d, key=d.get)\<close> and \<open>np.argmax\<close>: the first key with the largest value.  The
  source calls them on tables over a whole pool, never on an empty one.\<close>

fun max_item :: "('k \<times> real) \<Rightarrow> ('k \<times> real) list \<Rightarrow> ('k \<times> real)" where
  "max_item best [] = best"
| "max_item best (x # xs) = max_item (if snd best < snd x then x else best) xs"

definition max_key :: "(int \<times> real) list \<Rightarrow> int" where
  "max_key d = (case d of [] \<Rightarrow> 0 | x # xs \<Rightarrow> fst (max_item x xs))"

text \<open>\<open>np.mean\<close>; of an empty array numpy answers nan with a warning (here 0).\<close>

definition mean :: "real list \<Rightarrow> real" where
  "mean xs = (if xs = [] then 0 else sum_list xs / real (length xs))"

text \<open>\<open>np.std\<close>: the population standard deviation.\<close>

definition std :: "real list \<Rightarrow> real" where
  "std xs = sqrt (mean (map (\<lambda>x. (x - mean xs)\<^sup>2) xs))"

definition median :: "real list \<Rightarrow> real" where
  "median xs =
     (let s = sort xs; n = length s
      in if n = 0 then 0
         else if odd n then s ! (n div 2)
         else (s ! (n div 2 - 1) + s ! (n div 2)) / 2)"

text \<open>\<open>np.percentile(a, q)\<close> with the default linear interpolation, on a non-empty array.\<close>

definition percentile :: "real list \<Rightarrow> real \<Rightarrow> real" where
  "percentile xs q =
     (let s = sort xs;
          pos = q / 100 * real (length xs - 1);
          lo = nat \<lfloor>pos\<rfloor>;
          hi = min (lo + 1) (length xs - 1)
      in s ! lo + (pos - real lo) * (s ! hi - s ! lo))"

text \<open>\<open>round(x, k)\<close>: to \<open>k\<close> decimals, halves to the even neighbour.\<close>

definition round_half_even :: "real \<Rightarrow> int" where
  "round_half_even y =
     (let f = \<lfloor>y\<rfloor>; d = y - of_int f
      in if d < 1 / 2 then f else if 1 / 2 < d then f + 1 else if even f then f else f + 1)"

definition py_round :: "real \<Rightarrow> nat \<Rightarrow> real" where
  "py_round x k = of_int (round_half_even (x * 10 ^ k)) / 10 ^ k"

section \<open>utils.py\<close>

definition get_red :: "draw \<Rightarrow> int list" where
  "get_red d =
     (case key_red_balls d of Some v \<Rightarrow> v
      | None \<Rightarrow> (case key_redBalls d of Some v \<Rightarrow> v | None \<Rightarrow> []))"

definition get_blue :: "draw \<Rightarrow> int option" where
  "get_blue d = (case key_blue_ball d of Some v \<Rightarrow> Some v | None \<Rightarrow> key_blueBall d)"

definition extract_red_balls :: "draw list \<Rightarrow> int list list" where
  "extract_red_balls historical_data =
     filter (\<lambda>red. red \<noteq> [] \<and> length red = 6) (map get_red historical_data)"

definition extract_blue_balls :: "draw list \<Rightarrow> int list" where
  "extract_blue_balls historical_data =
     concat (map (\<lambda>d. case get_blue d of
                         None \<Rightarrow> []
                       | Some b \<Rightarrow> if b \<noteq> 0 \<and> 1 \<le> b \<and> b \<le> 16 then [b] else [])
                 historical_data)"

definition calculate_frequency :: "int list \<Rightarrow> int \<Rightarrow> (int \<times> int) list" where
  "calculate_frequency numbers range_max =
     map (\<lambda>num. (num, int (count_list numbers num))) [1..range_max]"

definition calculate_frequency_confidence :: "int list \<Rightarrow> (int \<times> int) list \<Rightarrow> real" where
  "calculate_frequency_confidence selected_numbers frequency_dict =
     (let total_occurrences = sum_list (map snd frequency_dict)
      in if total_occurrences = 0 then 50
         else
           (let selected_occurrences =
                  sum_list (map (\<lambda>num. dict_get frequency_dict num 0) selected_numbers);
                concentration = real_of_int selected_occurrences / real_of_int total_occurrences * 100;
                confidence = 50 + concentration * (25 / 100)
            in min confidence 75))"

definition calculate_hot_cold_numbers ::
  "(int \<times> int) list \<Rightarrow> int list \<times> int list \<times> int list" where
  "calculate_hot_cold_numbers frequency_dict =
     (if frequency_dict = [] then ([], [], [1..33])
      else
        (let frequencies = map (\<lambda>p. real_of_int (snd p)) frequency_dict;
             hot_cutoff = percentile frequencies 70;
             cold_cutoff = percentile frequencies 30;
             hot = map fst (filter (\<lambda>p. hot_cutoff \<le> real_of_int (snd p)) frequency_dict);
             cold = map fst (filter (\<lambda>p. \<not> hot_cutoff \<le> real_of_int (snd p)
                                          \<and> real_of_int (snd p) \<le> cold_cutoff) frequency_dict);
             neutral = map fst (filter (\<lambda>p. \<not> hot_cutoff \<le> real_of_int (snd p)
                                          \<and> \<not> real_of_int (snd p) \<le> cold_cutoff) frequency_dict)
         in (hot, cold, neutral)))"

definition moving_average :: "real list \<Rightarrow> nat \<Rightarrow> real list" where
  "moving_average data window =
     (if length data < window then data
      else map (\<lambda>i. if i + 1 < window then mean (take (i + 1) data)
                     else mean (take window (drop (i + 1 - window) data)))
               [0..<length data])"

section \<open>The predictors\<close>

text \<open>
  The class hierarchy under \<open>LotteryPredictor\<close> is a closed set of variants.  The only
  instance state besides the constants set by the constructors is the ensemble's
  \<open>weights\<close> dictionary.
\<close>

datatype predictor =
    FrequencyPredictor
  | TrendPredictor
  | RandomForestPredictor
  | LSTMPredictor
  | EnsemblePredictor "(string \<times> real) list"

fun name :: "predictor \<Rightarrow> string" where
  "name FrequencyPredictor = ''frequency''"
| "name TrendPredictor = ''trend''"
| "name RandomForestPredictor = ''random_forest''"
| "name LSTMPredictor = ''lstm''"
| "name (EnsemblePredictor w) = ''ensemble''"

fun max_confidence :: "predictor \<Rightarrow> real" where
  "max_confidence FrequencyPredictor = 75"
| "max_confidence TrendPredictor = 70"
| "max_confidence RandomForestPredictor = 72"
| "max_confidence LSTMPredictor = 68"
| "max_confidence (EnsemblePredictor w) = 80"

fun weights :: "predictor \<Rightarrow> (string \<times> real) list" where
  "weights (EnsemblePredictor w) = w"
| "weights _ = []"

definition lookback :: nat where "lookback = 5"

definition sequence_length :: nat where "sequence_length = 10"

definition recent_window :: nat where "recent_window = 60"

section \<open>ensemble.py: weights\<close>

definition default_weights :: "(string \<times> real) list" where
  "default_weights =
     [(''frequency'', 20 / 100), (''trend'', 25 / 100),
      (''random_forest'', 30 / 100), (''lstm'', 25 / 100)]"

text \<open>\<open>sum(d.values()) or 1.0\<close>: a zero total is replaced by 1.\<close>

definition total_or_one :: "(string \<times> real) list \<Rightarrow> real" where
  "total_or_one d = (let total = sum_list (map snd d) in if total = 0 then 1 else total)"

text \<open>\<open>EnsemblePredictor.__init__\<close>: an absent or empty mapping is falsy, so the defaults
  are taken.\<close>

definition EnsemblePredictor_init :: "(string \<times> real) list option \<Rightarrow> predictor" where
  "EnsemblePredictor_init weights_arg =
     (let w = (case weights_arg of None \<Rightarrow> default_weights
               | Some d \<Rightarrow> if d = [] then default_weights else d);
          total_weight = total_or_one w
      in EnsemblePredictor (map (\<lambda>(k, v). (k, v / total_weight)) w))"

fun update_weights :: "predictor \<Rightarrow> (string \<times> real) list \<Rightarrow> predictor" where
  "update_weights (EnsemblePredictor w) performance_metrics =
     (if performance_metrics = [] then EnsemblePredictor w
      else
        (let total = total_or_one performance_metrics
         in EnsemblePredictor (map (\<lambda>(name, score). (name, score / total)) performance_metrics)))"
| "update_weights p performance_metrics = p"

section \<open>ensemble.py: score tables\<close>

definition normalize_scores :: "(int \<times> real) list \<Rightarrow> (int \<times> real) list" where
  "normalize_scores values =
     (if values = [] then []
      else
        (let numeric_values = map snd values;
             max_value = Max (set numeric_values);
             min_value = Min (set numeric_values)
         in if max_value = min_value
            then map (\<lambda>(key, value). (key, 1 / real (length values))) values
            else map (\<lambda>(key, value). (key, (value - min_value) / (max_value - min_value)))
                     values))"

text \<open>\<open>{num: 0.0 for num in range(1, range_max + 1)}\<close>, and a table of counts read as
  floats (\<open>float(value)\<close>).\<close>

definition zero_table :: "int \<Rightarrow> (int \<times> real) list" where
  "zero_table range_max = map (\<lambda>num. (num, 0)) [1..range_max]"

definition real_table :: "(int \<times> int) list \<Rightarrow> (int \<times> real) list" where
  "real_table d = map (\<lambda>(k, v). (k, real_of_int v)) d"

text \<open>The values a draw contributes to the gap scan: its red numbers, or its blue number
  when that is truthy.\<close>

definition draw_values :: "bool \<Rightarrow> draw \<Rightarrow> int list" where
  "draw_values is_red d =
     (if is_red then get_red d
      else (case get_blue d of None \<Rightarrow> [] | Some b \<Rightarrow> if b \<noteq> 0 then [b] else []))"

text \<open>The scan of \<open>_current_gap_scores\<close>: \<open>record_gap\<close> is the body of the inner loop
  over a draw's values, \<open>gap_scan\<close> the loop over \<open>enumerate(historical_data)\<close>.\<close>

definition record_gap :: "int \<Rightarrow> int \<Rightarrow> int \<Rightarrow> int \<Rightarrow> (int \<times> int) list \<Rightarrow> (int \<times> int) list" where
  "record_gap range_max default_gap idx number gap_map =
     (if 1 \<le> number \<and> number \<le> range_max \<and> dict_get gap_map number default_gap = default_gap
      then dict_set gap_map number idx else gap_map)"

fun gap_scan ::
  "int \<Rightarrow> int \<Rightarrow> bool \<Rightarrow> int \<Rightarrow> draw list \<Rightarrow> (int \<times> int) list \<Rightarrow> (int \<times> int) list" where
  "gap_scan range_max default_gap is_red idx [] gap_map = gap_map"
| "gap_scan range_max default_gap is_red idx (d # ds) gap_map =
     gap_scan range_max default_gap is_red (idx + 1) ds
       (fold (record_gap range_max default_gap idx) (draw_values is_red d) gap_map)"

definition current_gap_scores :: "draw list \<Rightarrow> int \<Rightarrow> bool \<Rightarrow> (int \<times> real) list" where
  "current_gap_scores historical_data range_max is_red =
     (if historical_data = [] then zero_table range_max
      else
        (let default_gap = int (length historical_data);
             gap_map0 = map (\<lambda>num. (num, default_gap)) [1..range_max];
             gap_map = gap_scan range_max default_gap is_red 0 historical_data gap_map0
         in map (\<lambda>(num, gap). (num, if default_gap \<noteq> 0
                                       then real_of_int gap / real_of_int default_gap else 0))
                gap_map))"

text \<open>The index of the first draw of a list that holds the number; the length of the
  list when no draw does.\<close>

definition first_index :: "bool \<Rightarrow> int \<Rightarrow> draw list \<Rightarrow> nat" where
  "first_index is_red num ds = length (takeWhile (\<lambda>d. num \<notin> set (draw_values is_red d)) ds)"

text \<open>The overdue gap score as the specification words it: the index of the number's
  first occurrence when the history is scanned oldest to newest (the supplied list is
  newest first, so the scan runs over the reversed list), divided by the history length;
  a number never seen scores the maximum.\<close>

definition spec_overdue_gap_score :: "draw list \<Rightarrow> bool \<Rightarrow> int \<Rightarrow> real" where
  "spec_overdue_gap_score historical_data is_red num =
     real (first_index is_red num (rev historical_data)) / real (length historical_data)"

definition combine_scores ::
  "(int \<times> real) list \<Rightarrow> (int \<times> real) list \<Rightarrow> real \<Rightarrow> (int \<times> real) list" where
  "combine_scores base_scores vote_scores base_weight =
     normalize_scores
       (map (\<lambda>(num, b). (num, base_weight * dict_get base_scores num 0
                               + (1 - base_weight) * dict_get vote_scores num 0))
            base_scores)"

section \<open>ensemble.py: distribution-balanced selection\<close>

datatype group = low | mid | high

definition group_for_number :: "int \<Rightarrow> group" where
  "group_for_number number =
     (if number \<le> 11 then low else if number \<le> 22 then mid else high)"

definition targets :: "group \<Rightarrow> nat" where
  "targets grp = 2"

fun select_by_group :: "(int \<times> real) list \<Rightarrow> int list \<Rightarrow> (group \<Rightarrow> nat) \<Rightarrow> int list" where
  "select_by_group [] selected counts = selected"
| "select_by_group (candidate # rest) selected counts =
     (let number = fst candidate;
          grp = group_for_number number;
          take_it = counts grp < targets grp;
          selected' = (if take_it then selected @ [number] else selected);
          counts' = (if take_it then counts(grp := counts grp + 1) else counts)
      in if length selected' = 6 then selected'
         else select_by_group rest selected' counts')"

fun fill_remaining :: "(int \<times> real) list \<Rightarrow> int list \<Rightarrow> int list" where
  "fill_remaining [] selected = selected"
| "fill_remaining (candidate # rest) selected =
     (let number = fst candidate;
          selected' = (if number \<notin> set selected then selected @ [number] else selected)
      in if length selected' = 6 then selected'
         else fill_remaining rest selected')"

definition select_numbers_with_distribution :: "(int \<times> real) list \<Rightarrow> int list" where
  "select_numbers_with_distribution scores =
     (let sorted_candidates = sorted_by_value_desc scores;
          selected = select_by_group sorted_candidates [] (\<lambda>grp. 0);
          selected' = (if length selected < 6 then fill_remaining sorted_candidates selected
                       else selected)
      in sort (take 6 selected'))"

text \<open>How many of the selected numbers, and how many of a table's candidates, fall
  in a band.\<close>

definition band_count :: "group \<Rightarrow> int list \<Rightarrow> nat" where
  "band_count g xs = length (filter (\<lambda>n. group_for_number n = g) xs)"

definition cand_count :: "group \<Rightarrow> (int \<times> real) list \<Rightarrow> nat" where
  "cand_count g cands = length (filter (\<lambda>p. group_for_number (fst p) = g) cands)"

section \<open>The environment\<close>

text \<open>
  Two module flags say whether the optional libraries were importable.  The bagged-tree
  classifier is a library outside the repository; it enters as a function from the
  training set and the latest feature vector to the outcome of the pipeline: \<open>fit\<close>
  raised, or, for every target slot, the predicted value with the slot estimator's map
  from class to probability (\<open>classes_\<close> are distinct).  The classifier is seeded with a
  fixed \<open>random_state\<close>, so it consumes nothing of the \<open>random\<close> module.
\<close>

datatype fit_result =
    FitFailed
  | Fitted "(int \<times> (int \<times> real) list) list"

record environment =
  HAS_SKLEARN :: bool
  HAS_STATSMODELS :: bool
  fit_forest :: "real list list \<Rightarrow> int list list \<Rightarrow> real list \<Rightarrow> fit_result"

text \<open>The contract of the classifier library that the confidence bound relies on:
  the class probabilities it reports are not negative.\<close>

definition nonneg_probabilities :: "environment \<Rightarrow> bool" where
  "nonneg_probabilities env \<longleftrightarrow>
     (\<forall>X y f slots. fit_forest env X y f = Fitted slots \<longrightarrow>
        (\<forall>slot\<in>set slots. \<forall>cp\<in>set (snd slot). 0 \<le> snd cp))"

section \<open>frequency.py\<close>

definition frequency_predict :: "draw list \<Rightarrow> int \<Rightarrow> rng \<Rightarrow> PredictionResult \<times> rng" where
  "frequency_predict historical_data dataset_size g =
     (if historical_data = [] then generate_random_fallback g
      else
        (let data_to_analyze = py_take dataset_size historical_data;
             red_balls_list = extract_red_balls data_to_analyze;
             blue_balls_list = extract_blue_balls data_to_analyze
         in if red_balls_list = [] then generate_random_fallback g
            else
              (let all_red_balls = concat red_balls_list;
                   red_freq = calculate_frequency all_red_balls 33;
                   blue_freq = calculate_frequency blue_balls_list 16;
                   sorted_red = sorted_by_value_desc red_freq;
                   predicted_red = sort (map fst (take 6 sorted_red));
                   sorted_blue = sorted_by_value_desc blue_freq;
                   (predicted_blue, g1) =
                     (case sorted_blue of [] \<Rightarrow> randint 1 16 g | b # bs \<Rightarrow> (fst b, g));
                   confidence = calculate_frequency_confidence predicted_red red_freq;
                   (hot, cold, neutral) = calculate_hot_cold_numbers red_freq;
                   result =
                     \<lparr>red_balls = predicted_red, blue_ball = predicted_blue,
                      confidence = confidence,
                      metadata = Some
                        [(''hot_numbers'', MInts hot),
                         (''cold_numbers'', MInts cold),
                         (''neutral_numbers'', MInts neutral),
                         (''top_red_frequency'',
                            MInt (case sorted_red of [] \<Rightarrow> 0 | p # ps \<Rightarrow> snd p)),
                         (''top_blue_frequency'',
                            MInt (case sorted_blue of [] \<Rightarrow> 0 | p # ps \<Rightarrow> snd p))]\<rparr>
               in validate_prediction (max_confidence FrequencyPredictor) result g1)))"

section \<open>trend.py\<close>

definition calculate_slope :: "real list \<Rightarrow> real" where
  "calculate_slope values =
     (if length values < 2 then 0
      else
        (let n = length values;
             x = map real [0..<n];
             y = values;
             x_mean = mean x;
             y_mean = mean y;
             numerator = sum_list (map (\<lambda>(xi, yi). (xi - x_mean) * (yi - y_mean)) (zip x y));
             denominator = sum_list (map (\<lambda>xi. (xi - x_mean)\<^sup>2) x)
         in if denominator = 0 then 0 else numerator / denominator))"

text \<open>The body of the per-number loop, which \<open>_calculate_trend_scores\<close> and
  \<open>_calculate_blue_trend\<close> share up to three constants: the least number of appearances
  (3, 2), the largest moving-average window (10, 8) and the number of recent points the
  slope is taken over (5, 3).\<close>

definition trend_score :: "real list \<Rightarrow> nat \<Rightarrow> nat \<Rightarrow> nat \<Rightarrow> real" where
  "trend_score appearances min_count max_window recent =
     (if sum_list appearances < real min_count then 0
      else
        (let window_size = min max_window (length appearances div 3);
             ma = moving_average appearances window_size
         in if recent \<le> length ma then calculate_slope (py_last_n recent ma) else 0))"

definition calculate_trend_scores :: "int list list \<Rightarrow> int \<Rightarrow> (int \<times> real) list" where
  "calculate_trend_scores red_balls_history range_max =
     map (\<lambda>num.
            (let appearances = map (\<lambda>draw. if num \<in> set draw then 1 else 0) red_balls_history
             in (num, trend_score appearances 3 10 5)))
         [1..range_max]"

definition calculate_blue_trend :: "int list \<Rightarrow> (int \<times> real) list" where
  "calculate_blue_trend blue_balls_history =
     map (\<lambda>num.
            (let appearances = map (\<lambda>ball. if ball = num then 1 else 0) blue_balls_history
             in (num, trend_score appearances 2 8 3)))
         [1..16]"

definition trend_predict ::
  "environment \<Rightarrow> draw list \<Rightarrow> int \<Rightarrow> rng \<Rightarrow> PredictionResult \<times> rng" where
  "trend_predict env historical_data dataset_size g =
     (if historical_data = [] \<or> length historical_data < 30 then generate_random_fallback g
      else
        (let data_to_analyze = py_take dataset_size historical_data;
             red_balls_list = extract_red_balls data_to_analyze;
             blue_balls_list = extract_blue_balls data_to_analyze
         in if red_balls_list = [] \<or> length red_balls_list < 30 then generate_random_fallback g
            else
              (let red_trend_scores = calculate_trend_scores red_balls_list 33;
                   sorted_red = sorted_by_value_desc red_trend_scores;
                   predicted_red = sort (map fst (take 6 sorted_red));
                   blue_trend_scores = calculate_blue_trend blue_balls_list;
                   predicted_blue = max_key blue_trend_scores;
                   top_6_scores = map snd (take 6 sorted_red);
                   avg_trend_strength = (if top_6_scores \<noteq> [] then mean top_6_scores else 0);
                   confidence = 50 + avg_trend_strength * 20;
                   result =
                     \<lparr>red_balls = predicted_red, blue_ball = predicted_blue,
                      confidence = confidence,
                      metadata = Some
                        [(''trend_method'',
                            MStr (if HAS_STATSMODELS env then ''arima'' else ''moving_average'')),
                         (''avg_trend_strength'', MReal (py_round avg_trend_strength 3)),
                         (''data_points'', MInt (int (length red_balls_list)))]\<rparr>
               in validate_prediction (max_confidence TrendPredictor) result g)))"

section \<open>lstm.py\<close>

text \<open>
  A numpy matrix is its number of columns with the list of its rows, a vector a list of
  reals.  \<open>np.max\<close> is \<open>Max\<close> of the entries; the source takes it of vectors over a
  whole pool only.
\<close>

type_synonym matrix = "nat \<times> real list list"

definition zeros :: "nat \<Rightarrow> real list" where
  "zeros n = replicate n 0"

definition linspace :: "real \<Rightarrow> real \<Rightarrow> nat \<Rightarrow> real list" where
  "linspace a b num =
     (if num = 0 then []
      else if num = 1 then [a]
      else map (\<lambda>i. a + real i * ((b - a) / real (num - 1))) [0..<num])"

definition build_sequence_matrix :: "int list list \<Rightarrow> nat \<Rightarrow> matrix" where
  "build_sequence_matrix history sz =
     (if history = [] then (sz, [])
      else (sz, map (\<lambda>draw. map (\<lambda>number. if number \<in> set draw then 1 else 0)
                                   [1..int sz])
                      history))"

definition recent_weighted_profile :: "matrix \<Rightarrow> real list" where
  "recent_weighted_profile m =
     (let window = py_last_n (min sequence_length (length (snd m))) (snd m)
      in if window = [] \<or> fst m = 0 then zeros (fst m)
         else
           (let weights = linspace 0 (pi / 2) (length window);
                weight_vector = map sin weights;
                weighted = map (\<lambda>j. sum_list (map (\<lambda>(row, w). row ! j * w)
                                                     (zip window weight_vector)))
                               [0..<fst m]
            in map (\<lambda>v. v / sum_list weight_vector) weighted))"

definition exponential_memory :: "matrix \<Rightarrow> real \<Rightarrow> real list" where
  "exponential_memory m alpha =
     (let ema = fold (\<lambda>row ema. map (\<lambda>(e, r). (1 - alpha) * e + alpha * r) (zip ema row))
                     (snd m) (zeros (fst m))
      in if 0 < Max (set ema) then map (\<lambda>e. e / Max (set ema)) ema else ema)"

fun combinations2 :: "'a list \<Rightarrow> ('a \<times> 'a) list" where
  "combinations2 [] = []"
| "combinations2 (x # xs) = map (Pair x) xs @ combinations2 xs"

definition mat_add :: "real list list \<Rightarrow> nat \<Rightarrow> nat \<Rightarrow> real \<Rightarrow> real list list" where
  "mat_add m i j v = m[i := (m ! i)[j := m ! i ! j + v]]"

definition count_pair :: "int \<times> int \<Rightarrow> real list list \<Rightarrow> real list list" where
  "count_pair ab co_matrix =
     (let a = fst ab; b = snd ab
      in if 1 \<le> a \<and> a \<le> 33 \<and> 1 \<le> b \<and> b \<le> 33
         then mat_add (mat_add co_matrix (nat (a - 1)) (nat (b - 1)) 1)
                      (nat (b - 1)) (nat (a - 1)) 1
         else co_matrix)"

definition co_occurrence_scores :: "int list list \<Rightarrow> real list" where
  "co_occurrence_scores history =
     (let window = py_last_n (max (sequence_length * 3) 30) history
      in if window = [] then zeros 33
         else
           (let co_matrix =
                  fold (\<lambda>draw co. fold count_pair (combinations2 (sort (remdups draw))) co)
                       window (replicate 33 (zeros 33));
                scores = map sum_list co_matrix;
                max_score = Max (set scores)
            in if 0 < max_score then map (\<lambda>s. s / max_score) scores else scores))"

text \<open>\<open>np.argsort(-scores)\<close>: the indices by descending score.  The model sorts stably;
  numpy's default sort may order equal scores otherwise.\<close>

definition argsort_desc :: "real list \<Rightarrow> nat list" where
  "argsort_desc scores = sort_key (\<lambda>i. - scores ! i) [0..<length scores]"

definition argmax :: "real list \<Rightarrow> nat" where
  "argmax xs =
     (case xs of [] \<Rightarrow> 0
      | x # xs' \<Rightarrow> fst (max_item (0, x) (zip [1..<length xs] xs')))"

definition predict_red_sequence :: "int list list \<Rightarrow> rng \<Rightarrow> (int list \<times> real list) \<times> rng" where
  "predict_red_sequence red_balls_history g =
     (let sequence_matrix = build_sequence_matrix red_balls_history 33
      in if snd sequence_matrix = []
         then (let (picked, g') = random_sample [1..33] 6 g in ((sort picked, zeros 33), g'))
         else
           (let recent_profile = recent_weighted_profile sequence_matrix;
                ema_profile = exponential_memory sequence_matrix (18 / 100);
                co_occurrence = co_occurrence_scores red_balls_history;
                combined_scores =
                  map (\<lambda>j. 4 / 10 * recent_profile ! j + 3 / 10 * ema_profile ! j
                             + 3 / 10 * co_occurrence ! j) [0..<33];
                max_score = Max (set combined_scores);
                normalized_scores =
                  (if 0 < max_score then map (\<lambda>s. s / max_score) combined_scores
                   else combined_scores);
                ranking = map (\<lambda>i. int i + 1) (take 6 (argsort_desc normalized_scores))
            in ((sort ranking, normalized_scores), g)))"

definition predict_blue_sequence :: "int list \<Rightarrow> rng \<Rightarrow> int \<times> rng" where
  "predict_blue_sequence blue_balls_history g =
     (if length blue_balls_history < 10 then randint 1 16 g
      else
        (let m = build_sequence_matrix (map (\<lambda>num. [num]) blue_balls_history) 16;
             recent_profile = recent_weighted_profile m;
             ema_profile = exponential_memory m (25 / 100);
             combined_scores =
               map (\<lambda>j. 6 / 10 * recent_profile ! j + 4 / 10 * ema_profile ! j) [0..<16]
         in (int (argmax combined_scores) + 1, g)))"

definition lstm_calculate_confidence :: "real list \<Rightarrow> int list \<Rightarrow> real" where
  "lstm_calculate_confidence score_profile predicted =
     (if score_profile = [] \<or> predicted = [] then 50
      else
        (let selected_scores =
               map (\<lambda>num. score_profile ! nat (num - 1))
                   (filter (\<lambda>num. 1 \<le> num \<and> num \<le> int (length score_profile)) predicted)
         in if selected_scores = [] then 50
            else
              (let avg_score = mean selected_scores;
                   spread = std score_profile;
                   stability = max 0 (1 - spread);
                   confidence = 52 + avg_score * 25 + stability * 8
               in min confidence (max_confidence LSTMPredictor))))"

definition lstm_predict :: "draw list \<Rightarrow> int \<Rightarrow> rng \<Rightarrow> PredictionResult \<times> rng" where
  "lstm_predict historical_data dataset_size g =
     (if historical_data = [] \<or> length historical_data < 30 then generate_random_fallback g
      else
        (let data_to_analyze = py_take dataset_size historical_data;
             red_balls_list = extract_red_balls data_to_analyze;
             blue_balls_list = extract_blue_balls data_to_analyze
         in if length red_balls_list < 30 then generate_random_fallback g
            else
              (let ((predicted_red, red_score_profile), g1) = predict_red_sequence red_balls_list g;
                   (predicted_blue, g2) = predict_blue_sequence blue_balls_list g1;
                   confidence = lstm_calculate_confidence red_score_profile predicted_red;
                   idxs = map (\<lambda>num. nat (num - 1))
                            (filter (\<lambda>num. 1 \<le> num \<and> num \<le> int (length red_score_profile))
                                    predicted_red);
                   selected_strength =
                     (if predicted_red \<noteq> [] \<and> idxs \<noteq> []
                      then mean (map (\<lambda>i. red_score_profile ! i) idxs) else 0);
                   result =
                     \<lparr>red_balls = predicted_red, blue_ball = predicted_blue,
                      confidence = confidence,
                      metadata = Some
                        [(''model'', MStr ''lstm_inspired''),
                         (''sequence_length'', MInt (int sequence_length)),
                         (''training_samples'', MInt (int (length red_balls_list))),
                         (''signal_strength'', MReal (py_round selected_strength 4))]\<rparr>
               in validate_prediction (max_confidence LSTMPredictor) result g2)))"

text \<open>A vector of a given length without negative entries.\<close>

definition nonneg_vec :: "nat \<Rightarrow> real list \<Rightarrow> bool" where
  "nonneg_vec n v \<longleftrightarrow> length v = n \<and> (\<forall>x\<in>set v. 0 \<le> x)"

text \<open>A 33 by 33 co-occurrence matrix without negative entries.\<close>

definition nonneg_mat :: "real list list \<Rightarrow> bool" where
  "nonneg_mat m \<longleftrightarrow> length m = 33 \<and> (\<forall>row\<in>set m. \<forall>x\<in>set row. 0 \<le> x)"

section \<open>random_forest.py\<close>

definition frequency_based_selection :: "int list list \<Rightarrow> int list" where
  "frequency_based_selection red_balls_history =
     (let all_numbers = concat red_balls_history;
          freq = calculate_frequency all_numbers 33;
          sorted_numbers = sorted_by_value_desc freq
      in sort (map fst (take 6 sorted_numbers)))"

definition encode_window_features :: "int list list \<Rightarrow> real list" where
  "encode_window_features window =
     (let per_draw =
            concat (map (\<lambda>draw.
              (let one_hot = map (\<lambda>ball. if ball \<in> set draw then 1 else 0) [1..33];
                   draw_array = map real_of_int draw
               in one_hot @
                  [sum_list draw_array,
                   mean draw_array,
                   (if 1 < length draw_array then std draw_array else 0),
                   median draw_array,
                   (if 0 < length draw_array
                    then Max (set draw_array) - Min (set draw_array) else 0),
                   real (length (filter (\<lambda>b. b mod 2 = 1) draw)),
                   real (length (filter (\<lambda>b. 16 < b) draw))])) window);
          flattened = map real_of_int (concat window)
      in per_draw @
         (if flattened \<noteq> []
          then [mean flattened, std flattened, Max (set flattened), Min (set flattened)]
          else [0, 0, 0, 0]))"

definition prepare_training_data :: "int list list \<Rightarrow> real list list \<times> int list list" where
  "prepare_training_data red_balls_history =
     (let examples =
            concat (map (\<lambda>idx.
              (let window = take lookback (drop (idx - lookback) red_balls_history);
                   target_draw = red_balls_history ! idx
               in if length target_draw < 6 then []
                  else [(encode_window_features window, take 6 target_draw)]))
              [lookback..<length red_balls_history])
      in (map fst examples, map snd examples))"

definition aggregate_probabilities :: "(int \<times> real) list list \<Rightarrow> (int \<times> real) list" where
  "aggregate_probabilities probability_maps =
     fold (\<lambda>slot_map combined.
             fold (\<lambda>(num, prob) c. if 1 \<le> num \<and> num \<le> 33 then dict_add c num prob else c)
                  slot_map combined)
          probability_maps (zero_table 33)"

definition select_high_probability_number ::
  "(int \<times> real) list \<Rightarrow> int list \<Rightarrow> rng \<Rightarrow> int \<times> rng" where
  "select_high_probability_number combined_scores used_numbers g =
     (let candidates = sorted_by_value_desc combined_scores
      in case find (\<lambda>p. fst p \<notin> set used_numbers) candidates of
           Some p \<Rightarrow> (fst p, g)
         | None \<Rightarrow>
             (let remaining = filter (\<lambda>num. num \<notin> set used_numbers) [1..33]
              in if remaining \<noteq> [] then random_choice remaining g else randint 1 33 g))"

fun pick_slot_numbers ::
  "(int \<times> real) list \<Rightarrow> int list \<Rightarrow> int list \<Rightarrow> rng \<Rightarrow> int list \<times> rng" where
  "pick_slot_numbers combined_scores [] predicted_numbers g = (predicted_numbers, g)"
| "pick_slot_numbers combined_scores (number # rest) predicted_numbers g =
     (if 1 \<le> number \<and> number \<le> 33 \<and> number \<notin> set predicted_numbers
      then pick_slot_numbers combined_scores rest (predicted_numbers @ [number]) g
      else
        (let (fallback_num, g') =
               select_high_probability_number combined_scores predicted_numbers g
         in pick_slot_numbers combined_scores rest (predicted_numbers @ [fallback_num]) g'))"

definition predict_red_balls ::
  "environment \<Rightarrow> int list list \<Rightarrow> rng \<Rightarrow> (int list \<times> real) \<times> rng" where
  "predict_red_balls env red_balls_history g =
     (let (X, y) = prepare_training_data red_balls_history
      in if length X < 25 then ((frequency_based_selection red_balls_history, 45 / 100), g)
         else
           (let latest_window = py_last_n lookback red_balls_history;
                latest_features = encode_window_features latest_window
            in case fit_forest env X y latest_features of
                 FitFailed \<Rightarrow> ((frequency_based_selection red_balls_history, 45 / 100), g)
               | Fitted slots \<Rightarrow>
                   (let raw_prediction = map fst slots;
                        probability_maps = map snd slots;
                        slot_probabilities =
                          map (\<lambda>(value, class_prob_map). dict_get class_prob_map value 0) slots;
                        combined_scores = aggregate_probabilities probability_maps;
                        (predicted_numbers, g') =
                          pick_slot_numbers combined_scores raw_prediction [] g;
                        average_probability =
                          (if slot_probabilities \<noteq> [] then mean slot_probabilities
                           else 45 / 100)
                    in ((sort (take 6 predicted_numbers), average_probability), g'))))"

definition predict_blue_ball :: "int list \<Rightarrow> rng \<Rightarrow> int \<times> rng" where
  "predict_blue_ball blue_balls_history g =
     (if length blue_balls_history < 10 then randint 1 16 g
      else
        (let freq = calculate_frequency blue_balls_history 16;
             recent = take (min 20 (length blue_balls_history)) blue_balls_history;
             recent_freq = calculate_frequency recent 16;
             combined_scores =
               map (\<lambda>num.
                      (let overall_weight =
                             (if blue_balls_history \<noteq> []
                              then real_of_int (dict_get freq num 0)
                                   / real (length blue_balls_history) else 0);
                           recent_weight =
                             (if recent \<noteq> []
                              then real_of_int (dict_get recent_freq num 0) / real (length recent)
                              else 0)
                       in (num, 4 / 10 * overall_weight + 6 / 10 * recent_weight)))
                   [1..16]
         in (max_key combined_scores, g)))"

definition fallback_predict :: "draw list \<Rightarrow> int \<Rightarrow> rng \<Rightarrow> PredictionResult \<times> rng" where
  "fallback_predict historical_data dataset_size g =
     (if historical_data = [] then generate_random_fallback g
      else
        (let data_to_analyze =
               py_take (min dataset_size (int (length historical_data))) historical_data;
             red_balls_list = extract_red_balls data_to_analyze;
             blue_balls_list = extract_blue_balls data_to_analyze
         in if red_balls_list = [] then generate_random_fallback g
            else
              (let predicted_red = frequency_based_selection red_balls_list;
                   (predicted_blue, g1) =
                     (if blue_balls_list \<noteq> [] then predict_blue_ball blue_balls_list g
                      else randint 1 16 g)
               in (\<lparr>red_balls = predicted_red, blue_ball = predicted_blue, confidence = 55,
                     metadata = Some [(''fallback'', MBool True),
                                      (''reason'', MStr ''sklearn_unavailable'')]\<rparr>, g1))))"

definition forest_predict ::
  "environment \<Rightarrow> draw list \<Rightarrow> int \<Rightarrow> rng \<Rightarrow> PredictionResult \<times> rng" where
  "forest_predict env historical_data dataset_size g =
     (if \<not> HAS_SKLEARN env then fallback_predict historical_data dataset_size g
      else if historical_data = [] \<or> length historical_data < lookback + 10
      then generate_random_fallback g
      else
        (let data_to_analyze = py_take dataset_size historical_data;
             red_balls_list = extract_red_balls data_to_analyze;
             blue_balls_list = extract_blue_balls data_to_analyze
         in if length red_balls_list < lookback + 10
            then fallback_predict historical_data dataset_size g
            else
              (let ((predicted_red, avg_slot_probability), g1) =
                     predict_red_balls env red_balls_list g;
                   (predicted_blue, g2) = predict_blue_ball blue_balls_list g1;
                   confidence = 52 + avg_slot_probability * 28
                                + min (real (length red_balls_list) / 400) 1 * 10;
                   result =
                     \<lparr>red_balls = predicted_red, blue_ball = predicted_blue,
                      confidence = confidence,
                      metadata = Some
                        [(''model'', MStr ''random_forest''),
                         (''lookback'', MInt (int lookback)),
                         (''training_samples'', MInt (int (length red_balls_list))),
                         (''has_sklearn'', MBool (HAS_SKLEARN env)),
                         (''slot_probability'', MReal (py_round avg_slot_probability 4))]\<rparr>
               in validate_prediction (max_confidence RandomForestPredictor) result g2)))"

section \<open>ensemble.py: prediction\<close>

text \<open>
  The component predictors run in the order of the \<open>predictors\<close> dictionary, each on the
  generator state its predecessor left.  The \<open>except\<close> branch of the loop is not
  reachable in the model, where no component raises.
\<close>

definition run_component_predictors ::
  "environment \<Rightarrow> draw list \<Rightarrow> int \<Rightarrow> rng \<Rightarrow> (string \<times> PredictionResult) list \<times> rng" where
  "run_component_predictors env historical_data dataset_size g =
     (let (r1, g1) = frequency_predict historical_data dataset_size g;
          (r2, g2) = trend_predict env historical_data dataset_size g1;
          (r3, g3) = forest_predict env historical_data dataset_size g2;
          (r4, g4) = lstm_predict historical_data dataset_size g3
      in ([(''frequency'', r1), (''trend'', r2), (''random_forest'', r3), (''lstm'', r4)], g4))"

definition build_vote_scores ::
  "(string \<times> real) list \<Rightarrow> (string \<times> PredictionResult) list \<Rightarrow> (int \<times> real) list" where
  "build_vote_scores ws predictions =
     (if predictions = [] then zero_table 33
      else
        normalize_scores
          (fold (\<lambda>(nm, result) scores.
                   (let weight = dict_get ws nm 0;
                        confidence_factor = confidence result / 100
                    in fold (\<lambda>ball sc. if 1 \<le> ball \<and> ball \<le> 33
                                         then dict_add sc ball (weight * confidence_factor)
                                         else sc)
                            (red_balls result) scores))
                predictions (zero_table 33)))"

definition build_blue_vote_scores ::
  "(string \<times> real) list \<Rightarrow> (string \<times> PredictionResult) list \<Rightarrow> (int \<times> real) list" where
  "build_blue_vote_scores ws predictions =
     (if predictions = [] then zero_table 16
      else
        normalize_scores
          (fold (\<lambda>(nm, result) scores.
                   (let weight = dict_get ws nm 0;
                        confidence_factor = confidence result / 100;
                        ball = blue_ball result
                    in if 1 \<le> ball \<and> ball \<le> 16
                       then dict_add scores ball (weight * confidence_factor)
                       else scores))
                predictions (zero_table 16)))"

text \<open>\<open>momentum\<close>: the rise of the recent window's normalized frequency over the
  previous window's, floored at 0.\<close>

definition momentum_table ::
  "(int \<times> real) list \<Rightarrow> (int \<times> real) list \<Rightarrow> int \<Rightarrow> (int \<times> real) list" where
  "momentum_table recent_norm previous_norm range_max =
     map (\<lambda>num. (num, max (dict_get recent_norm num 0 - dict_get previous_norm num 0) 0))
         [1..range_max]"

definition build_red_probability :: "int list list \<Rightarrow> draw list \<Rightarrow> (int \<times> real) list" where
  "build_red_probability red_history historical_data =
     (let flattened = concat red_history;
          freq = calculate_frequency flattened 33;
          freq_norm = normalize_scores (real_table freq);
          rw = min recent_window (length red_history);
          recent_flat = concat (take rw red_history);
          recent_norm = normalize_scores (real_table (calculate_frequency recent_flat 33));
          previous_flat = concat (take rw (drop rw red_history));
          previous_norm =
            (if previous_flat \<noteq> []
             then normalize_scores (real_table (calculate_frequency previous_flat 33))
             else zero_table 33);
          momentum = momentum_table recent_norm previous_norm 33;
          gap_scores = current_gap_scores historical_data 33 True;
          combined =
            map (\<lambda>num. (num, 35 / 100 * dict_get freq_norm num 0
                              + 25 / 100 * dict_get recent_norm num 0
                              + 20 / 100 * dict_get gap_scores num 0
                              + 20 / 100 * dict_get momentum num 0))
                [1..33]
      in normalize_scores combined)"

definition build_blue_probability :: "int list \<Rightarrow> draw list \<Rightarrow> (int \<times> real) list" where
  "build_blue_probability blue_history historical_data =
     (let freq = calculate_frequency blue_history 16;
          freq_norm = normalize_scores (real_table freq);
          rw = min 30 (length blue_history);
          recent = take rw blue_history;
          previous = take rw (drop rw blue_history);
          recent_norm = normalize_scores (real_table (calculate_frequency recent 16));
          previous_norm =
            (if previous \<noteq> []
             then normalize_scores (real_table (calculate_frequency previous 16))
             else zero_table 16);
          momentum = momentum_table recent_norm previous_norm 16;
          gap_scores = current_gap_scores historical_data 16 False;
          combined =
            map (\<lambda>num. (num, 4 / 10 * dict_get freq_norm num 0
                              + 3 / 10 * dict_get recent_norm num 0
                              + 2 / 10 * dict_get gap_scores num 0
                              + 1 / 10 * dict_get momentum num 0))
                [1..16]
      in normalize_scores combined)"

definition describe_top_candidates :: "(int \<times> real) list \<Rightarrow> nat \<Rightarrow> meta_value" where
  "describe_top_candidates scores limit =
     MList (map (\<lambda>(num, score). MDict [(''number'', MInt num),
                                         (''score'', MReal (py_round score 4))])
                (take limit (sorted_by_value_desc scores)))"

definition score_blue_candidates ::
  "(string \<times> real) list \<Rightarrow> int list \<Rightarrow> (string \<times> PredictionResult) list \<Rightarrow> draw list \<Rightarrow> rng
   \<Rightarrow> (int \<times> meta_value) \<times> rng" where
  "score_blue_candidates ws blue_history predictions historical_data g =
     (if blue_history = []
      then (let (random_blue, g') = randint 1 16 g
            in ((random_blue, MList [MDict [(''number'', MInt random_blue),
                                            (''score'', MReal (5 / 10))]]), g'))
      else
        (let base_scores = build_blue_probability blue_history historical_data;
             vote_scores = build_blue_vote_scores ws predictions;
             combined = combine_scores base_scores vote_scores (7 / 10);
             best = max_key combined
         in ((best, describe_top_candidates combined 5), g)))"

definition agreement_bonus :: "(string \<times> PredictionResult) list \<Rightarrow> int list \<Rightarrow> real" where
  "agreement_bonus predictions selected_numbers =
     (if predictions = [] \<or> selected_numbers = [] then 0
      else
        (let counted =
               concat (map (\<lambda>(nm, result).
                              filter (\<lambda>ball. ball \<in> set selected_numbers) (red_balls result))
                           predictions);
             duplicates = length (filter (\<lambda>ball. 2 \<le> count_list counted ball) (remdups counted))
         in min (real duplicates * (15 / 10)) 9))"

definition calculate_ensemble_confidence ::
  "(string \<times> real) list \<Rightarrow> (string \<times> PredictionResult) list \<Rightarrow> (int \<times> real) list
   \<Rightarrow> int list \<Rightarrow> nat \<Rightarrow> real" where
  "calculate_ensemble_confidence ws predictions combined_scores selected_numbers sample_size =
     (let weighted_confidence =
            fold (\<lambda>(nm, result) acc. acc + confidence result * dict_get ws nm 0) predictions 0;
          base_avg =
            (if selected_numbers \<noteq> []
             then mean (map (\<lambda>num. dict_get combined_scores num 0) selected_numbers) else 0);
          data_factor = min (real sample_size / 400) 1;
          bonus = agreement_bonus predictions selected_numbers;
          confidence = weighted_confidence + base_avg * 30 + data_factor * 8 + bonus
      in min (max confidence 52) (max_confidence (EnsemblePredictor ws)))"

definition ensemble_predict ::
  "environment \<Rightarrow> (string \<times> real) list \<Rightarrow> draw list \<Rightarrow> int \<Rightarrow> rng \<Rightarrow> PredictionResult \<times> rng" where
  "ensemble_predict env ws historical_data dataset_size g =
     (if historical_data = [] then generate_random_fallback g
      else
        (let data_to_analyze = py_take dataset_size historical_data;
             red_history = extract_red_balls data_to_analyze;
             blue_history = extract_blue_balls data_to_analyze
         in if length red_history < 20 then generate_random_fallback g
            else
              (let base_red_scores = build_red_probability red_history data_to_analyze;
                   (component_predictions, g1) =
                     run_component_predictors env data_to_analyze dataset_size g;
                   vote_scores = build_vote_scores ws component_predictions;
                   combined_red_scores = combine_scores base_red_scores vote_scores (65 / 100);
                   predicted_red = select_numbers_with_distribution combined_red_scores;
                   ((predicted_blue, blue_candidates), g2) =
                     score_blue_candidates ws blue_history component_predictions
                       data_to_analyze g1;
                   conf =
                     calculate_ensemble_confidence ws component_predictions combined_red_scores
                       predicted_red (length red_history);
                   result =
                     \<lparr>red_balls = predicted_red, blue_ball = predicted_blue,
                      confidence = conf,
                      metadata = Some
                        [(''component_predictions'',
                            MDict (map (\<lambda>(nm, r).
                                          (nm, MDict [(''red_balls'', MInts (red_balls r)),
                                                      (''blue_ball'', MInt (blue_ball r)),
                                                      (''confidence'', MReal (confidence r))]))
                                       component_predictions)),
                         (''weights'', MDict (map (\<lambda>(nm, w). (nm, MReal w)) ws)),
                         (''algorithms_used'', MStrs (map fst component_predictions)),
                         (''top_candidates'', describe_top_candidates combined_red_scores 10),
                         (''blue_candidates'', blue_candidates),
                         (''dataset_coverage'', MInt (int (length red_history)))]\<rparr>
               in validate_prediction (max_confidence (EnsemblePredictor ws)) result g2)))"

section \<open>The predict operation of every predictor\<close>

fun predict ::
  "environment \<Rightarrow> predictor \<Rightarrow> draw list \<Rightarrow> int \<Rightarrow> rng \<Rightarrow> PredictionResult \<times> rng" where
  "predict env FrequencyPredictor historical_data dataset_size g =
     frequency_predict historical_data dataset_size g"
| "predict env TrendPredictor historical_data dataset_size g =
     trend_predict env historical_data dataset_size g"
| "predict env RandomForestPredictor historical_data dataset_size g =
     forest_predict env historical_data dataset_size g"
| "predict env LSTMPredictor historical_data dataset_size g =
     lstm_predict historical_data dataset_size g"
| "predict env (EnsemblePredictor ws) historical_data dataset_size g =
     ensemble_predict env ws historical_data dataset_size g"

text \<open>The shape of a prediction, and the shape of the random fallback.\<close>

definition in_pool :: "int list \<Rightarrow> bool" where
  "in_pool xs \<longleftrightarrow> list_all (\<lambda>n. 1 \<le> n \<and> n \<le> 33) xs"

definition valid_shape :: "PredictionResult \<Rightarrow> bool" where
  "valid_shape r \<longleftrightarrow>
     length (red_balls r) = 6 \<and> distinct (red_balls r) \<and> sorted (red_balls r)
     \<and> in_pool (red_balls r)
     \<and> 1 \<le> blue_ball r \<and> blue_ball r \<le> 16"

text \<open>\<open>result.metadata.get(key)\<close>, and the fallback flag.\<close>

definition meta_lookup :: "PredictionResult \<Rightarrow> string \<Rightarrow> meta_value option" where
  "meta_lookup r key = (case metadata r of None \<Rightarrow> None | Some md \<Rightarrow> map_of md key)"

definition has_fallback_flag :: "PredictionResult \<Rightarrow> bool" where
  "has_fallback_flag r \<longleftrightarrow> meta_lookup r ''fallback'' = Some (MBool True)"

definition is_fallback :: "PredictionResult \<Rightarrow> bool" where
  "is_fallback r \<longleftrightarrow> valid_shape r \<and> confidence r = 30 \<and> has_fallback_flag r"

text \<open>A well-formed historical draw: six distinct red numbers in [1,33] and a blue
  number in [1,16].\<close>

definition well_formed_draw :: "draw \<Rightarrow> bool" where
  "well_formed_draw d \<longleftrightarrow>
     length (get_red d) = 6 \<and> distinct (get_red d) \<and> in_pool (get_red d)
     \<and> (case get_blue d of None \<Rightarrow> False | Some b \<Rightarrow> 1 \<le> b \<and> b \<le> 16)"

section \<open>Concrete inputs\<close>

text \<open>The first draw of the fixture in \<open>test_algorithms.py\<close>, and three environments:
  the classifier library present with a classifier whose \<open>fit\<close> raises, the library
  absent, and the library present with a classifier that reports, in each of its six
  slots, the value 3 with class probabilities 1/2 for 3 and 1/2 for 17.\<close>

definition sample_draw :: draw where
  "sample_draw =
     \<lparr>key_red_balls = Some [3, 12, 18, 23, 29, 31], key_redBalls = None,
      key_blue_ball = Some 8, key_blueBall = None\<rparr>"

definition env_sklearn :: environment where
  "env_sklearn =
     \<lparr>HAS_SKLEARN = True, HAS_STATSMODELS = False, fit_forest = (\<lambda>X y f. FitFailed)\<rparr>"

definition env_no_sklearn :: environment where
  "env_no_sklearn =
     \<lparr>HAS_SKLEARN = False, HAS_STATSMODELS = False, fit_forest = (\<lambda>X y f. FitFailed)\<rparr>"

definition env_even_slots :: environment where
  "env_even_slots =
     \<lparr>HAS_SKLEARN = True, HAS_STATSMODELS = False,
      fit_forest = (\<lambda>X y f. Fitted (replicate 6 (3, [(3, 1 / 2), (17, 1 / 2)])))\<rparr>"

section \<open>Facts about the random module\<close>

lemma randint_range:
  "a \<le> b \<Longrightarrow> a \<le> fst (randint a b g) \<and> fst (randint a b g) \<le> b"
proof -
  assume ab: "a \<le> b"
  obtain r g' where ng: "next_rand g = (r, g')" by (cases "next_rand g")
  have pos: "0 < b - a + 1" using ab by simp
  have "0 \<le> int r mod (b - a + 1)" "int r mod (b - a + 1) < b - a + 1"
    using pos_mod_sign[OF pos] pos_mod_bound[OF pos] by blast+
  then show ?thesis using ng by (simp add: randint_def)
qed

lemma random_sample_set: "set (fst (random_sample pop k g)) \<subseteq> set pop"
proof (induction pop k g rule: random_sample.induct)
  case (3 p ps k g)
  obtain r g1 where ng: "next_rand g = (r, g1)" by (cases "next_rand g")
  define i where "i = r mod length (p # ps)"
  define rest where "rest = take i (p # ps) @ drop (Suc i) (p # ps)"
  have i_lt: "i < length (p # ps)" by (simp add: i_def)
  have "set (fst (random_sample rest k g1)) \<subseteq> set rest"
    using "3.IH"[OF refl ng[symmetric] refl] by (simp add: rest_def i_def)
  moreover have "set rest \<subseteq> set (p # ps)"
    unfolding rest_def by (auto dest: in_set_takeD in_set_dropD)
  moreover have "(p # ps) ! i \<in> set (p # ps)" using i_lt nth_mem by blast
  ultimately show ?case
    using ng by (auto simp: i_def rest_def Let_def split: prod.splits)
qed simp_all

lemma random_sample_distinct:
  "distinct pop \<Longrightarrow> distinct (fst (random_sample pop k g))"
proof (induction pop k g rule: random_sample.induct)
  case (3 p ps k g)
  obtain r g1 where ng: "next_rand g = (r, g1)" by (cases "next_rand g")
  define i where "i = r mod length (p # ps)"
  define rest where "rest = take i (p # ps) @ drop (Suc i) (p # ps)"
  have i_lt: "i < length (p # ps)" by (simp add: i_def)
  have id: "p # ps = take i (p # ps) @ (p # ps) ! i # drop (Suc i) (p # ps)"
    using i_lt id_take_nth_drop by blast
  have d: "distinct (take i (p # ps) @ (p # ps) ! i # drop (Suc i) (p # ps))"
    using "3.prems" id by metis
  have drest: "distinct rest" and notin: "(p # ps) ! i \<notin> set rest"
    using d unfolding rest_def by auto
  have "distinct (fst (random_sample rest k g1))"
    using "3.IH"[OF refl ng[symmetric] refl] drest by (simp add: rest_def i_def)
  moreover have "set (fst (random_sample rest k g1)) \<subseteq> set rest"
    by (rule random_sample_set)
  ultimately show ?case
    using ng notin by (auto simp: i_def rest_def Let_def split: prod.splits)
qed simp_all

lemma random_sample_length:
  "length (fst (random_sample pop k g)) = min k (length pop)"
proof (induction pop k g rule: random_sample.induct)
  case (3 p ps k g)
  obtain r g1 where ng: "next_rand g = (r, g1)" by (cases "next_rand g")
  define i where "i = r mod length (p # ps)"
  define rest where "rest = take i (p # ps) @ drop (Suc i) (p # ps)"
  have i_lt: "i < length (p # ps)" by (simp add: i_def)
  have lr: "length rest = length ps" using i_lt unfolding rest_def by auto
  have "length (fst (random_sample rest k g1)) = min k (length rest)"
    using "3.IH"[OF refl ng[symmetric] refl] by (simp add: rest_def i_def)
  then show ?case
    using ng lr by (auto simp: i_def rest_def Let_def split: prod.splits)
qed simp_all

lemma shuffle_props:
  "set (fst (shuffle xs g)) \<subseteq> set xs"
  "distinct xs \<Longrightarrow> distinct (fst (shuffle xs g))"
  "length (fst (shuffle xs g)) = length xs"
  by (simp_all add: shuffle_def random_sample_set random_sample_distinct random_sample_length)

lemma available_length:
  assumes "distinct reds0" "length reds0 < 6"
  shows "6 - length reds0 \<le> length (filter (\<lambda>n. n \<notin> set reds0) [1..33])"
proof -
  have "card (set [1..33::int] - set reds0) \<ge> card (set [1..33::int]) - card (set reds0)"
    using diff_card_le_card_Diff[of "set reds0" "set [1..33::int]"] by simp
  moreover have "card (set [1..33::int]) = 33" by simp
  moreover have "card (set reds0) = length reds0" using assms(1) distinct_card by blast
  moreover have "set (filter (\<lambda>n. n \<notin> set reds0) [1..33]) = set [1..33::int] - set reds0" by auto
  moreover have "distinct (filter (\<lambda>n. n \<notin> set reds0) [1..33::int])" by simp
  ultimately have "length (filter (\<lambda>n. n \<notin> set reds0) [1..33]) \<ge> 33 - length reds0"
    by (metis distinct_card)
  then show ?thesis using assms(2) by linarith
qed

lemma validate_prediction_red:
  "length (red_balls (fst (validate_prediction mc res g))) = 6
   \<and> distinct (red_balls (fst (validate_prediction mc res g)))
   \<and> sorted (red_balls (fst (validate_prediction mc res g)))"
proof -
  define reds0 where "reds0 = sort (remdups (red_balls res))"
  have d0: "distinct reds0" and s0: "sorted reds0" by (simp_all add: reds0_def)
  show ?thesis
  proof (cases "length reds0 < 6")
    case True
    define av where "av = filter (\<lambda>n. n \<notin> set reds0) [1..33]"
    define sh where "sh = fst (shuffle av g)"
    have dav: "distinct av" by (simp add: av_def)
    have lsh: "length sh = length av" and dsh: "distinct sh" and ssh: "set sh \<subseteq> set av"
      using shuffle_props[of av g] dav by (simp_all add: sh_def)
    have ge: "6 - length reds0 \<le> length sh"
      using available_length[OF d0 True] lsh by (simp add: av_def)
    have disj: "set reds0 \<inter> set (take (6 - length reds0) sh) = {}"
      using ssh by (auto simp: av_def dest!: in_set_takeD)
    have r: "red_balls (fst (validate_prediction mc res g)) = sort (reds0 @ take (6 - length reds0) sh)"
      using True by (simp add: validate_prediction_def Let_def reds0_def[symmetric] av_def[symmetric] sh_def split: prod.splits)
    have "length (reds0 @ take (6 - length reds0) sh) = 6" using ge True by simp
    moreover have "distinct (reds0 @ take (6 - length reds0) sh)"
      using d0 dsh disj by simp
    ultimately show ?thesis unfolding r by simp
  next
    case False
    then show ?thesis using d0 s0
      by (auto simp: validate_prediction_def Let_def reds0_def[symmetric] sorted_wrt_take split: prod.splits)
  qed
qed

lemma validate_prediction_blue:
  "1 \<le> blue_ball (fst (validate_prediction mc res g)) \<and> blue_ball (fst (validate_prediction mc res g)) \<le> 16"
  using randint_range[of 1 16]
  by (auto simp: validate_prediction_def Let_def split: prod.splits) (metis fst_conv one_le_numeral)+

lemma validate_prediction_conf:
  "confidence (fst (validate_prediction mc res g)) = min (confidence res) mc"
  by (simp add: validate_prediction_def Let_def split: prod.splits)

lemma validate_prediction_meta:
  "metadata (fst (validate_prediction mc res g)) = metadata res"
  by (simp add: validate_prediction_def Let_def split: prod.splits)

section \<open>Facts about min-max normalization\<close>

lemma normalize_scores_keys: "map fst (normalize_scores values) = map fst values"
  by (auto simp: normalize_scores_def Let_def split: prod.splits)

lemma normalize_scores_length: "length (normalize_scores values) = length values"
  by (auto simp: normalize_scores_def Let_def)

lemma normalize_scores_const_nth:
  assumes "i < length values" "Max (snd ` set values) = Min (snd ` set values)"
  shows "snd (normalize_scores values ! i) = 1 / real (length values)"
  using assms by (auto simp: normalize_scores_def Let_def split: prod.splits)

lemma normalize_scores_var_nth:
  assumes "i < length values" "Max (snd ` set values) \<noteq> Min (snd ` set values)"
  shows "snd (normalize_scores values ! i)
         = (snd (values ! i) - Min (snd ` set values)) / (Max (snd ` set values) - Min (snd ` set values))"
  using assms by (auto simp: normalize_scores_def Let_def split: prod.splits)

lemma Min_le_Max_values:
  assumes "i < length (values :: (int \<times> real) list)"
  shows "Min (snd ` set values) \<le> snd (values ! i)" "snd (values ! i) \<le> Max (snd ` set values)"
  using assms by (auto intro!: Min_le Max_ge)

lemma distinct_values_Min_Max:
  assumes "i < length (values :: (int \<times> real) list)" "j < length values"
    "snd (values ! i) \<noteq> snd (values ! j)"
  shows "Min (snd ` set values) < Max (snd ` set values)"
proof -
  have "Min (snd ` set values) \<le> snd (values ! i)" "snd (values ! i) \<le> Max (snd ` set values)"
       "Min (snd ` set values) \<le> snd (values ! j)" "snd (values ! j) \<le> Max (snd ` set values)"
    using assms Min_le_Max_values by blast+
  then show ?thesis using assms(3) by linarith
qed

lemma normalize_scores_var_bounds:
  assumes "i < length values" "Min (snd ` set values) < Max (snd ` set values)"
  shows "0 \<le> snd (normalize_scores values ! i)" "snd (normalize_scores values ! i) \<le> 1"
    "snd (values ! i) = Min (snd ` set values) \<Longrightarrow> snd (normalize_scores values ! i) = 0"
    "snd (values ! i) = Max (snd ` set values) \<Longrightarrow> snd (normalize_scores values ! i) = 1"
proof -
  have ne: "Max (snd ` set values) \<noteq> Min (snd ` set values)" using assms(2) by simp
  note eq = normalize_scores_var_nth[OF assms(1) ne]
  have b: "Min (snd ` set values) \<le> snd (values ! i)" "snd (values ! i) \<le> Max (snd ` set values)"
    using Min_le_Max_values[OF assms(1)] by auto
  show "0 \<le> snd (normalize_scores values ! i)" unfolding eq using b assms(2) by simp
  show "snd (normalize_scores values ! i) \<le> 1" unfolding eq using b assms(2) by simp
  show "snd (values ! i) = Min (snd ` set values) \<Longrightarrow> snd (normalize_scores values ! i) = 0"
    unfolding eq by simp
  show "snd (values ! i) = Max (snd ` set values) \<Longrightarrow> snd (normalize_scores values ! i) = 1"
    unfolding eq using assms(2) by simp
qed

lemma values_attain:
  assumes "(values :: (int \<times> real) list) \<noteq> []"
  shows "\<exists>i<length values. snd (values ! i) = Min (snd ` set values)"
        "\<exists>i<length values. snd (values ! i) = Max (snd ` set values)"
proof -
  have fin: "finite (snd ` set values)" "snd ` set values \<noteq> {}" using assms by auto
  have "Min (snd ` set values) \<in> snd ` set values" using Min_in[OF fin] .
  then show "\<exists>i<length values. snd (values ! i) = Min (snd ` set values)"
    by (metis (no_types, lifting) imageE in_set_conv_nth)
  have "Max (snd ` set values) \<in> snd ` set values" using Max_in[OF fin] .
  then show "\<exists>i<length values. snd (values ! i) = Max (snd ` set values)"
    by (metis (no_types, lifting) imageE in_set_conv_nth)
qed

section \<open>Facts about the weights\<close>

lemma sum_list_scaled:
  "sum_list (map snd (map (\<lambda>(k, v). (k, v / t)) (d :: (string \<times> real) list))) = sum_list (map snd d) / t"
  by (induction d) (auto simp: add_divide_distrib)

lemma default_weights_total: "sum_list (map snd default_weights) = 1"
  by (simp add: default_weights_def)

lemma init_default:
  "weights (EnsemblePredictor_init None) = default_weights"
  "weights (EnsemblePredictor_init (Some [])) = default_weights"
  by (simp_all add: EnsemblePredictor_init_def total_or_one_def default_weights_def)

lemma scaled_nonneg_any:
  assumes "\<forall>p\<in>set d. 0 \<le> snd p"
  shows "\<forall>p\<in>set (map (\<lambda>(k, v). (k, v / total_or_one d)) (d :: (string \<times> real) list)). 0 \<le> snd p"
proof -
  have "0 \<le> sum_list (map snd d)" using assms by (intro sum_list_nonneg) auto
  then have "0 < total_or_one d" by (simp add: total_or_one_def Let_def)
  then show ?thesis using assms by (auto split: prod.splits)
qed

section \<open>Facts about the gap scan\<close>

lemma map_of_dict_set: "map_of (dict_set d k v) = (map_of d)(k \<mapsto> v)"
  by (induction d) (auto simp: fun_eq_iff)

lemma dict_get_Some: "map_of d k = Some v \<Longrightarrow> dict_get d k dflt = v"
  by (simp add: dict_get_def)

lemma map_of_record_gap:
  assumes "map_of gm num = Some g"
  shows "map_of (record_gap rm dg idx number gm) num
         = Some (if number = num \<and> 1 \<le> num \<and> num \<le> rm \<and> g = dg then idx else g)"
  using assms by (auto simp: record_gap_def map_of_dict_set dict_get_def split: option.splits)

lemma map_of_fold_record_gap:
  assumes "map_of gm num = Some g" "idx \<noteq> dg"
  shows "map_of (fold (record_gap rm dg idx) vals gm) num
         = Some (if num \<in> set vals \<and> 1 \<le> num \<and> num \<le> rm \<and> g = dg then idx else g)"
  using assms
proof (induction vals arbitrary: gm g)
  case Nil
  then show ?case by simp
next
  case (Cons v vals)
  let ?g' = "if v = num \<and> 1 \<le> num \<and> num \<le> rm \<and> g = dg then idx else g"
  have step: "map_of (record_gap rm dg idx v gm) num = Some ?g'"
    by (rule map_of_record_gap[OF Cons.prems(1)])
  show ?case
    using Cons.IH[OF step Cons.prems(2)] Cons.prems(2) by auto
qed

lemma first_index_Cons:
  "first_index is_red num (d # ds)
   = (if num \<in> set (draw_values is_red d) then 0 else Suc (first_index is_red num ds))"
  by (simp add: first_index_def)

lemma first_index_le: "first_index is_red num ds \<le> length ds"
  by (simp add: first_index_def length_takeWhile_le)

lemma map_of_gap_scan:
  assumes "map_of gm num = Some g" "1 \<le> num" "num \<le> rm" "idx + int (length ds) = dg" "0 \<le> idx"
  shows "map_of (gap_scan rm dg is_red idx ds gm) num
         = Some (if g \<noteq> dg then g else idx + int (first_index is_red num ds))"
  using assms
proof (induction ds arbitrary: gm g idx)
  case Nil
  then show ?case by (simp add: first_index_def)
next
  case (Cons d ds)
  have ne: "idx \<noteq> dg" using Cons.prems(4) by simp
  let ?g' = "if num \<in> set (draw_values is_red d) \<and> 1 \<le> num \<and> num \<le> rm \<and> g = dg then idx else g"
  have step: "map_of (fold (record_gap rm dg idx) (draw_values is_red d) gm) num = Some ?g'"
    by (rule map_of_fold_record_gap[OF Cons.prems(1) ne])
  have "map_of (gap_scan rm dg is_red (idx + 1) ds
          (fold (record_gap rm dg idx) (draw_values is_red d) gm)) num
        = Some (if ?g' \<noteq> dg then ?g' else (idx + 1) + int (first_index is_red num ds))"
    using Cons.IH[OF step Cons.prems(2,3)] Cons.prems(4,5) by simp
  then show ?case
    using ne Cons.prems(2,3) by (auto simp: first_index_Cons)
qed

lemma map_of_table:
  "map_of (map (\<lambda>n. (n, f n)) xs) k = (if k \<in> set xs then Some (f k) else None)"
  by (induction xs) auto

lemma map_of_gap_map0:
  "1 \<le> num \<Longrightarrow> num \<le> rm \<Longrightarrow> map_of (map (\<lambda>n. (n, dg)) [1..rm]) num = Some (dg::int)"
  by (simp add: map_of_table)

lemma current_gap_scores_first_index:
  assumes "historical_data \<noteq> []" "1 \<le> num" "num \<le> range_max"
  shows "map_of (current_gap_scores historical_data range_max is_red) num
         = Some (real (first_index is_red num historical_data) / real (length historical_data))"
proof -
  define dg where "dg = int (length historical_data)"
  have dg0: "dg \<noteq> 0" using assms(1) by (simp add: dg_def)
  have m0: "map_of (map (\<lambda>n. (n, dg)) [1..range_max]) num = Some dg"
    by (rule map_of_gap_map0[OF assms(2,3)])
  have "map_of (gap_scan range_max dg is_red 0 historical_data (map (\<lambda>n. (n, dg)) [1..range_max])) num
        = Some (if dg \<noteq> dg then dg else 0 + int (first_index is_red num historical_data))"
    by (rule map_of_gap_scan[OF m0 assms(2,3)]) (simp_all add: dg_def)
  then have "map_of (gap_scan range_max dg is_red 0 historical_data (map (\<lambda>n. (n, dg)) [1..range_max])) num
        = Some (int (first_index is_red num historical_data))" by simp
  then show ?thesis
    using assms(1) dg0
    by (simp add: current_gap_scores_def dg_def[symmetric] Let_def map_of_map)
       (simp add: dg_def)
qed

section \<open>Facts about the distribution-balanced selection\<close>

lemma band_count_simps [simp]:
  "band_count g [] = 0"
  "band_count g (xs @ [n]) = band_count g xs + (if group_for_number n = g then 1 else 0)"
  by (simp_all add: band_count_def)

lemma length_band_count: "length xs = band_count low xs + band_count mid xs + band_count high xs"
proof (induction xs)
  case Nil
  then show ?case by (simp add: band_count_def)
next
  case (Cons x xs)
  then show ?case by (cases "group_for_number x") (simp_all add: band_count_def)
qed

lemma group_UNIV: "(\<forall>g. P g) \<longleftrightarrow> P low \<and> P mid \<and> P high"
  by (metis group.exhaust)

lemma select_by_group_bounded:
  assumes "\<forall>g. counts g = band_count g selected" "\<forall>g. counts g \<le> 2"
  shows "band_count g (select_by_group cands selected counts) \<le> 2"
  using assms
proof (induction cands arbitrary: selected counts)
  case Nil
  then show ?case by (metis select_by_group.simps(1))
next
  case (Cons c cands)
  let ?grp = "group_for_number (fst c)"
  show ?case
  proof (cases "counts ?grp < 2")
    case True
    let ?sel = "selected @ [fst c]"
    let ?cnt = "counts(?grp := counts ?grp + 1)"
    have inv1: "\<forall>g. ?cnt g = band_count g ?sel" using Cons.prems(1) by simp
    have inv2: "\<forall>g. ?cnt g \<le> 2" using Cons.prems(2) True by simp
    show ?thesis
    proof (cases "length ?sel = 6")
      case six: True
      have "select_by_group (c # cands) selected counts = ?sel"
        using True six by (simp add: targets_def Let_def)
      then show ?thesis using inv1 inv2 by metis
    next
      case False
      have "select_by_group (c # cands) selected counts = select_by_group cands ?sel ?cnt"
        using True False by (simp add: targets_def Let_def)
      then show ?thesis using Cons.IH[OF inv1 inv2] by (simp only:)
    qed
  next
    case False
    show ?thesis
    proof (cases "length selected = 6")
      case six: True
      have "select_by_group (c # cands) selected counts = selected"
        using False six by (simp add: targets_def Let_def)
      then show ?thesis using Cons.prems by metis
    next
      case nsix: False
      have "select_by_group (c # cands) selected counts = select_by_group cands selected counts"
        using False nsix by (simp add: targets_def Let_def)
      then show ?thesis using Cons.IH[OF Cons.prems] by (simp only:)
    qed
  qed
qed



lemma select_by_group_full:
  assumes "\<forall>g. counts g = band_count g selected" "\<forall>g. counts g \<le> 2"
    "length selected < 6" "\<forall>g. 2 \<le> counts g + cand_count g cands"
  shows "length (select_by_group cands selected counts) = 6"
  using assms
proof (induction cands arbitrary: selected counts)
  case Nil
  have "\<forall>g. counts g = 2" using Nil.prems(2,4) by (simp add: cand_count_def le_antisym)
  then have "length selected = 6"
    using Nil.prems(1) length_band_count[of selected] by simp
  then show ?case using Nil.prems(3) by simp
next
  case (Cons c cands)
  let ?grp = "group_for_number (fst c)"
  have cc: "cand_count g (c # cands) = cand_count g cands + (if ?grp = g then 1 else 0)" for g
    by (simp add: cand_count_def)
  show ?case
  proof (cases "counts ?grp < 2")
    case True
    let ?sel = "selected @ [fst c]"
    let ?cnt = "counts(?grp := counts ?grp + 1)"
    have inv1: "\<forall>g. ?cnt g = band_count g ?sel" using Cons.prems(1) by simp
    have inv2: "\<forall>g. ?cnt g \<le> 2" using Cons.prems(2) True by simp
    have inv4: "\<forall>g. 2 \<le> ?cnt g + cand_count g cands"
      using Cons.prems(4) cc by (auto split: if_splits)
    show ?thesis
    proof (cases "length ?sel = 6")
      case six: True
      have "select_by_group (c # cands) selected counts = ?sel"
        using True six by (simp add: targets_def Let_def)
      then show ?thesis using six by simp
    next
      case False
      then have lt: "length ?sel < 6" using Cons.prems(3) by simp
      have "select_by_group (c # cands) selected counts = select_by_group cands ?sel ?cnt"
        using True False by (simp add: targets_def Let_def)
      then show ?thesis using Cons.IH[OF inv1 inv2 lt inv4] by (simp only:)
    qed
  next
    case False
    then have two: "counts ?grp = 2" using Cons.prems(2) by (simp add: le_antisym)
    have inv4: "\<forall>g. 2 \<le> counts g + cand_count g cands"
    proof
      fix g
      have "2 \<le> counts g + cand_count g (c # cands)" using Cons.prems(4) by blast
      then show "2 \<le> counts g + cand_count g cands"
        using cc[of g] two by (cases "?grp = g") auto
    qed
    have "select_by_group (c # cands) selected counts = select_by_group cands selected counts"
      using False Cons.prems(3) by (simp add: targets_def Let_def)
    then show ?thesis using Cons.IH[OF Cons.prems(1,2,3) inv4] by (simp only:)
  qed
qed

lemma select_by_group_set:
  "set (select_by_group cands selected counts) \<subseteq> set selected \<union> fst ` set cands"
proof (induction cands arbitrary: selected counts)
  case Nil
  then show ?case by simp
next
  case (Cons c cands)
  show ?case
    using Cons.IH[of "selected @ [fst c]"] Cons.IH[of selected]
    by (auto simp: Let_def)
qed

lemma select_by_group_distinct:
  assumes "distinct (map fst cands)" "distinct selected" "set selected \<inter> fst ` set cands = {}"
  shows "distinct (select_by_group cands selected counts)"
  using assms
proof (induction cands arbitrary: selected counts)
  case Nil
  then show ?case by simp
next
  case (Cons c cands)
  have d: "distinct (map fst cands)" using Cons.prems(1) by simp
  have a: "distinct (selected @ [fst c])" using Cons.prems(2,3) by auto
  have b: "set (selected @ [fst c]) \<inter> fst ` set cands = {}" using Cons.prems(1,3) by auto
  have c: "set selected \<inter> fst ` set cands = {}" using Cons.prems(3) by auto
  show ?case
    using Cons.IH[OF d a b] Cons.IH[OF d Cons.prems(2) c] a Cons.prems(2)
    by (simp add: Let_def)
qed

lemma band_count_sort: "band_count g (sort xs) = band_count g xs"
  by (simp add: band_count_def filter_sort)

lemma cand_count_sorted: "cand_count g (sorted_by_value_desc scores) = cand_count g scores"
  by (simp add: cand_count_def sorted_by_value_desc_def filter_sort)

lemma select_numbers_with_distribution_groups:
  assumes "distinct (map fst scores)" and "\<forall>g. 2 \<le> cand_count g scores"
  shows "length (select_numbers_with_distribution scores) = 6
       \<and> distinct (select_numbers_with_distribution scores)
       \<and> sorted (select_numbers_with_distribution scores)
       \<and> set (select_numbers_with_distribution scores) \<subseteq> fst ` set scores
       \<and> (\<forall>g. band_count g (select_numbers_with_distribution scores) \<le> 2)"
proof -
  define cands where "cands = sorted_by_value_desc scores"
  define sel where "sel = select_by_group cands [] (\<lambda>grp. 0)"
  have dc: "distinct (map fst cands)"
    using assms(1) unfolding cands_def sorted_by_value_desc_def
    by (metis distinct_map distinct_sort set_sort inj_on_cong)
  have sc: "fst ` set cands = fst ` set scores"
    by (simp add: cands_def sorted_by_value_desc_def)
  have cc: "\<forall>g. 2 \<le> (0::nat) + cand_count g cands"
    using assms(2) by (simp add: cands_def cand_count_sorted)
  have len: "length sel = 6"
    unfolding sel_def by (rule select_by_group_full[OF _ _ _ cc]) simp_all
  have bnd: "band_count g sel \<le> 2" for g
    unfolding sel_def by (rule select_by_group_bounded) simp_all
  have dis: "distinct sel"
    unfolding sel_def by (rule select_by_group_distinct[OF dc]) simp_all
  have sub: "set sel \<subseteq> fst ` set scores"
    using select_by_group_set[of cands "[]" "\<lambda>grp. 0"] sc by (simp add: sel_def)
  have r: "select_numbers_with_distribution scores = sort sel"
    using len by (simp add: select_numbers_with_distribution_def cands_def[symmetric] sel_def[symmetric] Let_def)
  show ?thesis
    unfolding r using len bnd dis sub by (simp add: band_count_sort)
qed

lemma length_filter_mono:
  "(\<And>x. P x \<Longrightarrow> Q x) \<Longrightarrow> length (filter P xs) \<le> length (filter Q xs)"
  by (induction xs) auto

lemma band_ranges:
  "length (filter (\<lambda>n. 1 \<le> n \<and> n \<le> 11) xs) \<le> band_count low xs"
  "length (filter (\<lambda>n. 12 \<le> n \<and> n \<le> 22) xs) \<le> band_count mid xs"
  "length (filter (\<lambda>n. 23 \<le> n \<and> n \<le> 33) xs) \<le> band_count high xs"
  unfolding band_count_def
  by (rule length_filter_mono, simp add: group_for_number_def)+

lemma cand_ranges:
  "length (filter (\<lambda>p. 1 \<le> fst p \<and> fst p \<le> 11) scores) \<le> cand_count low scores"
  "length (filter (\<lambda>p. 12 \<le> fst p \<and> fst p \<le> 22) scores) \<le> cand_count mid scores"
  "length (filter (\<lambda>p. 23 \<le> fst p \<and> fst p \<le> 33) scores) \<le> cand_count high scores"
  unfolding cand_count_def
  by (rule length_filter_mono, simp add: group_for_number_def)+

lemma pool_three_bands:
  "set xs \<subseteq> {1..33::int} \<Longrightarrow>
   length xs = length (filter (\<lambda>n. 1 \<le> n \<and> n \<le> 11) xs)
             + length (filter (\<lambda>n. 12 \<le> n \<and> n \<le> 22) xs)
             + length (filter (\<lambda>n. 23 \<le> n \<and> n \<le> 33) xs)"
  by (induction xs) auto

section \<open>Facts about the random fallback\<close>

lemma generate_random_fallback_result:
  "confidence (fst (generate_random_fallback g)) = 30"
  "metadata (fst (generate_random_fallback g)) = Some [(''fallback'', MBool True)]"
  "red_balls (fst (generate_random_fallback g)) = sort (fst (random_sample [1..33] 6 g))"
  "blue_ball (fst (generate_random_fallback g)) = fst (randint 1 16 (snd (random_sample [1..33] 6 g)))"
  by (simp_all add: generate_random_fallback_def Let_def split: prod.splits)

lemma list_all_range_sort:
  "list_all P (sort xs) = list_all P (xs::int list)"
  by (simp add: list_all_iff)

lemma generate_random_fallback_valid: "valid_shape (fst (generate_random_fallback g))"
proof -
  let ?s = "fst (random_sample [1..33] 6 g) :: int list"
  have l: "length ?s = 6" by (simp add: random_sample_length)
  have d: "distinct ?s" by (rule random_sample_distinct) simp
  have "set ?s \<subseteq> set [1..33]" by (rule random_sample_set)
  then have r: "list_all (\<lambda>n. 1 \<le> n \<and> n \<le> 33) ?s" by (auto simp: list_all_iff)
  have b: "1 \<le> fst (randint 1 16 (snd (random_sample [1..33::int] 6 g)))"
          "fst (randint 1 16 (snd (random_sample [1..33::int] 6 g))) \<le> 16"
    using randint_range[of 1 16] by simp_all
  show ?thesis
    unfolding valid_shape_def in_pool_def generate_random_fallback_result
    using l d r b by (simp add: list_all_range_sort)
qed

lemma generate_random_fallback_is_fallback: "is_fallback (fst (generate_random_fallback g))"
  by (simp add: is_fallback_def generate_random_fallback_valid generate_random_fallback_result
      has_fallback_flag_def meta_lookup_def)

lemma predict_empty: "predict env p [] dataset_size g = generate_random_fallback g"
  by (cases p)
     (simp_all add: frequency_predict_def trend_predict_def forest_predict_def
        fallback_predict_def lstm_predict_def ensemble_predict_def)

lemma in_pool_iff: "in_pool xs \<longleftrightarrow> set xs \<subseteq> {1..33}"
  by (auto simp: in_pool_def list_all_iff)

lemma validate_prediction_red_balls:
  "red_balls (fst (validate_prediction mc res g))
   = (let reds0 = sort (remdups (red_balls res))
      in if length reds0 < 6
         then sort (reds0 @ take (6 - length reds0)
                (fst (shuffle (filter (\<lambda>n. n \<notin> set reds0) [1..33]) g)))
         else if 6 < length reds0 then take 6 reds0 else reds0)"
  by (simp add: validate_prediction_def Let_def split: prod.splits)

lemma validate_prediction_in_pool:
  assumes "in_pool (red_balls res)"
  shows "in_pool (red_balls (fst (validate_prediction mc res g)))"
proof -
  define reds0 where "reds0 = sort (remdups (red_balls res))"
  define av where "av = filter (\<lambda>n. n \<notin> set reds0) [1..33]"
  have r0: "set reds0 \<subseteq> {1..33}" using assms by (simp add: reds0_def in_pool_iff)
  have "set (fst (shuffle av g)) \<subseteq> set av" by (rule shuffle_props)
  then have sh: "set (take k (fst (shuffle av g))) \<subseteq> {1..33}" for k
    using set_take_subset[of k "fst (shuffle av g)"] by (auto simp: av_def)
  have tk: "set (take 6 reds0) \<subseteq> {1..33}" using r0 set_take_subset[of 6 reds0] by blast
  have "set (red_balls (fst (validate_prediction mc res g))) \<subseteq> {1..33}"
    unfolding validate_prediction_red_balls Let_def reds0_def[symmetric] av_def[symmetric]
    using r0 sh[of "6 - length reds0"] tk by auto
  then show ?thesis by (simp add: in_pool_iff)
qed

lemma validate_prediction_valid:
  assumes "in_pool (red_balls res)"
  shows "valid_shape (fst (validate_prediction mc res g))"
  using validate_prediction_red[of mc res g] validate_prediction_blue[of mc res g]
    validate_prediction_in_pool[OF assms, of mc g]
  by (simp add: valid_shape_def)

section \<open>Facts about top-k selection and the frequency predictor\<close>

lemma validate_prediction_id:
  assumes "length (red_balls res) = 6" "distinct (red_balls res)" "sorted (red_balls res)"
    "1 \<le> blue_ball res" "blue_ball res \<le> 16"
  shows "validate_prediction mc res g = (res\<lparr>confidence := min (confidence res) mc\<rparr>, g)"
proof -
  have "sort (remdups (red_balls res)) = red_balls res"
    using assms(2,3) by (simp add: sort_key_id_if_sorted)
  then show ?thesis
    using assms(1,4,5) by (simp add: validate_prediction_def Let_def)
qed

lemma calculate_frequency_keys: "map fst (calculate_frequency numbers range_max) = [1..range_max]"
  by (simp add: calculate_frequency_def comp_def)

lemma sorted_by_value_desc_props:
  "length (sorted_by_value_desc d) = length d"
  "set (sorted_by_value_desc d) = set d"
  "distinct (map fst d) \<Longrightarrow> distinct (map fst (sorted_by_value_desc d))"
proof -
  show "length (sorted_by_value_desc d) = length d" "set (sorted_by_value_desc d) = set d"
    by (simp_all add: sorted_by_value_desc_def)
  assume "distinct (map fst d)"
  then show "distinct (map fst (sorted_by_value_desc d))"
    unfolding sorted_by_value_desc_def
    by (metis distinct_map distinct_sort set_sort inj_on_cong)
qed

lemma top_k_props:
  assumes "distinct (map fst d)" "k \<le> length d"
  shows "length (sort (map fst (take k (sorted_by_value_desc d)))) = k"
    "distinct (sort (map fst (take k (sorted_by_value_desc d))))"
    "sorted (sort (map fst (take k (sorted_by_value_desc d))))"
    "set (sort (map fst (take k (sorted_by_value_desc d)))) \<subseteq> fst ` set d"
proof -
  let ?s = "sorted_by_value_desc d"
  show "length (sort (map fst (take k ?s))) = k"
    using assms(2) by (simp add: sorted_by_value_desc_props)
  have "distinct (take k (map fst ?s))"
    using sorted_by_value_desc_props(3)[OF assms(1)] by (rule distinct_take)
  then show "distinct (sort (map fst (take k ?s)))" by (simp add: take_map)
  show "sorted (sort (map fst (take k ?s)))" by simp
  have "set (take k ?s) \<subseteq> set d"
    using set_take_subset[of k ?s] by (simp add: sorted_by_value_desc_props)
  then show "set (sort (map fst (take k ?s))) \<subseteq> fst ` set d" by auto
qed

lemma calculate_frequency_top6:
  "length (sort (map fst (take 6 (sorted_by_value_desc (calculate_frequency xs 33))))) = 6"
  "distinct (sort (map fst (take 6 (sorted_by_value_desc (calculate_frequency xs 33)))))"
  "sorted (sort (map fst (take 6 (sorted_by_value_desc (calculate_frequency xs 33)))))"
  "set (sort (map fst (take 6 (sorted_by_value_desc (calculate_frequency xs 33))))) \<subseteq> {1..33}"
proof -
  let ?d = "calculate_frequency xs 33"
  have d: "distinct (map fst ?d)" by (simp add: calculate_frequency_keys)
  have l: "6 \<le> length ?d" by (simp add: calculate_frequency_def)
  have k: "fst ` set ?d = {1..33}"
    using calculate_frequency_keys[of xs 33] by (metis set_map set_upto)
  show "length (sort (map fst (take 6 (sorted_by_value_desc ?d)))) = 6"
    "distinct (sort (map fst (take 6 (sorted_by_value_desc ?d))))"
    "sorted (sort (map fst (take 6 (sorted_by_value_desc ?d))))"
    "set (sort (map fst (take 6 (sorted_by_value_desc ?d)))) \<subseteq> {1..33}"
    using top_k_props[OF d l] k by simp_all
qed

lemma sorted_blue_head:
  "\<exists>b bs. sorted_by_value_desc (calculate_frequency xs 16) = b # bs \<and> 1 \<le> fst b \<and> fst b \<le> 16"
proof -
  let ?d = "calculate_frequency xs 16"
  let ?s = "sorted_by_value_desc ?d"
  have "length ?s = 16" by (simp add: sorted_by_value_desc_props calculate_frequency_def)
  then obtain b bs where e: "?s = b # bs" by (cases ?s) auto
  have "b \<in> set ?d" using e sorted_by_value_desc_props(2)[of ?d] by (metis list.set_intros(1))
  then have "fst b \<in> set (map fst ?d)" by (metis image_eqI set_map)
  then have "1 \<le> fst b \<and> fst b \<le> 16" by (simp add: calculate_frequency_keys)
  then show ?thesis using e by blast
qed

lemma frequency_predict_nonfallback:
  assumes "historical_data \<noteq> []" "extract_red_balls (py_take dataset_size historical_data) \<noteq> []"
  shows "\<exists>res. frequency_predict historical_data dataset_size g = (res, g)
           \<and> red_balls res = sort (map fst (take 6 (sorted_by_value_desc
                 (calculate_frequency (concat (extract_red_balls (py_take dataset_size historical_data))) 33))))
           \<and> 1 \<le> blue_ball res \<and> blue_ball res \<le> 16
           \<and> confidence res = min (calculate_frequency_confidence (red_balls res)
                 (calculate_frequency (concat (extract_red_balls (py_take dataset_size historical_data))) 33)) 75
           \<and> fst (frequency_predict historical_data dataset_size g')  = res"
proof -
  define reds where "reds = extract_red_balls (py_take dataset_size historical_data)"
  define blues where "blues = extract_blue_balls (py_take dataset_size historical_data)"
  define rf where "rf = calculate_frequency (concat reds) 33"
  define pr where "pr = sort (map fst (take 6 (sorted_by_value_desc rf)))"
  obtain b bs where sb: "sorted_by_value_desc (calculate_frequency blues 16) = b # bs"
    and br: "1 \<le> fst b" "fst b \<le> 16"
    using sorted_blue_head by blast
  define md where "md = Some
                        [(''hot_numbers'', MInts (fst (calculate_hot_cold_numbers rf))),
                         (''cold_numbers'', MInts (fst (snd (calculate_hot_cold_numbers rf)))),
                         (''neutral_numbers'', MInts (snd (snd (calculate_hot_cold_numbers rf)))),
                         (''top_red_frequency'',
                            MInt (case sorted_by_value_desc rf of [] \<Rightarrow> 0 | p # ps \<Rightarrow> snd p)),
                         (''top_blue_frequency'', MInt (snd b))]"
  define result where "result = \<lparr>red_balls = pr, blue_ball = fst b,
      confidence = calculate_frequency_confidence pr rf, metadata = md\<rparr>"
  have fp: "frequency_predict historical_data dataset_size h
            = validate_prediction (max_confidence FrequencyPredictor) result h" for h
    using assms sb
    by (simp add: frequency_predict_def Let_def reds_def[symmetric] blues_def[symmetric]
        rf_def[symmetric] pr_def[symmetric] result_def md_def split: prod.splits)
  have v: "validate_prediction (max_confidence FrequencyPredictor) result h
           = (result\<lparr>confidence := min (confidence result) (max_confidence FrequencyPredictor)\<rparr>, h)" for h
  proof -
    have pp: "length pr = 6" "distinct pr" "sorted pr"
      unfolding pr_def rf_def by (rule calculate_frequency_top6)+
    show "validate_prediction (max_confidence FrequencyPredictor) result h
           = (result\<lparr>confidence := min (confidence result) (max_confidence FrequencyPredictor)\<rparr>, h)"
      by (rule validate_prediction_id) (simp_all add: result_def pp br)
  qed
  show ?thesis
    unfolding fp v
    by (intro exI[of _ "result\<lparr>confidence := min (confidence result) (max_confidence FrequencyPredictor)\<rparr>"])
       (simp add: result_def pr_def rf_def reds_def br)
qed

section \<open>The shape of every prediction\<close>

lemma top6_in_pool:
  assumes "map fst d = [1..33]"
  shows "in_pool (sort (map fst (take 6 (sorted_by_value_desc d))))"
proof -
  have dd: "distinct (map fst d)" using assms by simp
  have "length (map fst d) = 33" using assms by simp
  then have l: "6 \<le> length d" by simp
  have "fst ` set d = {1..33}" using assms by (metis set_map set_upto)
  then show ?thesis using top_k_props(4)[OF dd l] by (simp add: in_pool_iff)
qed

lemma max_item_mem: "max_item best xs = best \<or> max_item best xs \<in> set xs"
proof (induction xs arbitrary: best)
  case Nil
  then show ?case by simp
next
  case (Cons a xs)
  show ?case
    using Cons.IH[of "if snd best < snd a then a else best"] by (auto split: if_splits)
qed

lemma max_key_mem: "d \<noteq> [] \<Longrightarrow> max_key d \<in> fst ` set d"
proof -
  assume "d \<noteq> []"
  then obtain x xs where e: "d = x # xs" by (cases d) auto
  have "max_item x xs \<in> set (x # xs)" using max_item_mem[of x xs] by auto
  then have "fst (max_item x xs) \<in> fst ` set (x # xs)" by (rule imageI)
  then show ?thesis unfolding e max_key_def by simp
qed

lemma max_key_range:
  assumes "map fst d = [1..16]"
  shows "1 \<le> max_key d \<and> max_key d \<le> 16"
proof -
  have "length (map fst d) = 16" using assms by simp
  then have "d \<noteq> []" by auto
  then have "max_key d \<in> fst ` set d" by (rule max_key_mem)
  moreover have "fst ` set d = {1..16}" using assms by (metis set_map set_upto)
  ultimately show ?thesis by simp
qed

lemma calculate_trend_scores_keys: "map fst (calculate_trend_scores h m) = [1..m]"
  by (simp add: calculate_trend_scores_def comp_def Let_def)

lemma calculate_blue_trend_keys: "map fst (calculate_blue_trend h) = [1..16]"
  by (simp add: calculate_blue_trend_def comp_def Let_def)

lemma frequency_predict_valid: "valid_shape (fst (frequency_predict historical_data dataset_size g))"
proof (cases "historical_data \<noteq> [] \<and> extract_red_balls (py_take dataset_size historical_data) \<noteq> []")
  case True
  then obtain res where r: "frequency_predict historical_data dataset_size g = (res, g)"
    "red_balls res = sort (map fst (take 6 (sorted_by_value_desc
        (calculate_frequency (concat (extract_red_balls (py_take dataset_size historical_data))) 33))))"
    "1 \<le> blue_ball res" "blue_ball res \<le> 16"
    using frequency_predict_nonfallback[of historical_data dataset_size g g] by blast
  have "valid_shape res"
    unfolding valid_shape_def in_pool_iff r(2) using calculate_frequency_top6 r(3,4) by blast
  then show ?thesis using r(1) by simp
next
  case False
  then have "frequency_predict historical_data dataset_size g = generate_random_fallback g"
    by (auto simp: frequency_predict_def Let_def)
  then show ?thesis by (simp add: generate_random_fallback_valid)
qed

lemma calculate_trend_scores_length: "length (calculate_trend_scores h 33) = 33"
  by (simp add: calculate_trend_scores_def)

lemma trend_predict_fallback:
  assumes "historical_data = [] \<or> length historical_data < 30
     \<or> length (extract_red_balls (py_take dataset_size historical_data)) < 30"
  shows "trend_predict env historical_data dataset_size g = generate_random_fallback g"
  using assms by (auto simp: trend_predict_def Let_def)

lemma trend_predict_real:
  assumes "30 \<le> length historical_data"
    "30 \<le> length (extract_red_balls (py_take dataset_size historical_data))"
  shows "trend_predict env historical_data dataset_size g
     = validate_prediction (max_confidence TrendPredictor)
         \<lparr>red_balls = sort (map fst (take 6 (sorted_by_value_desc
               (calculate_trend_scores (extract_red_balls (py_take dataset_size historical_data)) 33)))),
          blue_ball = max_key (calculate_blue_trend
               (extract_blue_balls (py_take dataset_size historical_data))),
          confidence = 50 + mean (map snd (take 6 (sorted_by_value_desc
               (calculate_trend_scores (extract_red_balls (py_take dataset_size historical_data)) 33)))) * 20,
          metadata = Some
            [(''trend_method'', MStr (if HAS_STATSMODELS env then ''arima'' else ''moving_average'')),
             (''avg_trend_strength'', MReal (py_round (mean (map snd (take 6 (sorted_by_value_desc
               (calculate_trend_scores (extract_red_balls (py_take dataset_size historical_data)) 33))))) 3)),
             (''data_points'', MInt (int (length (extract_red_balls (py_take dataset_size historical_data)))))]\<rparr> g"
proof -
  define reds where "reds = extract_red_balls (py_take dataset_size historical_data)"
  define sr where "sr = sorted_by_value_desc (calculate_trend_scores reds 33)"
  have "length sr = 33"
    by (simp add: sr_def sorted_by_value_desc_props(1) calculate_trend_scores_length)
  then have ne: "map snd (take 6 sr) \<noteq> []" by auto
  have c1: "historical_data \<noteq> []" "\<not> length historical_data < 30" using assms(1) by auto
  have c2: "reds \<noteq> []" "\<not> length reds < 30" using assms(2) by (auto simp: reds_def)
  show ?thesis
    unfolding trend_predict_def Let_def reds_def[symmetric] sr_def[symmetric]
    using c1 c2 ne by simp
qed

lemma trend_predict_valid: "valid_shape (fst (trend_predict env historical_data dataset_size g))"
proof (cases "30 \<le> length historical_data
    \<and> 30 \<le> length (extract_red_balls (py_take dataset_size historical_data))")
  case True
  show ?thesis
    unfolding trend_predict_real[OF conjunct1[OF True] conjunct2[OF True]]
    by (rule validate_prediction_valid) (simp add: top6_in_pool calculate_trend_scores_keys)
next
  case False
  then have "trend_predict env historical_data dataset_size g = generate_random_fallback g"
    by (intro trend_predict_fallback) auto
  then show ?thesis by (simp add: generate_random_fallback_valid)
qed

lemma argsort_desc_set: "set (argsort_desc xs) = {0..<length xs}"
  by (simp add: argsort_desc_def)

lemma build_sequence_matrix_rows:
  "snd (build_sequence_matrix history sz) = [] \<longleftrightarrow> history = []"
  by (simp add: build_sequence_matrix_def)

lemma predict_red_sequence_profile_length:
  "length (snd (fst (predict_red_sequence reds g))) = 33"
  by (simp add: predict_red_sequence_def Let_def zeros_def split: prod.splits)

lemma predict_red_sequence_state:
  "reds \<noteq> [] \<Longrightarrow> snd (predict_red_sequence reds g) = g"
  by (simp add: predict_red_sequence_def Let_def build_sequence_matrix_rows)

lemma predict_red_sequence_in_pool: "in_pool (fst (fst (predict_red_sequence reds g)))"
proof (cases "reds = []")
  case True
  have "set (fst (random_sample [1..33::int] 6 g)) \<subseteq> {1..33}"
    using random_sample_set[of "[1..33::int]" 6 g] by simp
  then show ?thesis
    using True
    by (simp add: predict_red_sequence_def Let_def build_sequence_matrix_rows in_pool_iff
        case_prod_beta)
next
  case False
  define ns where "ns = snd (fst (predict_red_sequence reds g))"
  have l: "length ns = 33" by (simp add: ns_def predict_red_sequence_profile_length)
  have r: "fst (fst (predict_red_sequence reds g))
           = sort (map (\<lambda>i. int i + 1) (take 6 (argsort_desc ns)))"
    using False
    by (simp add: ns_def predict_red_sequence_def Let_def build_sequence_matrix_rows)
  have "set (take 6 (argsort_desc ns)) \<subseteq> {0..<33}"
    using set_take_subset[of 6 "argsort_desc ns"] argsort_desc_set[of ns] l by simp
  then have "set (map (\<lambda>i. int i + 1) (take 6 (argsort_desc ns))) \<subseteq> {1..33}" by auto
  then show ?thesis unfolding r by (simp add: in_pool_iff)
qed

lemma lstm_predict_fallback:
  assumes "historical_data = [] \<or> length historical_data < 30
     \<or> length (extract_red_balls (py_take dataset_size historical_data)) < 30"
  shows "lstm_predict historical_data dataset_size g = generate_random_fallback g"
  using assms by (auto simp: lstm_predict_def Let_def)

lemma lstm_predict_real:
  assumes "30 \<le> length historical_data"
    "30 \<le> length (extract_red_balls (py_take dataset_size historical_data))"
  shows "lstm_predict historical_data dataset_size g
     = validate_prediction (max_confidence LSTMPredictor)
         \<lparr>red_balls = fst (fst (predict_red_sequence
              (extract_red_balls (py_take dataset_size historical_data)) g)),
          blue_ball = fst (predict_blue_sequence
              (extract_blue_balls (py_take dataset_size historical_data)) g),
          confidence = lstm_calculate_confidence
             (snd (fst (predict_red_sequence
                (extract_red_balls (py_take dataset_size historical_data)) g)))
             (fst (fst (predict_red_sequence
                (extract_red_balls (py_take dataset_size historical_data)) g))),
          metadata = Some
            [(''model'', MStr ''lstm_inspired''),
             (''sequence_length'', MInt (int sequence_length)),
             (''training_samples'',
                MInt (int (length (extract_red_balls (py_take dataset_size historical_data))))),
             (''signal_strength'', MReal (py_round
                (let prof = snd (fst (predict_red_sequence
                        (extract_red_balls (py_take dataset_size historical_data)) g));
                     pr = fst (fst (predict_red_sequence
                        (extract_red_balls (py_take dataset_size historical_data)) g));
                     idxs = map (\<lambda>num. nat (num - 1))
                            (filter (\<lambda>num. 1 \<le> num \<and> num \<le> int (length prof)) pr)
                 in if pr \<noteq> [] \<and> idxs \<noteq> [] then mean (map (\<lambda>i. prof ! i) idxs) else 0) 4))]\<rparr>
         (snd (predict_blue_sequence
              (extract_blue_balls (py_take dataset_size historical_data)) g))"
proof -
  have c1: "historical_data \<noteq> []" "\<not> length historical_data < 30" using assms(1) by auto
  have c2: "extract_red_balls (py_take dataset_size historical_data) \<noteq> []"
    "\<not> length (extract_red_balls (py_take dataset_size historical_data)) < 30"
    using assms(2) by auto
  have st: "snd (predict_red_sequence (extract_red_balls (py_take dataset_size historical_data)) g) = g"
    by (rule predict_red_sequence_state[OF c2(1)])
  show ?thesis
    using c1 c2 st by (simp add: lstm_predict_def Let_def case_prod_beta)
qed

lemma lstm_predict_valid: "valid_shape (fst (lstm_predict historical_data dataset_size g))"
proof (cases "30 \<le> length historical_data
    \<and> 30 \<le> length (extract_red_balls (py_take dataset_size historical_data))")
  case True
  show ?thesis
    unfolding lstm_predict_real[OF conjunct1[OF True] conjunct2[OF True]]
    by (rule validate_prediction_valid) (simp add: predict_red_sequence_in_pool)
next
  case False
  then have "lstm_predict historical_data dataset_size g = generate_random_fallback g"
    by (intro lstm_predict_fallback) auto
  then show ?thesis by (simp add: generate_random_fallback_valid)
qed

lemma frequency_based_selection_props:
  "length (frequency_based_selection h) = 6"
  "distinct (frequency_based_selection h)"
  "sorted (frequency_based_selection h)"
  "in_pool (frequency_based_selection h)"
  unfolding frequency_based_selection_def Let_def in_pool_iff
  by (rule calculate_frequency_top6)+

lemma predict_blue_ball_range:
  "1 \<le> fst (predict_blue_ball b g) \<and> fst (predict_blue_ball b g) \<le> 16"
proof (cases "length b < 10")
  case True
  then show ?thesis using randint_range[of 1 16 g] by (simp add: predict_blue_ball_def)
next
  case False
  then show ?thesis
    unfolding predict_blue_ball_def Let_def
    by (simp only: if_False fst_conv) (rule max_key_range, simp add: comp_def)
qed

lemma fallback_predict_valid: "valid_shape (fst (fallback_predict historical_data dataset_size g))"
proof (cases "historical_data = [] \<or> extract_red_balls
    (py_take (min dataset_size (int (length historical_data))) historical_data) = []")
  case True
  then have "fallback_predict historical_data dataset_size g = generate_random_fallback g"
    by (auto simp: fallback_predict_def Let_def)
  then show ?thesis by (simp add: generate_random_fallback_valid)
next
  case False
  show ?thesis
    using False randint_range[of 1 16 g] predict_blue_ball_range
    by (simp add: fallback_predict_def Let_def case_prod_beta valid_shape_def
        frequency_based_selection_props)
qed

lemma fallback_predict_confidence:
  "confidence (fst (fallback_predict historical_data dataset_size g)) = 30
   \<or> confidence (fst (fallback_predict historical_data dataset_size g)) = 55"
  by (simp add: fallback_predict_def Let_def case_prod_beta generate_random_fallback_result)

lemma dict_set_keys: "k \<in> fst ` set d \<Longrightarrow> map fst (dict_set d k v) = map fst d"
  by (induction d) auto

lemma dict_add_keys: "k \<in> set (map fst d) \<Longrightarrow> map fst (dict_add d k v) = map fst d"
  by (simp add: dict_add_def dict_set_keys)

lemma zero_table_keys: "map fst (zero_table m) = [1..m]"
  by (simp add: zero_table_def comp_def)

lemma fold_slot_keys:
  assumes "map fst c = [1..33]"
  shows "map fst (fold (\<lambda>(num, prob) c. if 1 \<le> num \<and> num \<le> 33 then dict_add c num prob else c)
            slot_map c) = [1..33]"
  using assms
proof (induction slot_map arbitrary: c)
  case Nil
  then show ?case by simp
next
  case (Cons p ps)
  obtain num prob where p: "p = (num, prob)" by (cases p)
  have "map fst (if 1 \<le> num \<and> num \<le> 33 then dict_add c num prob else c) = [1..33]"
    using Cons.prems by (simp add: dict_add_keys)
  then show ?case using Cons.IH p by simp
qed

lemma aggregate_probabilities_keys: "map fst (aggregate_probabilities maps) = [1..33]"
proof -
  have "map fst c = [1..33] \<Longrightarrow>
        map fst (fold (\<lambda>slot_map combined.
             fold (\<lambda>(num, prob) c. if 1 \<le> num \<and> num \<le> 33 then dict_add c num prob else c)
                  slot_map combined) maps c) = [1..33]" for c
  proof (induction maps arbitrary: c)
    case Nil
    then show ?case by simp
  next
    case (Cons m ms)
    show ?case using Cons.IH[OF fold_slot_keys[OF Cons.prems, of m]] by simp
  qed
  then show ?thesis by (simp add: aggregate_probabilities_def zero_table_keys)
qed

lemma select_high_probability_number_range:
  assumes "map fst combined = [1..33]"
  shows "1 \<le> fst (select_high_probability_number combined used g)
       \<and> fst (select_high_probability_number combined used g) \<le> 33"
proof (cases "find (\<lambda>p. fst p \<notin> set used) (sorted_by_value_desc combined)")
  case None
  let ?rem = "filter (\<lambda>num. num \<notin> set used) [1..33::int]"
  show ?thesis
  proof (cases "?rem = []")
    case True
    then show ?thesis using None randint_range[of 1 33 g]
      by (simp add: select_high_probability_number_def)
  next
    case False
    obtain r g' where ng: "next_rand g = (r, g')" by (cases "next_rand g")
    have "r mod length ?rem < length ?rem" using False by simp
    then have "?rem ! (r mod length ?rem) \<in> set ?rem" by (rule nth_mem)
    then have "1 \<le> ?rem ! (r mod length ?rem) \<and> ?rem ! (r mod length ?rem) \<le> 33" by simp
    then show ?thesis using None False ng
      by (simp add: select_high_probability_number_def random_choice_def Let_def)
  qed
next
  case (Some p)
  then have "p \<in> set (sorted_by_value_desc combined)" by (auto simp: find_Some_iff)
  then have "fst p \<in> set (map fst combined)"
    by (simp add: sorted_by_value_desc_props(2))
  then have "1 \<le> fst p \<and> fst p \<le> 33" using assms by simp
  then show ?thesis using Some by (simp add: select_high_probability_number_def)
qed

lemma pick_slot_numbers_in_pool:
  assumes "map fst combined = [1..33]" "in_pool predicted"
  shows "in_pool (fst (pick_slot_numbers combined raw predicted g))"
  using assms(2)
proof (induction raw arbitrary: predicted g)
  case Nil
  then show ?case by simp
next
  case (Cons number rest)
  show ?case
  proof (cases "1 \<le> number \<and> number \<le> 33 \<and> number \<notin> set predicted")
    case True
    then have "in_pool (predicted @ [number])" using Cons.prems by (simp add: in_pool_def)
    then show ?thesis using True Cons.IH by simp
  next
    case False
    obtain fb g' where s: "select_high_probability_number combined predicted g = (fb, g')"
      by (cases "select_high_probability_number combined predicted g")
    have "1 \<le> fb \<and> fb \<le> 33"
      using select_high_probability_number_range[OF assms(1), of predicted g] s by simp
    then have "in_pool (predicted @ [fb])" using Cons.prems by (simp add: in_pool_def)
    then have "in_pool (fst (pick_slot_numbers combined rest (predicted @ [fb]) g'))"
      by (rule Cons.IH)
    moreover have "pick_slot_numbers combined (number # rest) predicted g
          = pick_slot_numbers combined rest (predicted @ [fb]) g'"
      using False s by auto
    ultimately show ?thesis by simp
  qed
qed

lemma predict_red_balls_in_pool: "in_pool (fst (fst (predict_red_balls env h g)))"
proof -
  have t: "in_pool (sort (take 6 (fst (pick_slot_numbers (aggregate_probabilities maps) raw [] g))))"
    for maps raw
  proof -
    have "in_pool (fst (pick_slot_numbers (aggregate_probabilities maps) raw [] g))"
      by (rule pick_slot_numbers_in_pool[OF aggregate_probabilities_keys]) (simp add: in_pool_def)
    then show ?thesis
      using set_take_subset[of 6 "fst (pick_slot_numbers (aggregate_probabilities maps) raw [] g)"]
      by (auto simp: in_pool_iff)
  qed
  show ?thesis
    by (simp add: predict_red_balls_def Let_def case_prod_beta frequency_based_selection_props t
        split: fit_result.splits)
qed

lemma forest_predict_valid: "valid_shape (fst (forest_predict env historical_data dataset_size g))"
  by (auto simp: forest_predict_def Let_def case_prod_beta fallback_predict_valid
      generate_random_fallback_valid predict_red_balls_in_pool
      intro!: validate_prediction_valid)

lemma fill_remaining_set:
  "set (fill_remaining cands selected) \<subseteq> set selected \<union> fst ` set cands"
proof (induction cands arbitrary: selected)
  case Nil
  then show ?case by simp
next
  case (Cons c cands)
  show ?case
    using Cons.IH[of "selected @ [fst c]"] Cons.IH[of selected]
    by (auto simp: Let_def)
qed

lemma select_numbers_with_distribution_set:
  "set (select_numbers_with_distribution scores) \<subseteq> fst ` set scores"
proof -
  define cands where "cands = sorted_by_value_desc scores"
  define sel where "sel = select_by_group cands [] (\<lambda>grp. 0)"
  have sc: "fst ` set cands = fst ` set scores"
    by (simp add: cands_def sorted_by_value_desc_props(2))
  have s1: "set sel \<subseteq> fst ` set scores"
    using select_by_group_set[of cands "[]" "\<lambda>grp. 0"] sc by (simp add: sel_def)
  have s2: "set (fill_remaining cands sel) \<subseteq> fst ` set scores"
    using fill_remaining_set[of cands sel] s1 sc by auto
  have "set (take 6 (fill_remaining cands sel)) \<subseteq> fst ` set scores"
    "set (take 6 sel) \<subseteq> fst ` set scores"
    using s1 s2 set_take_subset[of 6 "fill_remaining cands sel"] set_take_subset[of 6 sel]
    by blast+
  then show ?thesis
    by (simp add: select_numbers_with_distribution_def Let_def cands_def[symmetric] sel_def[symmetric])
qed

lemma combine_scores_keys: "map fst (combine_scores base vote w) = map fst base"
  by (simp add: combine_scores_def normalize_scores_keys comp_def case_prod_beta)

lemma build_red_probability_keys: "map fst (build_red_probability rh hs) = [1..33]"
  by (simp add: build_red_probability_def Let_def normalize_scores_keys comp_def)

lemma build_blue_probability_keys: "map fst (build_blue_probability bh hs) = [1..16]"
  by (simp add: build_blue_probability_def Let_def normalize_scores_keys comp_def)

lemma ensemble_red_in_pool:
  "in_pool (select_numbers_with_distribution (combine_scores (build_red_probability rh hs) vote w))"
proof -
  have "fst ` set (combine_scores (build_red_probability rh hs) vote w) = {1..33}"
    using combine_scores_keys[of "build_red_probability rh hs" vote w] build_red_probability_keys[of rh hs]
    by (metis set_map set_upto)
  then show ?thesis
    using select_numbers_with_distribution_set[of "combine_scores (build_red_probability rh hs) vote w"]
    by (simp add: in_pool_iff)
qed

lemma ensemble_predict_valid:
  "valid_shape (fst (ensemble_predict env ws historical_data dataset_size g))"
  by (auto simp: ensemble_predict_def Let_def case_prod_beta
      generate_random_fallback_valid ensemble_red_in_pool
      intro!: validate_prediction_valid)

lemma predict_valid: "valid_shape (fst (predict env p historical_data dataset_size g))"
  by (cases p)
     (simp_all add: frequency_predict_valid trend_predict_valid forest_predict_valid
        lstm_predict_valid ensemble_predict_valid)

section \<open>Bounds on the confidence\<close>

lemma mean_lower: "\<forall>x\<in>set xs. a \<le> x \<Longrightarrow> xs \<noteq> [] \<Longrightarrow> a \<le> mean xs"
proof -
  assume a: "\<forall>x\<in>set xs. a \<le> x" and ne: "xs \<noteq> []"
  have "sum_list (map (\<lambda>x. a) xs) \<le> sum_list (map (\<lambda>x. x) xs)"
    using a by (intro sum_list_mono) auto
  then have "a * real (length xs) \<le> sum_list xs"
    by (simp add: sum_list_replicate map_replicate_const mult.commute)
  moreover have "0 < real (length xs)" using ne by simp
  ultimately show ?thesis using ne by (simp add: mean_def pos_le_divide_eq)
qed

lemma mean_upper: "\<forall>x\<in>set xs. x \<le> b \<Longrightarrow> xs \<noteq> [] \<Longrightarrow> mean xs \<le> b"
proof -
  assume a: "\<forall>x\<in>set xs. x \<le> b" and ne: "xs \<noteq> []"
  have "sum_list (map (\<lambda>x. x) xs) \<le> sum_list (map (\<lambda>x. b) xs)"
    using a by (intro sum_list_mono) auto
  then have "sum_list xs \<le> b * real (length xs)"
    by (simp add: sum_list_replicate map_replicate_const mult.commute)
  moreover have "0 < real (length xs)" using ne by simp
  ultimately show ?thesis using ne by (simp add: mean_def pos_divide_le_eq)
qed

lemma mean_unit:
  assumes "\<forall>x\<in>set xs. 0 \<le> x \<and> x \<le> 1"
  shows "0 \<le> mean xs \<and> mean xs \<le> 1"
proof (cases "xs = []")
  case True
  then show ?thesis by (simp add: mean_def)
next
  case False
  then show ?thesis using mean_lower[of xs 0] mean_upper[of xs 1] assms by auto
qed

lemma moving_average_unit:
  assumes "\<forall>x\<in>set data. 0 \<le> x \<and> x \<le> 1"
  shows "\<forall>x\<in>set (moving_average data window). 0 \<le> x \<and> x \<le> 1"
proof -
  have t: "\<forall>x\<in>set (take k data). 0 \<le> x \<and> x \<le> 1" for k
    using assms by (meson in_set_takeD)
  have d: "\<forall>x\<in>set (take k (drop j data)). 0 \<le> x \<and> x \<le> 1" for k j
    using assms by (meson in_set_takeD in_set_dropD)
  show ?thesis
    using assms mean_unit[OF t] mean_unit[OF d]
    by (auto simp: moving_average_def)
qed

lemma calculate_slope_5:
  assumes "0 \<le> a" "a \<le> 1" "0 \<le> b" "b \<le> 1" "0 \<le> d" "d \<le> 1" "0 \<le> e" "e \<le> 1"
  shows "calculate_slope [a, b, c, d, e] = (- 2 * a - b + d + 2 * e) / 10"
    "- (3 / 10) \<le> calculate_slope [a, b, c, d, e]"
    "calculate_slope [a, b, c, d, e] \<le> 3 / 10"
proof -
  have up: "[0..<5] = [0, 1, 2, 3, 4]" by (simp add: upt_rec)
  have xm: "mean [0, 1, 2, 3, 4 :: real] = 2" by (simp add: mean_def)
  define m where "m = mean [a, b, c, d, e]"
  have num: "(0 - 2) * (a - m) + ((1 - 2) * (b - m) + ((2 - 2) * (c - m)
      + ((3 - 2) * (d - m) + ((4 - 2) * (e - m) + 0)))) = - 2 * a - b + d + 2 * e"
    by (simp add: algebra_simps)
  show eq: "calculate_slope [a, b, c, d, e] = (- 2 * a - b + d + 2 * e) / 10"
    unfolding calculate_slope_def Let_def
    using num by (simp add: up xm m_def[symmetric] power2_eq_square algebra_simps)
  show "- (3 / 10) \<le> calculate_slope [a, b, c, d, e]"
    unfolding eq using assms by simp
  show "calculate_slope [a, b, c, d, e] \<le> 3 / 10"
    unfolding eq using assms by simp
qed

lemma length5_cases:
  assumes "length xs = 5"
  obtains a b c d e where "xs = [a, b, c, d, e]"
proof -
  obtain a r1 where 1: "xs = a # r1" using assms by (cases xs) auto
  obtain b r2 where 2: "r1 = b # r2" using assms 1 by (cases r1) auto
  obtain c r3 where 3: "r2 = c # r3" using assms 1 2 by (cases r2) auto
  obtain d r4 where 4: "r3 = d # r4" using assms 1 2 3 by (cases r3) auto
  obtain e r5 where 5: "r4 = e # r5" using assms 1 2 3 4 by (cases r4) auto
  have "r5 = []" using assms 1 2 3 4 5 by simp
  then show ?thesis using that 1 2 3 4 5 by simp
qed

lemma calculate_slope_unit5:
  assumes "length ys = 5" "\<forall>y\<in>set ys. 0 \<le> y \<and> y \<le> 1"
  shows "- (3 / 10) \<le> calculate_slope ys"
proof -
  obtain a b c d e where ys: "ys = [a, b, c, d, e]" using length5_cases[OF assms(1)] by blast
  show ?thesis
    unfolding ys by (rule calculate_slope_5(2)) (use assms(2) ys in simp_all)
qed

lemma trend_score_lower:
  assumes "\<forall>x\<in>set appearances. 0 \<le> x \<and> x \<le> 1"
  shows "- (3 / 10) \<le> trend_score appearances 3 10 5"
proof -
  let ?ma = "moving_average appearances (min 10 (length appearances div 3))"
  have u: "\<forall>x\<in>set ?ma. 0 \<le> x \<and> x \<le> 1" by (rule moving_average_unit[OF assms])
  have "- (3 / 10) \<le> calculate_slope (py_last_n 5 ?ma)" if "5 \<le> length ?ma"
  proof (rule calculate_slope_unit5)
    show "length (py_last_n 5 ?ma) = 5" using that by (simp add: py_last_n_def)
    show "\<forall>y\<in>set (py_last_n 5 ?ma). 0 \<le> y \<and> y \<le> 1"
      using u by (auto simp: py_last_n_def dest: in_set_dropD)
  qed
  then show ?thesis by (simp add: trend_score_def Let_def)
qed

lemma calculate_trend_scores_lower:
  "\<forall>p\<in>set (calculate_trend_scores h m). - (3 / 10) \<le> snd p"
proof -
  have "- (3 / 10) \<le> trend_score (map (\<lambda>draw. if num \<in> set draw then 1 else 0) h) 3 10 5" for num
    by (rule trend_score_lower) auto
  then show ?thesis by (auto simp: calculate_trend_scores_def Let_def)
qed

lemma trend_top6_mean_lower:
  "- (3 / 10) \<le> mean (map snd (take 6 (sorted_by_value_desc (calculate_trend_scores h 33))))"
proof -
  let ?t = "take 6 (sorted_by_value_desc (calculate_trend_scores h 33))"
  have "set ?t \<subseteq> set (calculate_trend_scores h 33)"
    using set_take_subset[of 6 "sorted_by_value_desc (calculate_trend_scores h 33)"]
    by (simp add: sorted_by_value_desc_props(2))
  then have b: "\<forall>x\<in>set (map snd ?t). - (3 / 10) \<le> x"
    using calculate_trend_scores_lower[of h 33] by auto
  have "length (sorted_by_value_desc (calculate_trend_scores h 33)) = 33"
    by (simp add: sorted_by_value_desc_props(1) calculate_trend_scores_length)
  then have "map snd ?t \<noteq> []" by auto
  then show ?thesis using mean_lower[OF b] by simp
qed

lemma trend_predict_confidence:
  "0 \<le> confidence (fst (trend_predict env historical_data dataset_size g))
   \<and> confidence (fst (trend_predict env historical_data dataset_size g)) \<le> 70"
proof (cases "30 \<le> length historical_data
    \<and> 30 \<le> length (extract_red_balls (py_take dataset_size historical_data))")
  case True
  show ?thesis
    unfolding trend_predict_real[OF conjunct1[OF True] conjunct2[OF True]] validate_prediction_conf
    using trend_top6_mean_lower[of "extract_red_balls (py_take dataset_size historical_data)"]
    by simp
next
  case False
  then have "trend_predict env historical_data dataset_size g = generate_random_fallback g"
    by (intro trend_predict_fallback) auto
  then show ?thesis by (simp add: generate_random_fallback_result)
qed

lemma calculate_frequency_nonneg: "\<forall>p\<in>set (calculate_frequency xs m). 0 \<le> snd p"
  by (auto simp: calculate_frequency_def)

lemma dict_get_nonneg:
  assumes "\<forall>p\<in>set d. (0::int) \<le> snd p"
  shows "0 \<le> dict_get d k 0"
proof (cases "map_of d k")
  case None
  then show ?thesis by (simp add: dict_get_def)
next
  case (Some v)
  then have "(k, v) \<in> set d" by (rule map_of_SomeD)
  then show ?thesis using assms Some by (auto simp: dict_get_def)
qed

lemma calculate_frequency_confidence_bounds:
  assumes "\<forall>p\<in>set freq. 0 \<le> snd p"
  shows "50 \<le> calculate_frequency_confidence sel freq"
    "calculate_frequency_confidence sel freq \<le> 75"
proof -
  define total where "total = sum_list (map snd freq)"
  define so where "so = sum_list (map (\<lambda>num. dict_get freq num 0) sel)"
  have t: "0 \<le> total" unfolding total_def using assms by (intro sum_list_nonneg) auto
  have s: "0 \<le> so" unfolding so_def using dict_get_nonneg[OF assms] by (intro sum_list_nonneg) auto
  have c: "0 \<le> real_of_int so / real_of_int total * 100 * (25 / 100)" using t s by simp
  have e: "calculate_frequency_confidence sel freq
           = (if total = 0 then 50
              else min (50 + real_of_int so / real_of_int total * 100 * (25 / 100)) 75)"
    unfolding calculate_frequency_confidence_def Let_def total_def so_def by (rule refl)
  show "50 \<le> calculate_frequency_confidence sel freq"
    unfolding e using c by (simp del: times_divide_eq_left times_divide_eq_right)
  show "calculate_frequency_confidence sel freq \<le> 75"
    by (simp add: calculate_frequency_confidence_def Let_def)
qed

lemma frequency_predict_confidence:
  "0 \<le> confidence (fst (frequency_predict historical_data dataset_size g))
   \<and> confidence (fst (frequency_predict historical_data dataset_size g)) \<le> 75"
proof (cases "historical_data \<noteq> [] \<and> extract_red_balls (py_take dataset_size historical_data) \<noteq> []")
  case True
  then obtain res where r: "frequency_predict historical_data dataset_size g = (res, g)"
    "confidence res = min (calculate_frequency_confidence (red_balls res)
        (calculate_frequency (concat (extract_red_balls (py_take dataset_size historical_data))) 33)) 75"
    using frequency_predict_nonfallback[of historical_data dataset_size g g] by blast
  show ?thesis
    using r calculate_frequency_confidence_bounds(1)[OF calculate_frequency_nonneg,
        of "red_balls res" "concat (extract_red_balls (py_take dataset_size historical_data))" 33]
    by simp
next
  case False
  then have "frequency_predict historical_data dataset_size g = generate_random_fallback g"
    by (auto simp: frequency_predict_def Let_def)
  then show ?thesis by (simp add: generate_random_fallback_result)
qed



lemma dict_get_nonneg_real:
  assumes "\<forall>p\<in>set d. (0::real) \<le> snd p"
  shows "0 \<le> dict_get d k 0"
proof (cases "map_of d k")
  case None
  then show ?thesis by (simp add: dict_get_def)
next
  case (Some v)
  then have "(k, v) \<in> set d" by (rule map_of_SomeD)
  then show ?thesis using assms Some by (auto simp: dict_get_def)
qed

lemma mean_nonneg: "\<forall>x\<in>set xs. 0 \<le> x \<Longrightarrow> 0 \<le> mean xs"
  by (cases "xs = []") (simp_all add: mean_def sum_list_nonneg)

lemma predict_red_balls_probability:
  assumes "nonneg_probabilities env"
  shows "0 \<le> snd (fst (predict_red_balls env h g))"
proof (cases "fit_forest env (fst (prepare_training_data h)) (snd (prepare_training_data h))
                (encode_window_features (py_last_n lookback h))")
  case FitFailed
  then show ?thesis by (simp add: predict_red_balls_def Let_def case_prod_beta)
next
  case (Fitted slots)
  have nn: "\<forall>slot\<in>set slots. \<forall>cp\<in>set (snd slot). 0 \<le> snd cp"
    using assms Fitted unfolding nonneg_probabilities_def by blast
  have "\<forall>x\<in>set (map (\<lambda>(value, class_prob_map). dict_get class_prob_map value 0) slots). 0 \<le> x"
  proof -
    have "0 \<le> dict_get (snd slot) (fst slot) 0" if "slot \<in> set slots" for slot
      by (rule dict_get_nonneg_real) (use nn that in blast)
    then show ?thesis by (auto simp: case_prod_beta)
  qed
  then have "0 \<le> mean (map (\<lambda>(value, class_prob_map). dict_get class_prob_map value 0) slots)"
    by (rule mean_nonneg)
  then show ?thesis using Fitted by (simp add: predict_red_balls_def Let_def case_prod_beta)
qed

lemma forest_predict_confidence:
  assumes "nonneg_probabilities env"
  shows "0 \<le> confidence (fst (forest_predict env historical_data dataset_size g))
   \<and> confidence (fst (forest_predict env historical_data dataset_size g)) \<le> 72"
proof -
  have fb: "0 \<le> confidence (fst (fallback_predict historical_data dataset_size g))
      \<and> confidence (fst (fallback_predict historical_data dataset_size g)) \<le> 72"
    using fallback_predict_confidence[of historical_data dataset_size g] by auto
  have p: "0 \<le> snd (fst (predict_red_balls env h g'))" for h g'
    by (rule predict_red_balls_probability[OF assms])
  have "0 \<le> 52 + snd (fst (predict_red_balls env h g')) * 28 + min (real n / 400) 1 * 10" for h g' n
    using p[of h g'] by (simp add: add_nonneg_nonneg)
  then show ?thesis
    using fb
    by (simp add: forest_predict_def Let_def case_prod_beta validate_prediction_conf
        generate_random_fallback_result)
qed

lemma calculate_ensemble_confidence_bounds:
  "52 \<le> calculate_ensemble_confidence ws preds scores sel n"
  "calculate_ensemble_confidence ws preds scores sel n \<le> 80"
  unfolding calculate_ensemble_confidence_def Let_def by simp_all

lemma ensemble_predict_confidence:
  "0 \<le> confidence (fst (ensemble_predict env ws historical_data dataset_size g))
   \<and> confidence (fst (ensemble_predict env ws historical_data dataset_size g)) \<le> 80"
proof -
  have "0 \<le> calculate_ensemble_confidence ws preds scores sel n" for preds scores sel n
    using calculate_ensemble_confidence_bounds(1)[of ws preds scores sel n] by simp
  then show ?thesis
    by (simp add: ensemble_predict_def Let_def case_prod_beta validate_prediction_conf
      generate_random_fallback_result)
qed



lemma nonneg_vec_nth: "nonneg_vec n v \<Longrightarrow> j < n \<Longrightarrow> 0 \<le> v ! j"
  by (simp add: nonneg_vec_def)

lemma nonneg_vec_zeros: "nonneg_vec n (zeros n)"
  by (simp add: nonneg_vec_def zeros_def)

lemma nonneg_vec_scale: "nonneg_vec n v \<Longrightarrow> 0 \<le> c \<Longrightarrow> nonneg_vec n (map (\<lambda>x. x / c) v)"
  by (auto simp: nonneg_vec_def)

lemma build_sequence_matrix_rows_nonneg:
  "fst (build_sequence_matrix h sz) = sz"
  "\<forall>row\<in>set (snd (build_sequence_matrix h sz)). nonneg_vec sz row"
  by (auto simp: build_sequence_matrix_def nonneg_vec_def)

lemma linspace_quarter:
  "\<forall>w\<in>set (linspace 0 (pi / 2) n). 0 \<le> w \<and> w \<le> pi / 2"
proof -
  have "0 \<le> real i * (pi / 2 / real (n - 1)) \<and> real i * (pi / 2 / real (n - 1)) \<le> pi / 2"
    if "i < n" "1 < n" for i
  proof -
    have "real i \<le> real (n - 1)" using that by simp
    then have "real i / real (n - 1) \<le> 1" using that by (simp add: divide_le_eq_1)
    then have "real i / real (n - 1) * (pi / 2) \<le> 1 * (pi / 2)"
      by (intro mult_right_mono) simp_all
    then show ?thesis by (simp add: field_simps)
  qed
  then show ?thesis by (auto simp: linspace_def)
qed

lemma sin_weights_nonneg: "\<forall>w\<in>set (map sin (linspace 0 (pi / 2) n)). 0 \<le> w"
proof -
  have "0 \<le> sin w" if "0 \<le> w" "w \<le> pi / 2" for w :: real
    using that by (intro sin_ge_zero) (simp_all add: order_trans[OF that(2)])
  then show ?thesis using linspace_quarter[of n] by auto
qed

lemma recent_weighted_profile_nonneg:
  assumes "\<forall>row\<in>set (snd m). nonneg_vec (fst m) row"
  shows "nonneg_vec (fst m) (recent_weighted_profile m)"
proof -
  define window where "window = py_last_n (min sequence_length (length (snd m))) (snd m)"
  define wv where "wv = map sin (linspace 0 (pi / 2) (length window))"
  have ws: "set window \<subseteq> set (snd m)"
    by (auto simp: window_def py_last_n_def dest: in_set_dropD)
  have wn: "\<forall>w\<in>set wv. 0 \<le> w" unfolding wv_def by (rule sin_weights_nonneg)
  have sw: "0 \<le> sum_list wv" using wn by (simp add: sum_list_nonneg)
  have tj: "0 \<le> sum_list (map (\<lambda>(row, w). row ! j * w) (zip window wv))" if "j < fst m" for j
  proof (rule sum_list_nonneg)
    fix x assume "x \<in> set (map (\<lambda>(row, w). row ! j * w) (zip window wv))"
    then obtain row w where rw: "(row, w) \<in> set (zip window wv)" "x = row ! j * w" by auto
    have "row \<in> set (snd m)" "w \<in> set wv" using rw(1) ws by (auto dest: set_zip_leftD set_zip_rightD)
    then have "0 \<le> row ! j" "0 \<le> w" using assms that wn nonneg_vec_nth by blast+
    then show "0 \<le> x" using rw(2) by simp
  qed
  have "nonneg_vec (fst m)
     (map (\<lambda>v. v / sum_list wv)
        (map (\<lambda>j. sum_list (map (\<lambda>(row, w). row ! j * w) (zip window wv))) [0..<fst m]))"
    using tj sw by (auto simp: nonneg_vec_def)
  then show ?thesis
    by (simp add: recent_weighted_profile_def Let_def window_def[symmetric] wv_def[symmetric]
        nonneg_vec_zeros)
qed

lemma ema_fold_nonneg:
  assumes "\<forall>row\<in>set rows. nonneg_vec n row" "nonneg_vec n ema" "0 \<le> alpha" "alpha \<le> 1"
  shows "nonneg_vec n (fold (\<lambda>row ema. map (\<lambda>(e, r). (1 - alpha) * e + alpha * r) (zip ema row))
                         rows ema)"
  using assms(1,2)
proof (induction rows arbitrary: ema)
  case Nil
  then show ?case by simp
next
  case (Cons row rows)
  have r: "nonneg_vec n row" using Cons.prems(1) by simp
  have "nonneg_vec n (map (\<lambda>(e, r). (1 - alpha) * e + alpha * r) (zip ema row))"
    unfolding nonneg_vec_def
  proof (intro conjI ballI)
    show "length (map (\<lambda>(e, r). (1 - alpha) * e + alpha * r) (zip ema row)) = n"
      using r Cons.prems(2) by (simp add: nonneg_vec_def)
    fix x assume "x \<in> set (map (\<lambda>(e, r). (1 - alpha) * e + alpha * r) (zip ema row))"
    then obtain e r' where er: "(e, r') \<in> set (zip ema row)" "x = (1 - alpha) * e + alpha * r'"
      by auto
    have "0 \<le> e" "0 \<le> r'"
      using er(1) r Cons.prems(2) by (auto simp: nonneg_vec_def dest: set_zip_leftD set_zip_rightD)
    then show "0 \<le> x" using er(2) assms(3,4) by simp
  qed
  then show ?case using Cons.IH Cons.prems(1) by simp
qed

lemma exponential_memory_nonneg:
  assumes "\<forall>row\<in>set (snd m). nonneg_vec (fst m) row" "0 \<le> alpha" "alpha \<le> 1"
  shows "nonneg_vec (fst m) (exponential_memory m alpha)"
proof -
  define ema where "ema = fold (\<lambda>row ema. map (\<lambda>(e, r). (1 - alpha) * e + alpha * r) (zip ema row))
                     (snd m) (zeros (fst m))"
  have e: "nonneg_vec (fst m) ema"
    unfolding ema_def by (rule ema_fold_nonneg[OF assms(1) nonneg_vec_zeros assms(2,3)])
  have "nonneg_vec (fst m) (map (\<lambda>e. e / Max (set ema)) ema)" if "0 < Max (set ema)"
    using nonneg_vec_scale[OF e, of "Max (set ema)"] that by simp
  then show ?thesis
    using e by (simp add: exponential_memory_def Let_def ema_def[symmetric])
qed



lemma mat_add_nonneg:
  assumes "nonneg_mat m" "0 \<le> v"
  shows "nonneg_mat (mat_add m i j v)"
proof -
  have len: "length (mat_add m i j v) = 33" using assms(1) by (simp add: mat_add_def nonneg_mat_def)
  have "\<forall>x\<in>set row. 0 \<le> x" if "row \<in> set (mat_add m i j v)" for row
  proof (cases "i < length m")
    case False
    then have "mat_add m i j v = m" by (simp add: mat_add_def list_update_beyond)
    then show ?thesis using that assms(1) by (simp add: nonneg_mat_def)
  next
    case True
    have "m ! i \<in> set m" using True by (rule nth_mem)
    then have old: "\<forall>x\<in>set (m ! i). 0 \<le> x" using assms(1) by (simp add: nonneg_mat_def)
    have new: "\<forall>x\<in>set ((m ! i)[j := m ! i ! j + v]). 0 \<le> x"
    proof (cases "j < length (m ! i)")
      case False
      then show ?thesis using old by (simp add: list_update_beyond)
    next
      case jl: True
      then have "0 \<le> m ! i ! j + v" using old assms(2) by (simp add: add_nonneg_nonneg)
      then show ?thesis
        using old set_update_subset_insert[of "m ! i" j "m ! i ! j + v"] by auto
    qed
    have "row \<in> insert ((m ! i)[j := m ! i ! j + v]) (set m)"
      using that set_update_subset_insert[of m i] by (auto simp: mat_add_def)
    then show ?thesis using new assms(1) by (auto simp: nonneg_mat_def)
  qed
  then show ?thesis using len by (simp add: nonneg_mat_def)
qed

lemma count_pair_nonneg: "nonneg_mat m \<Longrightarrow> nonneg_mat (count_pair ab m)"
  by (simp add: count_pair_def Let_def mat_add_nonneg)

lemma fold_count_pair_nonneg: "nonneg_mat m \<Longrightarrow> nonneg_mat (fold count_pair ps m)"
  by (induction ps arbitrary: m) (simp_all add: count_pair_nonneg)

lemma fold_draws_nonneg:
  "nonneg_mat m \<Longrightarrow>
   nonneg_mat (fold (\<lambda>draw co. fold count_pair (combinations2 (sort (remdups draw))) co) ds m)"
  by (induction ds arbitrary: m) (simp_all add: fold_count_pair_nonneg)

lemma co_occurrence_scores_nonneg: "nonneg_vec 33 (co_occurrence_scores h)"
proof -
  define window where "window = py_last_n (max (sequence_length * 3) 30) h"
  define co where "co = fold (\<lambda>draw co. fold count_pair (combinations2 (sort (remdups draw))) co)
                       window (replicate 33 (zeros 33))"
  have "nonneg_mat (replicate 33 (zeros 33))" by (simp add: nonneg_mat_def zeros_def)
  then have c: "nonneg_mat co" unfolding co_def by (rule fold_draws_nonneg)
  have s: "nonneg_vec 33 (map sum_list co)"
    using c by (auto simp: nonneg_vec_def nonneg_mat_def intro!: sum_list_nonneg)
  have "nonneg_vec 33 (map (\<lambda>s. s / Max (set (map sum_list co))) (map sum_list co))"
    if "0 < Max (set (map sum_list co))"
    using nonneg_vec_scale[OF s, of "Max (set (map sum_list co))"] that by simp
  then show ?thesis
    using s
    by (simp add: co_occurrence_scores_def Let_def window_def[symmetric] co_def[symmetric]
        nonneg_vec_zeros del: set_map)
qed

lemma predict_red_sequence_profile_nonneg:
  "nonneg_vec 33 (snd (fst (predict_red_sequence reds g)))"
proof (cases "reds = []")
  case True
  then show ?thesis
    by (simp add: predict_red_sequence_def Let_def build_sequence_matrix_rows case_prod_beta
        nonneg_vec_zeros)
next
  case False
  let ?m = "build_sequence_matrix reds 33"
  have fm: "fst ?m = 33" and rows: "\<forall>row\<in>set (snd ?m). nonneg_vec (fst ?m) row"
    using build_sequence_matrix_rows_nonneg[of reds 33] by simp_all
  have rn: "nonneg_vec 33 (recent_weighted_profile ?m)"
    using recent_weighted_profile_nonneg[OF rows] fm by simp
  have en: "nonneg_vec 33 (exponential_memory ?m (18 / 100))"
    using exponential_memory_nonneg[OF rows, of "18 / 100"] fm by simp
  have cn: "nonneg_vec 33 (co_occurrence_scores reds)" by (rule co_occurrence_scores_nonneg)
  define comb where "comb = map (\<lambda>j. 4 / 10 * recent_weighted_profile ?m ! j
      + 3 / 10 * exponential_memory ?m (18 / 100) ! j
      + 3 / 10 * co_occurrence_scores reds ! j) [0..<33]"
  have "0 \<le> 4 / 10 * recent_weighted_profile ?m ! j
      + 3 / 10 * exponential_memory ?m (18 / 100) ! j
      + 3 / 10 * co_occurrence_scores reds ! j" if "j < 33" for j
    using nonneg_vec_nth[OF rn that] nonneg_vec_nth[OF en that] nonneg_vec_nth[OF cn that]
    by (simp add: add_nonneg_nonneg)
  then have cb: "nonneg_vec 33 comb" by (auto simp: comb_def nonneg_vec_def)
  have sc: "nonneg_vec 33 (map (\<lambda>s. s / Max (set comb)) comb)" if "0 < Max (set comb)"
    using nonneg_vec_scale[OF cb, of "Max (set comb)"] that by simp
  have nz: "snd ?m \<noteq> []" using False by (simp add: build_sequence_matrix_rows)
  have "snd (fst (predict_red_sequence reds g))
        = (if 0 < Max (set comb) then map (\<lambda>s. s / Max (set comb)) comb else comb)"
    unfolding predict_red_sequence_def Let_def comb_def
    by (simp only: nz if_False fst_conv snd_conv)
  then show ?thesis using cb sc by simp
qed

lemma lstm_calculate_confidence_bounds:
  assumes "\<forall>x\<in>set prof. 0 \<le> x"
  shows "50 \<le> lstm_calculate_confidence prof pr" "lstm_calculate_confidence prof pr \<le> 68"
proof -
  define sel where "sel = map (\<lambda>num. prof ! nat (num - 1))
                   (filter (\<lambda>num. 1 \<le> num \<and> num \<le> int (length prof)) pr)"
  have "0 \<le> prof ! nat (num - 1)" if "1 \<le> num" "num \<le> int (length prof)" for num
  proof -
    have "nat (num - 1) < length prof" using that by linarith
    then show ?thesis using assms nth_mem by blast
  qed
  then have "\<forall>x\<in>set sel. 0 \<le> x" by (auto simp: sel_def)
  then have a: "0 \<le> mean sel" by (rule mean_nonneg)
  have "52 \<le> 52 + mean sel * 25 + max 0 (1 - std prof) * 8"
    using a by (simp add: add_nonneg_nonneg)
  then show "50 \<le> lstm_calculate_confidence prof pr"
    by (simp add: lstm_calculate_confidence_def Let_def sel_def[symmetric])
  show "lstm_calculate_confidence prof pr \<le> 68"
    by (simp add: lstm_calculate_confidence_def Let_def)
qed

lemma lstm_predict_confidence:
  "0 \<le> confidence (fst (lstm_predict historical_data dataset_size g))
   \<and> confidence (fst (lstm_predict historical_data dataset_size g)) \<le> 68"
proof (cases "30 \<le> length historical_data
    \<and> 30 \<le> length (extract_red_balls (py_take dataset_size historical_data))")
  case True
  have "\<forall>x\<in>set (snd (fst (predict_red_sequence
      (extract_red_balls (py_take dataset_size historical_data)) g))). 0 \<le> x"
    using predict_red_sequence_profile_nonneg by (simp add: nonneg_vec_def)
  from lstm_calculate_confidence_bounds(1)[OF this]
  show ?thesis
    unfolding lstm_predict_real[OF conjunct1[OF True] conjunct2[OF True]] validate_prediction_conf
    by (simp add: order_trans[of 0 50])
next
  case False
  then have "lstm_predict historical_data dataset_size g = generate_random_fallback g"
    by (intro lstm_predict_fallback) auto
  then show ?thesis by (simp add: generate_random_fallback_result)
qed

section \<open>History-length thresholds\<close>

lemma py_take_all: "int (length xs) \<le> n \<Longrightarrow> py_take n xs = xs"
  by (simp add: py_take_def)

lemma extract_red_balls_well_formed:
  assumes "list_all well_formed_draw h"
  shows "extract_red_balls h = map get_red h"
proof -
  have "\<forall>red\<in>set (map get_red h). red \<noteq> [] \<and> length red = 6"
    using assms by (auto simp: list_all_iff well_formed_draw_def)
  then show ?thesis unfolding extract_red_balls_def by (simp add: filter_id_conv)
qed

lemma extract_red_balls_length:
  assumes "list_all well_formed_draw h" "int (length h) \<le> n"
  shows "length (extract_red_balls (py_take n h)) = length h"
  using assms by (simp add: py_take_all extract_red_balls_well_formed)

lemma length_concat_le:
  "(\<forall>x\<in>set xs. length (f x) \<le> 1) \<Longrightarrow> length (concat (map f xs)) \<le> length xs"
proof (induction xs)
  case Nil
  then show ?case by simp
next
  case (Cons a xs)
  have "length (f a) \<le> 1" using Cons.prems by simp
  moreover have "length (concat (map f xs)) \<le> length xs" using Cons by simp
  ultimately show ?case by simp
qed

lemma prepare_training_data_length_le:
  "length (fst (prepare_training_data h)) \<le> length h - lookback"
proof -
  let ?f = "\<lambda>idx. (let window = take lookback (drop (idx - lookback) h);
                   target_draw = h ! idx
               in if length target_draw < 6 then []
                  else [(encode_window_features window, take 6 target_draw)])"
  have "length (concat (map ?f [lookback..<length h])) \<le> length [lookback..<length h]"
    by (rule length_concat_le) (simp add: Let_def)
  then show ?thesis by (simp add: prepare_training_data_def Let_def)
qed

lemma length_concat_eq:
  "(\<forall>x\<in>set xs. length (f x) = 1) \<Longrightarrow> length (concat (map f xs)) = length xs"
  by (induction xs) simp_all

lemma prepare_training_data_length_eq:
  assumes "\<forall>d\<in>set h. length d = 6"
  shows "length (fst (prepare_training_data h)) = length h - lookback"
proof -
  let ?f = "\<lambda>idx. (let window = take lookback (drop (idx - lookback) h);
                   target_draw = h ! idx
               in if length target_draw < 6 then []
                  else [(encode_window_features window, take 6 target_draw)])"
  have "length (?f idx) = 1" if "idx \<in> set [lookback..<length h]" for idx
  proof -
    have "h ! idx \<in> set h" using that by simp
    then have "length (h ! idx) = 6" using assms by blast
    then show ?thesis by (simp add: Let_def)
  qed
  then have "length (concat (map ?f [lookback..<length h])) = length [lookback..<length h]"
    by (intro length_concat_eq) blast
  then show ?thesis by (simp add: prepare_training_data_def Let_def)
qed

lemma forest_predict_real:
  assumes "HAS_SKLEARN env" "lookback + 10 \<le> length historical_data"
    "lookback + 10 \<le> length (extract_red_balls (py_take dataset_size historical_data))"
  shows "forest_predict env historical_data dataset_size g
     = validate_prediction (max_confidence RandomForestPredictor)
         \<lparr>red_balls = fst (fst (predict_red_balls env
              (extract_red_balls (py_take dataset_size historical_data)) g)),
          blue_ball = fst (predict_blue_ball
              (extract_blue_balls (py_take dataset_size historical_data))
              (snd (predict_red_balls env
                 (extract_red_balls (py_take dataset_size historical_data)) g))),
          confidence = 52 + snd (fst (predict_red_balls env
              (extract_red_balls (py_take dataset_size historical_data)) g)) * 28
            + min (real (length (extract_red_balls (py_take dataset_size historical_data))) / 400) 1 * 10,
          metadata = Some
            [(''model'', MStr ''random_forest''),
             (''lookback'', MInt (int lookback)),
             (''training_samples'',
                MInt (int (length (extract_red_balls (py_take dataset_size historical_data))))),
             (''has_sklearn'', MBool (HAS_SKLEARN env)),
             (''slot_probability'', MReal (py_round (snd (fst (predict_red_balls env
              (extract_red_balls (py_take dataset_size historical_data)) g))) 4))]\<rparr>
         (snd (predict_blue_ball
              (extract_blue_balls (py_take dataset_size historical_data))
              (snd (predict_red_balls env
                 (extract_red_balls (py_take dataset_size historical_data)) g))))"
proof -
  have c1: "historical_data \<noteq> []" "\<not> length historical_data < lookback + 10"
    using assms(2) by (auto simp: lookback_def)
  have c2: "\<not> length (extract_red_balls (py_take dataset_size historical_data)) < lookback + 10"
    using assms(3) by auto
  show ?thesis
    using assms(1) c1 c2 by (simp add: forest_predict_def Let_def case_prod_beta)
qed

lemma predict_red_balls_small:
  assumes "length h < lookback + 25"
  shows "predict_red_balls env h g = ((frequency_based_selection h, 45 / 100), g)"
proof -
  have "length (fst (prepare_training_data h)) < 25"
    using prepare_training_data_length_le[of h] assms by linarith
  then show ?thesis by (simp add: predict_red_balls_def Let_def case_prod_beta)
qed

lemma fallback_predict_degraded:
  assumes "historical_data \<noteq> []"
    "extract_red_balls (py_take (min dataset_size (int (length historical_data))) historical_data) \<noteq> []"
  shows "confidence (fst (fallback_predict historical_data dataset_size g)) = 55"
    "metadata (fst (fallback_predict historical_data dataset_size g))
       = Some [(''fallback'', MBool True), (''reason'', MStr ''sklearn_unavailable'')]"
  using assms by (simp_all add: fallback_predict_def Let_def case_prod_beta)

lemma trend_real_meta:
  assumes "30 \<le> length historical_data"
    "30 \<le> length (extract_red_balls (py_take dataset_size historical_data))"
  shows "meta_lookup (fst (trend_predict env historical_data dataset_size g)) ''fallback'' = None"
    "meta_lookup (fst (trend_predict env historical_data dataset_size g)) ''data_points''
       = Some (MInt (int (length (extract_red_balls (py_take dataset_size historical_data)))))"
  unfolding trend_predict_real[OF assms] meta_lookup_def validate_prediction_meta
  by simp_all

lemma lstm_real_meta:
  assumes "30 \<le> length historical_data"
    "30 \<le> length (extract_red_balls (py_take dataset_size historical_data))"
  shows "meta_lookup (fst (lstm_predict historical_data dataset_size g)) ''fallback'' = None"
    "meta_lookup (fst (lstm_predict historical_data dataset_size g)) ''training_samples''
       = Some (MInt (int (length (extract_red_balls (py_take dataset_size historical_data)))))"
  unfolding lstm_predict_real[OF assms] meta_lookup_def validate_prediction_meta
  by simp_all

lemma forest_real_meta:
  assumes "HAS_SKLEARN env" "lookback + 10 \<le> length historical_data"
    "lookback + 10 \<le> length (extract_red_balls (py_take dataset_size historical_data))"
  shows "meta_lookup (fst (forest_predict env historical_data dataset_size g)) ''fallback'' = None"
    "meta_lookup (fst (forest_predict env historical_data dataset_size g)) ''training_samples''
       = Some (MInt (int (length (extract_red_balls (py_take dataset_size historical_data)))))"
    "confidence (fst (forest_predict env historical_data dataset_size g))
       = min (52 + snd (fst (predict_red_balls env
              (extract_red_balls (py_take dataset_size historical_data)) g)) * 28
            + min (real (length (extract_red_balls (py_take dataset_size historical_data))) / 400) 1 * 10) 72"
  unfolding forest_predict_real[OF assms] meta_lookup_def validate_prediction_meta
    validate_prediction_conf
  by simp_all

lemma not_fallback_without_flag:
  "meta_lookup r ''fallback'' = None \<Longrightarrow> \<not> has_fallback_flag r \<and> \<not> is_fallback r"
  by (simp add: has_fallback_flag_def is_fallback_def)

lemma forest_predict_19:
  assumes "list_all well_formed_draw historical_data" "length historical_data = 19"
    "HAS_SKLEARN env" "19 \<le> dataset_size"
  shows "confidence (fst (forest_predict env historical_data dataset_size g)) = 2603 / 40"
    "meta_lookup (fst (forest_predict env historical_data dataset_size g)) ''fallback'' = None"
    "\<not> is_fallback (fst (forest_predict env historical_data dataset_size g))"
proof -
  have n: "int (length historical_data) \<le> dataset_size" using assms(2,4) by simp
  have l: "length (extract_red_balls (py_take dataset_size historical_data)) = 19"
    using extract_red_balls_length[OF assms(1) n] assms(2) by simp
  have a: "lookback + 10 \<le> length historical_data"
    "lookback + 10 \<le> length (extract_red_balls (py_take dataset_size historical_data))"
    using assms(2) l by (simp_all add: lookback_def)
  have s: "predict_red_balls env (extract_red_balls (py_take dataset_size historical_data)) g
     = ((frequency_based_selection (extract_red_balls (py_take dataset_size historical_data)),
         45 / 100), g)"
    by (rule predict_red_balls_small) (simp add: l lookback_def)
  show "confidence (fst (forest_predict env historical_data dataset_size g)) = 2603 / 40"
    unfolding forest_real_meta(3)[OF assms(3) a] s l by simp
  show m: "meta_lookup (fst (forest_predict env historical_data dataset_size g)) ''fallback'' = None"
    by (rule forest_real_meta(1)[OF assms(3) a])
  show "\<not> is_fallback (fst (forest_predict env historical_data dataset_size g))"
    using not_fallback_without_flag[OF m] by simp
qed

lemma forest_predict_no_sklearn:
  assumes "list_all well_formed_draw historical_data" "historical_data \<noteq> []"
    "\<not> HAS_SKLEARN env" "int (length historical_data) \<le> dataset_size"
  shows "confidence (fst (forest_predict env historical_data dataset_size g)) = 55"
    "has_fallback_flag (fst (forest_predict env historical_data dataset_size g))"
    "\<not> is_fallback (fst (forest_predict env historical_data dataset_size g))"
proof -
  have m: "min dataset_size (int (length historical_data)) = int (length historical_data)"
    using assms(4) by simp
  have "extract_red_balls (py_take (min dataset_size (int (length historical_data))) historical_data)
        = map get_red historical_data"
    unfolding m using assms(1) by (simp add: py_take_all extract_red_balls_well_formed)
  then have ne: "extract_red_balls (py_take (min dataset_size (int (length historical_data))) historical_data) \<noteq> []"
    using assms(2) by simp
  have f: "forest_predict env historical_data dataset_size g
           = fallback_predict historical_data dataset_size g"
    using assms(3) by (simp add: forest_predict_def)
  show c: "confidence (fst (forest_predict env historical_data dataset_size g)) = 55"
    unfolding f by (rule fallback_predict_degraded(1)[OF assms(2) ne])
  show "has_fallback_flag (fst (forest_predict env historical_data dataset_size g))"
    unfolding f has_fallback_flag_def meta_lookup_def
      fallback_predict_degraded(2)[OF assms(2) ne] by simp
  show "\<not> is_fallback (fst (forest_predict env historical_data dataset_size g))"
    using c by (simp add: is_fallback_def)
qed

lemma real_path_49:
  assumes "list_all well_formed_draw historical_data" "length historical_data = 49"
    "49 \<le> dataset_size"
  shows "30 \<le> length historical_data"
    "30 \<le> length (extract_red_balls (py_take dataset_size historical_data))"
    "length (extract_red_balls (py_take dataset_size historical_data)) = 49"
    "length (fst (prepare_training_data (extract_red_balls (py_take dataset_size historical_data)))) = 44"
proof -
  have n: "int (length historical_data) \<le> dataset_size" using assms(2,3) by simp
  show l: "length (extract_red_balls (py_take dataset_size historical_data)) = 49"
    using extract_red_balls_length[OF assms(1) n] assms(2) by simp
  show "30 \<le> length historical_data" using assms(2) by simp
  show "30 \<le> length (extract_red_balls (py_take dataset_size historical_data))" using l by simp
  have "\<forall>d\<in>set (extract_red_balls (py_take dataset_size historical_data)). length d = 6"
    by (auto simp: extract_red_balls_def)
  from prepare_training_data_length_eq[OF this]
  show "length (fst (prepare_training_data (extract_red_balls (py_take dataset_size historical_data)))) = 44"
    using l by (simp add: lookback_def)
qed

lemma well_formed_replicate:
  "0 < n \<Longrightarrow> well_formed_draw d \<Longrightarrow> list_all well_formed_draw (replicate n d)"
  by (simp add: list_all_iff)

lemma sample_draw_well_formed: "well_formed_draw sample_draw"
  by (simp add: sample_draw_def well_formed_draw_def get_red_def get_blue_def in_pool_def)

section \<open>C1: the shape of every prediction\<close>

text \<open>
  C1. For every predictor (frequency, trend, forest, sequence-memory, ensemble with any
  weights), every input history, every dataset size, every environment and every state
  of the random generator, the result of \<open>predict\<close> has exactly 6 distinct red numbers
  in [1,33], sorted ascending, and a blue number in [1,16].  No restriction on the
  history is needed.
\<close>

theorem predict_valid_shape:
  "valid_shape (fst (predict env p historical_data dataset_size g))
   \<and> length (red_balls (fst (predict env p historical_data dataset_size g))) = 6
   \<and> distinct (red_balls (fst (predict env p historical_data dataset_size g)))
   \<and> sorted (red_balls (fst (predict env p historical_data dataset_size g)))
   \<and> set (red_balls (fst (predict env p historical_data dataset_size g))) \<subseteq> {1..33}
   \<and> 1 \<le> blue_ball (fst (predict env p historical_data dataset_size g))
   \<and> blue_ball (fst (predict env p historical_data dataset_size g)) \<le> 16"
  using predict_valid[of env p historical_data dataset_size g]
  by (simp add: valid_shape_def in_pool_iff)

text \<open>The theorem at the frequency predictor on a two-draw history, where the six most
  frequent numbers are computed.\<close>

theorem predict_valid_shape_witness:
  "red_balls (fst (predict
      env_sklearn
      FrequencyPredictor
      [\<lparr>key_red_balls = Some [7, 8, 9, 10, 11, 12], key_redBalls = None,
        key_blue_ball = Some 8, key_blueBall = None\<rparr>,
       \<lparr>key_red_balls = Some [7, 8, 9, 10, 11, 30], key_redBalls = None,
        key_blue_ball = Some 3, key_blueBall = None\<rparr>] 50 [])) = [7, 8, 9, 10, 11, 12]
   \<and> valid_shape (fst (predict
      env_sklearn
      FrequencyPredictor
      [\<lparr>key_red_balls = Some [7, 8, 9, 10, 11, 12], key_redBalls = None,
        key_blue_ball = Some 8, key_blueBall = None\<rparr>,
       \<lparr>key_red_balls = Some [7, 8, 9, 10, 11, 30], key_redBalls = None,
        key_blue_ball = Some 3, key_blueBall = None\<rparr>] 50 []))"
proof -
  let ?H = "[\<lparr>key_red_balls = Some [7, 8, 9, 10, 11, 12], key_redBalls = None,
        key_blue_ball = Some 8, key_blueBall = None\<rparr>,
       \<lparr>key_red_balls = Some [7, 8, 9, 10, 11, 30], key_redBalls = None,
        key_blue_ball = Some 3, key_blueBall = None\<rparr>]"
  have e: "extract_red_balls (py_take 50 ?H) = [[7, 8, 9, 10, 11, 12], [7, 8, 9, 10, 11, 30]]"
    by (simp add: extract_red_balls_def py_take_def get_red_def)
  have t: "sort (map fst (take 6 (sorted_by_value_desc
      (calculate_frequency (concat [[7, 8, 9, 10, 11, 12], [7, 8, 9, 10, 11, 30]]) 33))))
      = [7, 8, 9, 10, 11, 12]"
    by (simp add: calculate_frequency_def sorted_by_value_desc_def upto.simps)
  have "red_balls (fst (frequency_predict ?H 50 [])) = [7, 8, 9, 10, 11, 12]"
    using frequency_predict_nonfallback[of ?H 50 "[]" "[]"] e t by auto
  then show ?thesis
    using predict_valid_shape[of
      env_sklearn
      FrequencyPredictor ?H 50 "[]"]
    by simp
qed

section \<open>C2: empty history\<close>

text \<open>
  C2. For every predictor (frequency, trend, forest, sequence-memory, ensemble with any
  weights), every environment, every dataset size and every state of the random
  generator, \<open>predict\<close> on the empty history returns the random fallback: a validly
  shaped result (6 distinct sorted red numbers in [1,33], a blue number in [1,16]) with
  confidence exactly 30 and the metadata \<open>{'fallback': True}\<close>.  The result is a value
  of the model in every case, so no predictor raises.
\<close>

theorem predict_empty_history_fallback:
  "predict env p [] dataset_size g = generate_random_fallback g
   \<and> valid_shape (fst (predict env p [] dataset_size g))
   \<and> confidence (fst (predict env p [] dataset_size g)) = 30
   \<and> metadata (fst (predict env p [] dataset_size g)) = Some [(''fallback'', MBool True)]
   \<and> is_fallback (fst (predict env p [] dataset_size g))"
  unfolding predict_empty
  by (simp add: generate_random_fallback_valid generate_random_fallback_result
      generate_random_fallback_is_fallback)

text \<open>The theorem at the ensemble with its default weights.\<close>

theorem predict_empty_history_fallback_witness:
  "fst (predict env_sklearn
         (EnsemblePredictor_init None) [] 50 [3, 1, 4, 1, 5, 9, 2])
     = \<lparr>red_balls = [2, 3, 4, 7, 10, 15], blue_ball = 3, confidence = 30,
        metadata = Some [(''fallback'', MBool True)]\<rparr>
   \<and> valid_shape (fst (predict env_sklearn
         (EnsemblePredictor_init None) [] 50 [3, 1, 4, 1, 5, 9, 2]))"
proof -
  have "fst (generate_random_fallback [3, 1, 4, 1, 5, 9, 2])
     = \<lparr>red_balls = [2, 3, 4, 7, 10, 15], blue_ball = 3, confidence = 30,
        metadata = Some [(''fallback'', MBool True)]\<rparr>"
  proof -
    have six: "(6::nat) = Suc (Suc (Suc (Suc (Suc (Suc 0)))))" by simp
    show ?thesis
      unfolding generate_random_fallback_def six by (simp add: randint_def upto.simps)
  qed
  then show ?thesis
    using predict_empty_history_fallback[of
      env_sklearn
      "EnsemblePredictor_init None" 50 "[3, 1, 4, 1, 5, 9, 2]"]
    by metis
qed

section \<open>C3: the confidence lies between 0 and the predictor's ceiling\<close>

text \<open>
  C3. For every predictor and every input history (every dataset size and state of the
  random generator), the returned confidence lies in [0, ceiling of that predictor]:
  frequency 75, trend 70, forest 72, sequence-memory 68, ensemble 80; it is never
  negative, also on the fallback paths.  The trend slope is taken over five
  moving-average points of a 0/1 series, so it is at least -3/10 and the trend
  confidence at least 44.  The forest's confidence adds the classifier's slot
  probabilities, which are assumed not negative.
\<close>

theorem predict_confidence_bounds:
  assumes "nonneg_probabilities env"
  shows "0 \<le> confidence (fst (predict env p historical_data dataset_size g))
       \<and> confidence (fst (predict env p historical_data dataset_size g)) \<le> max_confidence p"
proof (cases p)
  case FrequencyPredictor
  then show ?thesis using frequency_predict_confidence by simp
next
  case TrendPredictor
  then show ?thesis using trend_predict_confidence by simp
next
  case RandomForestPredictor
  then show ?thesis using forest_predict_confidence[OF assms] by simp
next
  case LSTMPredictor
  then show ?thesis using lstm_predict_confidence by simp
next
  case (EnsemblePredictor ws)
  then show ?thesis using ensemble_predict_confidence by simp
qed

text \<open>The theorem at the forest predictor on 30 copies of the fixture's first draw,
  with a classifier that reports the probability 1/2 for its predicted value in each of
  its six slots: the classifier is trained on 25 examples and the confidence is
  52 + 0.5 * 28 + 30/400 * 10 = 66.75.\<close>

theorem predict_confidence_bounds_witness:
  "nonneg_probabilities env_even_slots
   \<and> confidence (fst (predict env_even_slots RandomForestPredictor
         (replicate 30 sample_draw) 50 [])) = 267 / 4
   \<and> 0 \<le> confidence (fst (predict env_even_slots RandomForestPredictor
         (replicate 30 sample_draw) 50 []))
   \<and> confidence (fst (predict env_even_slots RandomForestPredictor
         (replicate 30 sample_draw) 50 [])) \<le> max_confidence RandomForestPredictor"
proof -
  let ?H = "replicate 30 sample_draw"
  have h: "nonneg_probabilities env_even_slots"
    by (auto simp: nonneg_probabilities_def env_even_slots_def)
  have wf: "list_all well_formed_draw ?H"
    by (rule well_formed_replicate[OF _ sample_draw_well_formed]) simp
  have l: "length (extract_red_balls (py_take 50 ?H)) = 30"
    using extract_red_balls_length[OF wf, of 50] by simp
  have six: "\<forall>d\<in>set (extract_red_balls (py_take 50 ?H)). length d = 6"
    by (auto simp: extract_red_balls_def)
  have x: "length (fst (prepare_training_data (extract_red_balls (py_take 50 ?H)))) = 25"
    using prepare_training_data_length_eq[OF six] l by (simp add: lookback_def)
  have p: "snd (fst (predict_red_balls env_even_slots
               (extract_red_balls (py_take 50 ?H)) [])) = 1 / 2"
    using x by (simp add: predict_red_balls_def Let_def case_prod_beta env_even_slots_def
        mean_def dict_get_def sum_list_replicate)
  have a: "HAS_SKLEARN env_even_slots" "lookback + 10 \<le> length ?H"
    "lookback + 10 \<le> length (extract_red_balls (py_take 50 ?H))"
    using l by (simp_all add: env_even_slots_def lookback_def)
  have v: "confidence (fst (predict env_even_slots RandomForestPredictor ?H 50 [])) = 267 / 4"
    using forest_real_meta(3)[OF a, of "[]"] p l by simp
  show ?thesis
    using predict_confidence_bounds[OF h, of RandomForestPredictor ?H 50 "[]"] h v
    by blast
qed

section \<open>C4: 49 draws and 19 draws\<close>

text \<open>
  C4, as stated, fails for the forest predictor on 19 draws: its threshold is
  \<open>lookback + 10 = 15\<close> draws, so on 19 well-formed draws it does not return the random
  fallback.  With the classifier library present it returns its frequency-based
  selection through the validator, with confidence 52 + 0.45 * 28 + 19/400 * 10 = 65.075
  and without a fallback flag; with the library absent it returns the frequency-based
  fallback with confidence 55.  Neither is the fallback shape (confidence 30 with the
  flag).
\<close>

theorem forest_19_draws_counterexample:
  "\<not> is_fallback (fst (predict env_sklearn
      RandomForestPredictor (replicate 19 sample_draw) 50 []))
   \<and> confidence (fst (predict env_sklearn
      RandomForestPredictor (replicate 19 sample_draw) 50 [])) = 2603 / 40
   \<and> \<not> has_fallback_flag (fst (predict env_sklearn
      RandomForestPredictor (replicate 19 sample_draw) 50 []))
   \<and> \<not> is_fallback (fst (predict env_no_sklearn
      RandomForestPredictor (replicate 19 sample_draw) 50 []))
   \<and> confidence (fst (predict env_no_sklearn
      RandomForestPredictor (replicate 19 sample_draw) 50 [])) = 55"
proof -
  let ?H = "replicate 19 sample_draw"
  have wf: "list_all well_formed_draw ?H"
    by (rule well_formed_replicate[OF _ sample_draw_well_formed]) simp
  have l: "length ?H = 19" by simp
  have a: "confidence (fst (forest_predict env_sklearn ?H 50 [])) = 2603 / 40"
    "meta_lookup (fst (forest_predict env_sklearn ?H 50 [])) ''fallback'' = None"
    "\<not> is_fallback (fst (forest_predict env_sklearn ?H 50 []))"
    by (rule forest_predict_19[OF wf l], simp add: env_sklearn_def, simp)+
  have b: "confidence (fst (forest_predict env_no_sklearn ?H 50 [])) = 55"
    "\<not> is_fallback (fst (forest_predict env_no_sklearn ?H 50 []))"
    by (rule forest_predict_no_sklearn[OF wf], simp, simp add: env_no_sklearn_def, simp)+
  show ?thesis
    using a b not_fallback_without_flag[OF a(2)] by simp
qed

text \<open>
  C4, amended. With the classifier library available and an analysis window that covers
  the history: given exactly 49 well-formed draws, the trend, sequence-memory and forest
  predictors each run their real algorithm on all 49 draws (the forest trains on 44
  examples) and do not return the fallback shape; given exactly 19 well-formed draws,
  the trend and sequence-memory predictors return the fallback shape, and the forest
  predictor, whose minimum is 15 draws, returns its frequency-based selection with
  confidence 65.075 and no fallback flag.
\<close>

theorem history_length_thresholds:
  assumes "list_all well_formed_draw historical_data" and "HAS_SKLEARN env"
    and "int (length historical_data) \<le> dataset_size"
  shows "(length historical_data = 49 \<longrightarrow>
            \<not> is_fallback (fst (predict env TrendPredictor historical_data dataset_size g))
          \<and> meta_lookup (fst (predict env TrendPredictor historical_data dataset_size g))
                ''data_points'' = Some (MInt 49)
          \<and> \<not> is_fallback (fst (predict env LSTMPredictor historical_data dataset_size g))
          \<and> meta_lookup (fst (predict env LSTMPredictor historical_data dataset_size g))
                ''training_samples'' = Some (MInt 49)
          \<and> \<not> is_fallback (fst (predict env RandomForestPredictor historical_data dataset_size g))
          \<and> meta_lookup (fst (predict env RandomForestPredictor historical_data dataset_size g))
                ''training_samples'' = Some (MInt 49)
          \<and> length (fst (prepare_training_data
                (extract_red_balls (py_take dataset_size historical_data)))) = 44)
       \<and> (length historical_data = 19 \<longrightarrow>
            is_fallback (fst (predict env TrendPredictor historical_data dataset_size g))
          \<and> is_fallback (fst (predict env LSTMPredictor historical_data dataset_size g))
          \<and> \<not> is_fallback (fst (predict env RandomForestPredictor historical_data dataset_size g))
          \<and> \<not> has_fallback_flag
                (fst (predict env RandomForestPredictor historical_data dataset_size g))
          \<and> confidence (fst (predict env RandomForestPredictor historical_data dataset_size g))
                = 2603 / 40)"
proof (intro conjI impI)
  assume l: "length historical_data = 49"
  have n: "49 \<le> dataset_size" using assms(3) l by simp
  note r = real_path_49[OF assms(1) l n]
  have f: "lookback + 10 \<le> length historical_data"
    "lookback + 10 \<le> length (extract_red_balls (py_take dataset_size historical_data))"
    using r(1,2) by (simp_all add: lookback_def)
  show "\<not> is_fallback (fst (predict env TrendPredictor historical_data dataset_size g))"
    using not_fallback_without_flag[OF trend_real_meta(1)[OF r(1,2)]] by simp
  show "meta_lookup (fst (predict env TrendPredictor historical_data dataset_size g))
                ''data_points'' = Some (MInt 49)"
    using trend_real_meta(2)[OF r(1,2), of env g] r(3) by simp
  show "\<not> is_fallback (fst (predict env LSTMPredictor historical_data dataset_size g))"
    using not_fallback_without_flag[OF lstm_real_meta(1)[OF r(1,2)]] by simp
  show "meta_lookup (fst (predict env LSTMPredictor historical_data dataset_size g))
                ''training_samples'' = Some (MInt 49)"
    using lstm_real_meta(2)[OF r(1,2), of g] r(3) by simp
  show "\<not> is_fallback (fst (predict env RandomForestPredictor historical_data dataset_size g))"
    using not_fallback_without_flag[OF forest_real_meta(1)[OF assms(2) f]] by simp
  show "meta_lookup (fst (predict env RandomForestPredictor historical_data dataset_size g))
                ''training_samples'' = Some (MInt 49)"
    using forest_real_meta(2)[OF assms(2) f, of g] r(3) by simp
  show "length (fst (prepare_training_data
                (extract_red_balls (py_take dataset_size historical_data)))) = 44"
    by (rule r(4))
next
  assume l: "length historical_data = 19"
  have n: "19 \<le> dataset_size" using assms(3) l by simp
  have t: "trend_predict env historical_data dataset_size g = generate_random_fallback g"
    by (rule trend_predict_fallback) (simp add: l)
  have s: "lstm_predict historical_data dataset_size g = generate_random_fallback g"
    by (rule lstm_predict_fallback) (simp add: l)
  note f = forest_predict_19[OF assms(1) l assms(2) n, of g]
  show "is_fallback (fst (predict env TrendPredictor historical_data dataset_size g))"
    by (simp add: t generate_random_fallback_is_fallback)
  show "is_fallback (fst (predict env LSTMPredictor historical_data dataset_size g))"
    by (simp add: s generate_random_fallback_is_fallback)
  show "\<not> is_fallback (fst (predict env RandomForestPredictor historical_data dataset_size g))"
    using f(3) by simp
  show "\<not> has_fallback_flag
                (fst (predict env RandomForestPredictor historical_data dataset_size g))"
    using not_fallback_without_flag[OF f(2)] by simp
  show "confidence (fst (predict env RandomForestPredictor historical_data dataset_size g))
                = 2603 / 40"
    using f(1) by simp
qed

text \<open>The theorem at 49 and at 19 copies of the first draw of the test fixture.\<close>

theorem history_length_thresholds_witness:
  "list_all well_formed_draw (replicate 49 sample_draw)
   \<and> \<not> is_fallback (fst (predict env_sklearn
      TrendPredictor (replicate 49 sample_draw) 50 []))
   \<and> \<not> is_fallback (fst (predict env_sklearn
      LSTMPredictor (replicate 49 sample_draw) 50 []))
   \<and> \<not> is_fallback (fst (predict env_sklearn
      RandomForestPredictor (replicate 49 sample_draw) 50 []))
   \<and> is_fallback (fst (predict env_sklearn
      TrendPredictor (replicate 19 sample_draw) 50 []))
   \<and> is_fallback (fst (predict env_sklearn
      LSTMPredictor (replicate 19 sample_draw) 50 []))
   \<and> \<not> is_fallback (fst (predict env_sklearn
      RandomForestPredictor (replicate 19 sample_draw) 50 []))"
proof -
  let ?d = sample_draw
  let ?env = env_sklearn
  have w49: "list_all well_formed_draw (replicate 49 ?d)"
    by (rule well_formed_replicate[OF _ sample_draw_well_formed]) simp
  have w19: "list_all well_formed_draw (replicate 19 ?d)"
    by (rule well_formed_replicate[OF _ sample_draw_well_formed]) simp
  have sk: "HAS_SKLEARN ?env" by (simp add: env_sklearn_def)
  have n49: "int (length (replicate 49 ?d)) \<le> 50" and l49: "length (replicate 49 ?d) = 49"
    by simp_all
  have n19: "int (length (replicate 19 ?d)) \<le> 50" and l19: "length (replicate 19 ?d) = 19"
    by simp_all
  show ?thesis
    using history_length_thresholds[OF w49 sk n49, of "[]"]
      history_length_thresholds[OF w19 sk n19, of "[]"] w49 l49 l19
    by blast
qed

section \<open>C5: the overdue gap score\<close>

text \<open>
  C5, as stated, fails: the scan of \<open>_current_gap_scores\<close> enumerates the history as it
  is supplied, newest draw first, so the recorded index is that of the first occurrence
  scanning newest to oldest.  In the two-draw history below, number 1 is in the newest
  draw only: the code scores it 0, the specification's oldest-to-newest index gives 1/2.
\<close>

theorem current_gap_scores_counterexample:
  "dict_get (current_gap_scores
      [\<lparr>key_red_balls = Some [1, 2, 3, 4, 5, 6], key_redBalls = None,
        key_blue_ball = Some 7, key_blueBall = None\<rparr>,
       \<lparr>key_red_balls = Some [7, 8, 9, 10, 11, 12], key_redBalls = None,
        key_blue_ball = Some 8, key_blueBall = None\<rparr>] 33 True) 1 0 = 0
   \<and> spec_overdue_gap_score
      [\<lparr>key_red_balls = Some [1, 2, 3, 4, 5, 6], key_redBalls = None,
        key_blue_ball = Some 7, key_blueBall = None\<rparr>,
       \<lparr>key_red_balls = Some [7, 8, 9, 10, 11, 12], key_redBalls = None,
        key_blue_ball = Some 8, key_blueBall = None\<rparr>] True 1 = 1 / 2"
proof -
  let ?H = "[\<lparr>key_red_balls = Some [1, 2, 3, 4, 5, 6], key_redBalls = None,
        key_blue_ball = Some 7, key_blueBall = None\<rparr>,
       \<lparr>key_red_balls = Some [7, 8, 9, 10, 11, 12], key_redBalls = None,
        key_blue_ball = Some 8, key_blueBall = None\<rparr>]"
  have "map_of (current_gap_scores ?H 33 True) 1
        = Some (real (first_index True 1 ?H) / real (length ?H))"
    by (rule current_gap_scores_first_index) simp_all
  then have "dict_get (current_gap_scores ?H 33 True) 1 0 = 0"
    by (simp add: dict_get_def first_index_def draw_values_def get_red_def)
  moreover have "spec_overdue_gap_score ?H True 1 = 1 / 2"
    by (simp add: spec_overdue_gap_score_def first_index_def draw_values_def get_red_def)
  ultimately show ?thesis by blast
qed

text \<open>
  C5, amended. For a non-empty history supplied newest first and every pool number, the
  overdue gap score of the statistical probability table equals the index of the number's
  first occurrence in the list as supplied (scanning newest to oldest, so the number of
  draws since it was last seen), divided by the history length; a number never seen
  scores the maximum, 1.
\<close>

theorem current_gap_scores_newest_first:
  assumes "historical_data \<noteq> []" and "1 \<le> num" and "num \<le> range_max"
  shows "dict_get (current_gap_scores historical_data range_max is_red) num 0
           = real (first_index is_red num historical_data) / real (length historical_data)
       \<and> dict_get (current_gap_scores historical_data range_max is_red) num 0 \<le> 1
       \<and> ((\<forall>d\<in>set historical_data. num \<notin> set (draw_values is_red d)) \<longrightarrow>
            dict_get (current_gap_scores historical_data range_max is_red) num 0 = 1)"
proof -
  have eq: "dict_get (current_gap_scores historical_data range_max is_red) num 0
           = real (first_index is_red num historical_data) / real (length historical_data)"
    using current_gap_scores_first_index[OF assms] by (simp add: dict_get_def)
  have pos: "0 < real (length historical_data)" using assms(1) by simp
  have le: "real (first_index is_red num historical_data) \<le> real (length historical_data)"
    using first_index_le by simp
  have le1: "real (first_index is_red num historical_data) / real (length historical_data) \<le> 1"
    using pos le by (simp add: divide_le_eq_1)
  have never: "real (first_index is_red num historical_data) / real (length historical_data) = 1"
    if nv: "\<forall>d\<in>set historical_data. num \<notin> set (draw_values is_red d)"
  proof -
    have "takeWhile (\<lambda>d. num \<notin> set (draw_values is_red d)) historical_data = historical_data"
      using nv by (simp add: takeWhile_eq_all_conv)
    then have "first_index is_red num historical_data = length historical_data"
      unfolding first_index_def by (rule arg_cong)
    then show ?thesis using pos by simp
  qed
  show ?thesis
    unfolding eq using le1 never by blast
qed

text \<open>The theorem at a three-draw history: number 9 was last seen one draw ago, number
  30 never.\<close>

theorem current_gap_scores_newest_first_witness:
  "dict_get (current_gap_scores
      [\<lparr>key_red_balls = Some [1, 2, 3, 4, 5, 6], key_redBalls = None,
        key_blue_ball = Some 7, key_blueBall = None\<rparr>,
       \<lparr>key_red_balls = Some [7, 8, 9, 10, 11, 12], key_redBalls = None,
        key_blue_ball = Some 8, key_blueBall = None\<rparr>,
       \<lparr>key_red_balls = None, key_redBalls = Some [1, 9, 13, 14, 15, 16],
        key_blue_ball = None, key_blueBall = Some 3\<rparr>] 33 True) 9 0 = 1 / 3
   \<and> dict_get (current_gap_scores
      [\<lparr>key_red_balls = Some [1, 2, 3, 4, 5, 6], key_redBalls = None,
        key_blue_ball = Some 7, key_blueBall = None\<rparr>,
       \<lparr>key_red_balls = Some [7, 8, 9, 10, 11, 12], key_redBalls = None,
        key_blue_ball = Some 8, key_blueBall = None\<rparr>,
       \<lparr>key_red_balls = None, key_redBalls = Some [1, 9, 13, 14, 15, 16],
        key_blue_ball = None, key_blueBall = Some 3\<rparr>] 33 True) 30 0 = 1"
proof -
  let ?H = "[\<lparr>key_red_balls = Some [1, 2, 3, 4, 5, 6], key_redBalls = None,
        key_blue_ball = Some 7, key_blueBall = None\<rparr>,
       \<lparr>key_red_balls = Some [7, 8, 9, 10, 11, 12], key_redBalls = None,
        key_blue_ball = Some 8, key_blueBall = None\<rparr>,
       \<lparr>key_red_balls = None, key_redBalls = Some [1, 9, 13, 14, 15, 16],
        key_blue_ball = None, key_blueBall = Some 3\<rparr>]"
  have ne: "?H \<noteq> []" by simp
  have f9: "real (first_index True 9 ?H) / real (length ?H) = 1 / 3"
    by (simp add: first_index_def draw_values_def get_red_def)
  have n30: "\<forall>d\<in>set ?H. 30 \<notin> set (draw_values True d)"
    by (simp add: draw_values_def get_red_def)
  have "dict_get (current_gap_scores ?H 33 True) 9 0 = 1 / 3"
    using current_gap_scores_newest_first[OF ne, of 9 33 True] f9 by simp
  moreover have "dict_get (current_gap_scores ?H 33 True) 30 0 = 1"
    using current_gap_scores_newest_first[OF ne, of 30 33 True] n30 by simp
  ultimately show ?thesis by blast
qed

section \<open>C6: the ensemble's weights\<close>

text \<open>
  C6, as stated, fails: a supplied mapping of non-negative weights that are all zero is
  kept as it is (the zero total is replaced by 1), so the constructed weights sum to 0;
  \<open>update_weights\<close> does the same with metrics that total zero, and turns a negative
  metric into a negative weight.
\<close>

theorem ensemble_weights_counterexample:
  "sum_list (map snd (weights (EnsemblePredictor_init (Some [(''frequency'', 0), (''trend'', 0)])))) = 0
   \<and> sum_list (map snd (weights (EnsemblePredictor_init (Some [(''frequency'', 0), (''trend'', 0)])))) \<noteq> 1
   \<and> sum_list (map snd (weights (update_weights (EnsemblePredictor default_weights) [(''frequency'', 0)]))) = 0
   \<and> weights (update_weights (EnsemblePredictor default_weights) [(''frequency'', 2), (''trend'', - 1)])
       = [(''frequency'', 2), (''trend'', - 1)]"
  by (simp add: EnsemblePredictor_init_def total_or_one_def)

text \<open>
  C6, amended. Over the reals, the ensemble's weights sum to 1 when it is constructed
  with no mapping or an empty mapping (both take the defaults) or with a mapping whose
  values do not total zero, and after \<open>update_weights\<close> with a mapping whose values do
  not total zero; every weight is non-negative when the supplied weights, or the
  supplied non-empty metrics, are non-negative.  \<open>update_weights\<close> with an empty
  mapping leaves the weights as they are.
\<close>

theorem ensemble_weights_normalized:
  "(sum_list (map snd d) \<noteq> 0 \<longrightarrow>
      sum_list (map snd (weights (EnsemblePredictor_init (Some d)))) = 1
    \<and> sum_list (map snd (weights (update_weights (EnsemblePredictor w) d))) = 1)
   \<and> ((\<forall>p\<in>set d. 0 \<le> snd p) \<longrightarrow>
        (\<forall>p\<in>set (weights (EnsemblePredictor_init (Some d))). 0 \<le> snd p)
      \<and> (d \<noteq> [] \<longrightarrow>
           (\<forall>p\<in>set (weights (update_weights (EnsemblePredictor w) d)). 0 \<le> snd p)))
   \<and> sum_list (map snd (weights (EnsemblePredictor_init None))) = 1
   \<and> (\<forall>p\<in>set (weights (EnsemblePredictor_init None)). 0 \<le> snd p)
   \<and> weights (EnsemblePredictor_init (Some [])) = weights (EnsemblePredictor_init None)
   \<and> update_weights (EnsemblePredictor w) [] = EnsemblePredictor w"
proof (intro conjI impI)
  assume nz: "sum_list (map snd d) \<noteq> 0"
  then have ne: "d \<noteq> []" by auto
  have t: "total_or_one d = sum_list (map snd d)" using nz by (simp add: total_or_one_def)
  have s: "sum_list (map snd (map (\<lambda>(k, v). (k, v / sum_list (map snd d))) d)) = 1"
    unfolding sum_list_scaled using nz by simp
  show "sum_list (map snd (weights (EnsemblePredictor_init (Some d)))) = 1"
    using ne t s by (simp add: EnsemblePredictor_init_def)
  show "sum_list (map snd (weights (update_weights (EnsemblePredictor w) d))) = 1"
    using ne t s by simp
next
  assume nn: "\<forall>p\<in>set d. 0 \<le> snd p"
  have dn: "\<forall>p\<in>set default_weights. 0 \<le> snd p" by (simp add: default_weights_def)
  show "\<forall>p\<in>set (weights (EnsemblePredictor_init (Some d))). 0 \<le> snd p"
  proof (cases "d = []")
    case True
    then show ?thesis using dn by (simp add: init_default)
  next
    case False
    then show ?thesis using scaled_nonneg_any[OF nn] by (simp add: EnsemblePredictor_init_def)
  qed
  show "\<forall>p\<in>set (weights (update_weights (EnsemblePredictor w) d)). 0 \<le> snd p" if "d \<noteq> []"
    using that scaled_nonneg_any[OF nn] by simp
next
  show "sum_list (map snd (weights (EnsemblePredictor_init None))) = 1"
    by (simp add: init_default default_weights_total)
  show "\<forall>p\<in>set (weights (EnsemblePredictor_init None)). 0 \<le> snd p"
    by (simp add: init_default default_weights_def)
  show "weights (EnsemblePredictor_init (Some [])) = weights (EnsemblePredictor_init None)"
    by (simp add: init_default)
  show "update_weights (EnsemblePredictor w) [] = EnsemblePredictor w" by simp
qed

text \<open>The theorem at the mapping \<open>{'frequency': 1, 'trend': 3}\<close>.\<close>

theorem ensemble_weights_normalized_witness:
  "sum_list (map snd [(''frequency'', 1), (''trend'', 3 :: real)]) \<noteq> 0
   \<and> weights (EnsemblePredictor_init (Some [(''frequency'', 1), (''trend'', 3)]))
       = [(''frequency'', 1 / 4), (''trend'', 3 / 4)]
   \<and> sum_list (map snd (weights (EnsemblePredictor_init (Some [(''frequency'', 1), (''trend'', 3)])))) = 1
   \<and> sum_list (map snd (weights (update_weights (EnsemblePredictor default_weights) [(''frequency'', 1), (''trend'', 3)]))) = 1
   \<and> 0 \<le> snd (weights (update_weights (EnsemblePredictor default_weights) [(''frequency'', 1), (''trend'', 3)]) ! 0)"
proof -
  let ?d = "[(''frequency'', 1), (''trend'', 3)] :: (string \<times> real) list"
  have h1: "\<forall>p\<in>set ?d. 0 \<le> snd p" by simp
  have h2: "sum_list (map snd ?d) \<noteq> 0" by simp
  have h3: "?d \<noteq> []" by simp
  have e: "weights (EnsemblePredictor_init (Some ?d)) = [(''frequency'', 1 / 4), (''trend'', 3 / 4)]"
    by (simp add: EnsemblePredictor_init_def total_or_one_def)
  have m: "weights (update_weights (EnsemblePredictor default_weights) ?d) ! 0
           \<in> set (weights (update_weights (EnsemblePredictor default_weights) ?d))"
    by (rule nth_mem) (simp add: Let_def)
  show ?thesis
    using ensemble_weights_normalized[of ?d default_weights] h1 h2 h3 e m by blast
qed

section \<open>C7: distribution-balanced selection\<close>

text \<open>
  C7. For every score table (a dictionary, so with distinct keys) that holds at least two
  candidates in each of the bands 1-11, 12-22 and 23-33, in particular for every table
  over the full primary pool, \<open>_select_numbers_with_distribution\<close> returns 6 distinct
  numbers of the table, sorted ascending, of which at most 2 lie in 1-11, at most 2 in
  12-22 and at most 2 in 23-33; when all keys of the table are pool numbers, exactly 2
  lie in each band.
\<close>

theorem select_numbers_with_distribution_bands:
  assumes "distinct (map fst scores)"
    and "2 \<le> length (filter (\<lambda>p. 1 \<le> fst p \<and> fst p \<le> 11) scores)"
    and "2 \<le> length (filter (\<lambda>p. 12 \<le> fst p \<and> fst p \<le> 22) scores)"
    and "2 \<le> length (filter (\<lambda>p. 23 \<le> fst p \<and> fst p \<le> 33) scores)"
  shows "length (select_numbers_with_distribution scores) = 6
       \<and> distinct (select_numbers_with_distribution scores)
       \<and> sorted (select_numbers_with_distribution scores)
       \<and> set (select_numbers_with_distribution scores) \<subseteq> fst ` set scores
       \<and> length (filter (\<lambda>n. 1 \<le> n \<and> n \<le> 11) (select_numbers_with_distribution scores)) \<le> 2
       \<and> length (filter (\<lambda>n. 12 \<le> n \<and> n \<le> 22) (select_numbers_with_distribution scores)) \<le> 2
       \<and> length (filter (\<lambda>n. 23 \<le> n \<and> n \<le> 33) (select_numbers_with_distribution scores)) \<le> 2
       \<and> (fst ` set scores \<subseteq> {1..33} \<longrightarrow>
            length (filter (\<lambda>n. 1 \<le> n \<and> n \<le> 11) (select_numbers_with_distribution scores)) = 2
          \<and> length (filter (\<lambda>n. 12 \<le> n \<and> n \<le> 22) (select_numbers_with_distribution scores)) = 2
          \<and> length (filter (\<lambda>n. 23 \<le> n \<and> n \<le> 33) (select_numbers_with_distribution scores)) = 2)"
proof -
  let ?r = "select_numbers_with_distribution scores"
  have c: "\<forall>g. 2 \<le> cand_count g scores"
    using assms(2,3,4) cand_ranges[of scores] by (simp add: group_UNIV)
  note g = select_numbers_with_distribution_groups[OF assms(1) c]
  have len: "length ?r = 6" and dis: "distinct ?r" and srt: "sorted ?r"
    and sub: "set ?r \<subseteq> fst ` set scores"
    using g by blast+
  have b: "band_count low ?r \<le> 2" "band_count mid ?r \<le> 2" "band_count high ?r \<le> 2"
    using g by blast+
  have le: "length (filter (\<lambda>n. 1 \<le> n \<and> n \<le> 11) ?r) \<le> 2"
    "length (filter (\<lambda>n. 12 \<le> n \<and> n \<le> 22) ?r) \<le> 2"
    "length (filter (\<lambda>n. 23 \<le> n \<and> n \<le> 33) ?r) \<le> 2"
    using b band_ranges[of ?r] by linarith+
  have eq: "length (filter (\<lambda>n. 1 \<le> n \<and> n \<le> 11) ?r) = 2
          \<and> length (filter (\<lambda>n. 12 \<le> n \<and> n \<le> 22) ?r) = 2
          \<and> length (filter (\<lambda>n. 23 \<le> n \<and> n \<le> 33) ?r) = 2"
    if "fst ` set scores \<subseteq> {1..33}"
  proof -
    have "set ?r \<subseteq> {1..33}" using sub that by blast
    from pool_three_bands[OF this] show ?thesis using len le by linarith
  qed
  show ?thesis using len dis srt sub le eq by blast
qed

text \<open>The theorem at the table over the full pool 1..33 in which number \<open>n\<close> scores
  \<open>n\<close>: the two best of each band, 10, 11, 21, 22, 32 and 33, are selected; in the
  table where \<open>n\<close> scores \<open>34 - n\<close> they are 1, 2, 12, 13, 23 and 24.\<close>

theorem select_numbers_with_distribution_bands_witness:
  "distinct (map fst (map (\<lambda>n. (n, real_of_int n)) [1..33]))
   \<and> length (filter (\<lambda>p. 1 \<le> fst p \<and> fst p \<le> 11) (map (\<lambda>n. (n, real_of_int n)) [1..33])) = 11
   \<and> length (filter (\<lambda>p. 12 \<le> fst p \<and> fst p \<le> 22) (map (\<lambda>n. (n, real_of_int n)) [1..33])) = 11
   \<and> length (filter (\<lambda>p. 23 \<le> fst p \<and> fst p \<le> 33) (map (\<lambda>n. (n, real_of_int n)) [1..33])) = 11
   \<and> select_numbers_with_distribution (map (\<lambda>n. (n, real_of_int n)) [1..33])
       = [10, 11, 21, 22, 32, 33]
   \<and> select_numbers_with_distribution (map (\<lambda>n. (n, real_of_int (34 - n))) [1..33])
       = [1, 2, 12, 13, 23, 24]
   \<and> length (filter (\<lambda>n. 1 \<le> n \<and> n \<le> 11)
        (select_numbers_with_distribution (map (\<lambda>n. (n, real_of_int n)) [1..33]))) = 2
   \<and> length (filter (\<lambda>n. 12 \<le> n \<and> n \<le> 22)
        (select_numbers_with_distribution (map (\<lambda>n. (n, real_of_int n)) [1..33]))) = 2
   \<and> length (filter (\<lambda>n. 23 \<le> n \<and> n \<le> 33)
        (select_numbers_with_distribution (map (\<lambda>n. (n, real_of_int n)) [1..33]))) = 2"
proof -
  let ?T = "map (\<lambda>n. (n, real_of_int n)) [1..33]"
  have d: "distinct (map fst ?T)" by (simp add: comp_def)
  have c: "length (filter (\<lambda>p. 1 \<le> fst p \<and> fst p \<le> 11) ?T) = 11"
    "length (filter (\<lambda>p. 12 \<le> fst p \<and> fst p \<le> 22) ?T) = 11"
    "length (filter (\<lambda>p. 23 \<le> fst p \<and> fst p \<le> 33) ?T) = 11"
    by (simp_all add: upto.simps)
  have h: "2 \<le> length (filter (\<lambda>p. 1 \<le> fst p \<and> fst p \<le> 11) ?T)"
    "2 \<le> length (filter (\<lambda>p. 12 \<le> fst p \<and> fst p \<le> 22) ?T)"
    "2 \<le> length (filter (\<lambda>p. 23 \<le> fst p \<and> fst p \<le> 33) ?T)"
    using c by simp_all
  have k: "fst ` set ?T \<subseteq> {1..33}" by auto
  have up: "select_numbers_with_distribution ?T = [10, 11, 21, 22, 32, 33]"
    by (simp add: select_numbers_with_distribution_def sorted_by_value_desc_def upto.simps
        group_for_number_def targets_def Let_def)
  have down: "select_numbers_with_distribution (map (\<lambda>n. (n, real_of_int (34 - n))) [1..33])
       = [1, 2, 12, 13, 23, 24]"
    by (simp add: select_numbers_with_distribution_def sorted_by_value_desc_def upto.simps
        group_for_number_def targets_def Let_def)
  show ?thesis
    using select_numbers_with_distribution_bands[OF d h] k d c up down by blast
qed

section \<open>C8: min-max normalization\<close>

text \<open>
  C8. For every non-empty score table, \<open>_normalize_scores\<close> keeps the keys; when the
  table holds at least two distinct values, every normalized entry lies in [0,1], every
  entry holding the minimum maps to 0, every entry holding the maximum maps to 1, and
  both 0 and 1 are attained; when all values are equal, every normalized entry is 1
  divided by the table size.
\<close>

theorem normalize_scores_span:
  assumes "values \<noteq> []"
  shows "map fst (normalize_scores values) = map fst values
    \<and> ((\<exists>i<length values. \<exists>j<length values. snd (values ! i) \<noteq> snd (values ! j)) \<longrightarrow>
         (\<forall>i<length values.
             0 \<le> snd (normalize_scores values ! i) \<and> snd (normalize_scores values ! i) \<le> 1
           \<and> (snd (values ! i) = Min (snd ` set values) \<longrightarrow> snd (normalize_scores values ! i) = 0)
           \<and> (snd (values ! i) = Max (snd ` set values) \<longrightarrow> snd (normalize_scores values ! i) = 1))
         \<and> (\<exists>i<length values. snd (normalize_scores values ! i) = 0)
         \<and> (\<exists>i<length values. snd (normalize_scores values ! i) = 1))
    \<and> ((\<forall>i<length values. \<forall>j<length values. snd (values ! i) = snd (values ! j)) \<longrightarrow>
         (\<forall>i<length values. snd (normalize_scores values ! i) = 1 / real (length values)))"
proof (intro conjI impI)
  show "map fst (normalize_scores values) = map fst values" by (rule normalize_scores_keys)
next
  assume "\<exists>i<length values. \<exists>j<length values. snd (values ! i) \<noteq> snd (values ! j)"
  then have lt: "Min (snd ` set values) < Max (snd ` set values)"
    using distinct_values_Min_Max by blast
  show "\<forall>i<length values.
             0 \<le> snd (normalize_scores values ! i) \<and> snd (normalize_scores values ! i) \<le> 1
           \<and> (snd (values ! i) = Min (snd ` set values) \<longrightarrow> snd (normalize_scores values ! i) = 0)
           \<and> (snd (values ! i) = Max (snd ` set values) \<longrightarrow> snd (normalize_scores values ! i) = 1)"
    using normalize_scores_var_bounds[OF _ lt] by blast
  show "\<exists>i<length values. snd (normalize_scores values ! i) = 0"
    using values_attain(1)[OF assms] normalize_scores_var_bounds(3)[OF _ lt] by blast
  show "\<exists>i<length values. snd (normalize_scores values ! i) = 1"
    using values_attain(2)[OF assms] normalize_scores_var_bounds(4)[OF _ lt] by blast
next
  assume c: "\<forall>i<length values. \<forall>j<length values. snd (values ! i) = snd (values ! j)"
  obtain i where i: "i < length values" "snd (values ! i) = Min (snd ` set values)"
    using values_attain(1)[OF assms] by blast
  obtain j where j: "j < length values" "snd (values ! j) = Max (snd ` set values)"
    using values_attain(2)[OF assms] by blast
  have "Max (snd ` set values) = Min (snd ` set values)" using c i j by metis
  then show "\<forall>i<length values. snd (normalize_scores values ! i) = 1 / real (length values)"
    using normalize_scores_const_nth by blast
qed

text \<open>The theorem at the table \<open>{1: 2, 2: 5, 3: 3}\<close> and at the constant table
  \<open>{1: 4, 2: 4}\<close>.\<close>

theorem normalize_scores_span_witness:
  "[(1, 2), (2, 5), (3, 3)] \<noteq> ([] :: (int \<times> real) list)
   \<and> snd (normalize_scores [(1, 2), (2, 5), (3, 3)] ! 0) = 0
   \<and> snd (normalize_scores [(1, 2), (2, 5), (3, 3)] ! 1) = 1
   \<and> 0 \<le> snd (normalize_scores [(1, 2), (2, 5), (3, 3)] ! 2)
   \<and> snd (normalize_scores [(1, 2), (2, 5), (3, 3)] ! 2) \<le> 1
   \<and> snd (normalize_scores [(1, 4), (2, 4)] ! 0) = 1 / 2
   \<and> snd (normalize_scores [(1, 4), (2, 4)] ! 1) = 1 / 2"
proof -
  let ?T = "[(1, 2), (2, 5), (3, 3)] :: (int \<times> real) list"
  let ?C = "[(1, 4), (2, 4)] :: (int \<times> real) list"
  have neT: "?T \<noteq> []" and neC: "?C \<noteq> []" by simp_all
  have "(0::nat) < length ?T \<and> (1::nat) < length ?T \<and> snd (?T ! 0) \<noteq> snd (?T ! 1)" by simp
  then have two: "\<exists>i<length ?T. \<exists>j<length ?T. snd (?T ! i) \<noteq> snd (?T ! j)" by blast
  have mn: "snd (?T ! 0) = Min (snd ` set ?T)" and mx: "snd (?T ! 1) = Max (snd ` set ?T)"
    by simp_all
  have lens: "(0::nat) < length ?T" "(1::nat) < length ?T" "(2::nat) < length ?T"
    "(0::nat) < length ?C" "(1::nat) < length ?C" by simp_all
  have const: "\<forall>i<length ?C. \<forall>j<length ?C. snd (?C ! i) = snd (?C ! j)"
    by (simp add: less_Suc_eq)
  have lenC: "1 / real (length ?C) = 1 / 2" by simp
  from normalize_scores_span[OF neT] two
  have T: "\<forall>i<length ?T.
             0 \<le> snd (normalize_scores ?T ! i) \<and> snd (normalize_scores ?T ! i) \<le> 1
           \<and> (snd (?T ! i) = Min (snd ` set ?T) \<longrightarrow> snd (normalize_scores ?T ! i) = 0)
           \<and> (snd (?T ! i) = Max (snd ` set ?T) \<longrightarrow> snd (normalize_scores ?T ! i) = 1)"
    by blast
  from normalize_scores_span[OF neC] const
  have C: "\<forall>i<length ?C. snd (normalize_scores ?C ! i) = 1 / real (length ?C)"
    by blast
  show ?thesis
    using neT T lens(1,2,3) mn mx C lens(4,5) lenC by metis
qed

section \<open>C9: the frequency predictor is deterministic off its fallback path\<close>

text \<open>
  C9. For every history and dataset size for which the frequency predictor does not take
  its fallback path (the history is not empty and the analysis window holds at least one
  draw with six red numbers), two calls of \<open>predict\<close> with that history and dataset
  size return identical results (red numbers, blue number, confidence and metadata),
  whatever the states of the random generator at the two calls; the call consumes no
  randomness.
\<close>

theorem frequency_predict_deterministic:
  assumes "historical_data \<noteq> []"
    and "extract_red_balls (py_take dataset_size historical_data) \<noteq> []"
  shows "fst (frequency_predict historical_data dataset_size g1)
           = fst (frequency_predict historical_data dataset_size g2)
       \<and> snd (frequency_predict historical_data dataset_size g1) = g1"
  using frequency_predict_nonfallback[OF assms, of g1 g2] by auto

text \<open>The theorem at a one-draw history, called at two states of the random generator.\<close>

theorem frequency_predict_deterministic_witness:
  "extract_red_balls (py_take 50
      [\<lparr>key_red_balls = Some [1, 2, 3, 4, 5, 6], key_redBalls = None,
        key_blue_ball = Some 7, key_blueBall = None\<rparr>]) \<noteq> []
   \<and> fst (frequency_predict
      [\<lparr>key_red_balls = Some [1, 2, 3, 4, 5, 6], key_redBalls = None,
        key_blue_ball = Some 7, key_blueBall = None\<rparr>] 50 [3, 1, 4])
     = fst (frequency_predict
      [\<lparr>key_red_balls = Some [1, 2, 3, 4, 5, 6], key_redBalls = None,
        key_blue_ball = Some 7, key_blueBall = None\<rparr>] 50 [])
   \<and> snd (frequency_predict
      [\<lparr>key_red_balls = Some [1, 2, 3, 4, 5, 6], key_redBalls = None,
        key_blue_ball = Some 7, key_blueBall = None\<rparr>] 50 [3, 1, 4]) = [3, 1, 4]"
proof -
  let ?H = "[\<lparr>key_red_balls = Some [1, 2, 3, 4, 5, 6], key_redBalls = None,
        key_blue_ball = Some 7, key_blueBall = None\<rparr>]"
  have h1: "?H \<noteq> []" by simp
  have h2: "extract_red_balls (py_take 50 ?H) \<noteq> []"
    by (simp add: extract_red_balls_def py_take_def get_red_def)
  show ?thesis
    using frequency_predict_deterministic[OF h1 h2, of "[3, 1, 4]" "[]"] h2 by blast
qed

section \<open>C10: the validator on arbitrary input\<close>

text \<open>
  C10. For every input result whatsoever (any list of red integers, any blue integer,
  any confidence) and every state of the random generator, \<open>validate_prediction\<close>
  returns a result with exactly 6 distinct red numbers in strictly ascending order, a blue
  number in [1,16] and a confidence of at most the generator's ceiling.  The model has no
  error branch because no statement of the validator can raise on integers.  The validator
  does not enforce the range of the red numbers: some input has a red number above 33 in
  its output.
\<close>

theorem validate_prediction_total_shape:
  "(length (red_balls (fst (validate_prediction mc res g))) = 6
    \<and> distinct (red_balls (fst (validate_prediction mc res g)))
    \<and> sorted_wrt (<) (red_balls (fst (validate_prediction mc res g)))
    \<and> 1 \<le> blue_ball (fst (validate_prediction mc res g))
    \<and> blue_ball (fst (validate_prediction mc res g)) \<le> 16
    \<and> confidence (fst (validate_prediction mc res g)) \<le> mc)
   \<and> (\<exists>res' g' x. x \<in> set (red_balls (fst (validate_prediction mc res' g'))) \<and> 33 < x)"
proof -
  have "(100::int) \<in> set (red_balls (fst (validate_prediction mc
          \<lparr>red_balls = [1, 2, 3, 4, 5, 100], blue_ball = 1, confidence = 0,
           metadata = None\<rparr> [])))"
    by (simp add: validate_prediction_def)
  then have "\<exists>res' g' x. x \<in> set (red_balls (fst (validate_prediction mc res' g'))) \<and> 33 < x"
    by (intro exI[of _ "\<lparr>red_balls = [1, 2, 3, 4, 5, 100], blue_ball = 1, confidence = 0,
          metadata = None\<rparr>"] exI[of _ "[]"] exI[of _ "100::int"]) simp
  then show ?thesis
    using validate_prediction_red[of mc res g] validate_prediction_blue[of mc res g]
      validate_prediction_conf[of mc res g]
    by (simp add: strict_sorted_iff)
qed

text \<open>The theorem at a result with a duplicate, two red numbers out of range, a blue
  number out of range and a confidence above the ceiling.\<close>

theorem validate_prediction_total_shape_witness:
  "red_balls (fst (validate_prediction 75
      \<lparr>red_balls = [40, 7, 7, 0], blue_ball = 99, confidence = 120, metadata = None\<rparr>
      [3, 5, 8, 13])) = [0, 4, 7, 8, 12, 40]
   \<and> blue_ball (fst (validate_prediction 75
      \<lparr>red_balls = [40, 7, 7, 0], blue_ball = 99, confidence = 120, metadata = None\<rparr>
      [3, 5, 8, 13])) \<le> 16
   \<and> confidence (fst (validate_prediction 75
      \<lparr>red_balls = [40, 7, 7, 0], blue_ball = 99, confidence = 120, metadata = None\<rparr>
      [3, 5, 8, 13])) \<le> 75"
proof -
  have "red_balls (fst (validate_prediction 75
      \<lparr>red_balls = [40, 7, 7, 0], blue_ball = 99, confidence = 120, metadata = None\<rparr>
      [3, 5, 8, 13])) = [0, 4, 7, 8, 12, 40]"
    by (simp add: validate_prediction_def shuffle_def randint_def upto.simps)
  then show ?thesis
    using validate_prediction_total_shape[of 75
      "\<lparr>red_balls = [40, 7, 7, 0], blue_ball = 99, confidence = 120, metadata = None\<rparr>"
      "[3, 5, 8, 13]"]
    by blast
qed


end
